theory Spec2Isabelle
  imports Main "HOL-Library.Char_ord" "HOL-Library.List_Lexorder" "HOL-Library.Product_Lexorder"
begin

section \<open>perfarce: pushing to and pulling from Perforce depots\<close>

text \<open>
  A shallow embedding of \<^verbatim>\<open>.hgextensions/perfarce/perfarce.py\<close>.  File names, flags,
  descriptions and node ids are Python 2 byte strings, hence \<^typ>\<open>string\<close>.  Every
  \<^verbatim>\<open>raise\<close> of the source is an \<open>Inl\<close> result of the model.
\<close>

datatype error =
    P4NotClient string
  | P4BadClient string
  | Abort string
  | ValueError
  | TypeError
  | KeyError
  | AttributeError
  | IOError
  | LookupError

subsection \<open>The local repository\<close>

text \<open>
  Mercurial is consulted through a few queries only.  A changeset carries its node id
  (20 bytes), the node ids of its parents (a null parent is left out, as the test
  \<^verbatim>\<open>if p\<close> of the source skips it), the files it touches, its description and the
  value of the key \<^verbatim>\<open>p4\<close> of its extra data, if it has that key.  The key is written
  by \<^verbatim>\<open>pull\<close> as a changelist number, and the model keeps the number that
  \<^verbatim>\<open>int(extra['p4'])\<close> reads.
\<close>

record changeset =
  node :: string
  parents :: "string list"
  files :: "string list"
  description :: string
  extra_p4 :: "int option"

text \<open>
  The repository: its changelog in revision order, the node that \<^verbatim>\<open>repo['default']\<close>
  resolves to (the tip of the default branch; \<open>None\<close> when the lookup raises), and the
  node of \<^verbatim>\<open>qbase\<close> when a patch queue is applied.
\<close>

record repo =
  changelog :: "changeset list"
  default :: "string option"
  qbase :: "string option"

text \<open>\<^verbatim>\<open>node.nullid\<close>\<close>

definition nullid :: string where
  "nullid = replicate 20 (CHR 0x00)"

text \<open>
  \<^verbatim>\<open>changelog.nodesbetween(roots, heads)[0]\<close> of Mercurial, for roots and heads
  that are nodes of the repository or the null id: the nodes, in revision order, that
  are a descendant of some root and an ancestor of some head, where every node is a
  descendant and an ancestor of itself and every node descends from the null id, which
  is never listed.  The descendants are marked in one pass over the changelog in
  revision order, the ancestors in one pass in the reverse order, as Mercurial does it.
\<close>

fun descendants_of :: "changeset list \<Rightarrow> string list \<Rightarrow> string list" where
  "descendants_of [] ds = ds"
| "descendants_of (c # cs) ds =
     descendants_of cs (if list_ex (\<lambda>p. p \<in> set ds) (parents c) then node c # ds else ds)"

fun ancestors_of :: "changeset list \<Rightarrow> string list \<Rightarrow> string list" where
  "ancestors_of [] acc = acc"
| "ancestors_of (c # cs) acc =
     ancestors_of cs (if node c \<in> set acc then parents c @ acc else acc)"

definition nodesbetween :: "repo \<Rightarrow> string list \<Rightarrow> string list \<Rightarrow> string list" where
  "nodesbetween r roots heads =
     filter (\<lambda>n. (nullid \<in> set roots \<or> n \<in> set (descendants_of (changelog r) roots)) \<and>
                  n \<in> set (ancestors_of (rev (changelog r)) heads))
       (map node (changelog r))"

text \<open>\<^verbatim>\<open>repo[n]\<close> for a binary node id; \<open>None\<close> when the lookup raises.\<close>

definition repo_node :: "repo \<Rightarrow> string \<Rightarrow> changeset option" where
  "repo_node r n = find (\<lambda>c. node c = n) (changelog r)"

text \<open>\<^verbatim>\<open>mercurial.node.hex\<close>: two lower-case hexadecimal digits for each byte.\<close>

definition hexdigit :: "nat \<Rightarrow> char" where
  "hexdigit n = ''0123456789abcdef'' ! n"

definition hex :: "string \<Rightarrow> string" where
  "hex s = concat (map (\<lambda>c. [hexdigit (of_char c div 16), hexdigit (of_char c mod 16)]) s)"

text \<open>\<^verbatim>\<open>repo[h]\<close> for the 40 hexadecimal digits of a node id.\<close>

definition repo_hex :: "repo \<Rightarrow> string \<Rightarrow> changeset option" where
  "repo_hex r h = find (\<lambda>c. hex (node c) = h) (changelog r)"

text \<open>\<^verbatim>\<open>ctx.parents()\<close>: the parents that are changesets of the repository.\<close>

definition ctx_parents :: "repo \<Rightarrow> changeset \<Rightarrow> changeset list" where
  "ctx_parents r c = List.map_filter (repo_node r) (parents c)"

text \<open>\<^verbatim>\<open>ctx.children()\<close>\<close>

definition ctx_children :: "repo \<Rightarrow> changeset \<Rightarrow> changeset list" where
  "ctx_children r c = filter (\<lambda>d. node c \<in> set (parents d)) (changelog r)"

text \<open>\<^verbatim>\<open>sep.join(xs)\<close>\<close>

fun join :: "string \<Rightarrow> string list \<Rightarrow> string" where
  "join sep [] = []"
| "join sep [x] = x"
| "join sep (x # y # ys) = x @ sep @ join sep (y # ys)"

text \<open>\<^verbatim>\<open>s.startswith(p)\<close>\<close>

definition startswith :: "string \<Rightarrow> string \<Rightarrow> bool" where
  "startswith s p = (take (length p) s = p)"

subsection \<open>push: sorting out the copies from the adds\<close>

text \<open>
  An entry of the lists \<^verbatim>\<open>mod\<close>, \<^verbatim>\<open>add\<close> and \<^verbatim>\<open>rem\<close> is a pair of a file name
  and its flags.  \<^verbatim>\<open>cpy\<close> maps a destination to its copy source and to whether the
  copy changed the data.
\<close>

type_synonym fentry = "string \<times> string"

type_synonym cpymap = "string \<rightharpoonup> string \<times> bool"

text \<open>
  The local variables of \<^verbatim>\<open>push\<close> that the loop over \<^verbatim>\<open>add\<close> updates:
  \<^verbatim>\<open>moves\<close> holds (src, dest, mode), \<^verbatim>\<open>copies\<close> and \<^verbatim>\<open>ntg\<close> hold (src, dest),
  \<^verbatim>\<open>add2\<close> and \<^verbatim>\<open>mod2\<close> hold (dest, mode), \<^verbatim>\<open>rems\<close> is the dictionary built
  from \<^verbatim>\<open>rem\<close>.
\<close>

record sorting =
  moves :: "(string \<times> string \<times> string) list"
  copies :: "(string \<times> string) list"
  ntg :: "(string \<times> string) list"
  add2 :: "fentry list"
  mod2 :: "fentry list"
  rems :: "string \<rightharpoonup> bool"

text \<open>\<^verbatim>\<open>rems = {}; for f in rem: rems[f[0]] = True\<close>\<close>

definition rems_of :: "fentry list \<Rightarrow> string \<rightharpoonup> bool" where
  "rems_of rem = fold (\<lambda>f m. m(fst f \<mapsto> True)) rem Map.empty"

definition sorting_init :: "fentry list \<Rightarrow> sorting" where
  "sorting_init rem =
     \<lparr>moves = [], copies = [], ntg = [], add2 = [], mod2 = [], rems = rems_of rem\<rparr>"

text \<open>
  The body of \<^verbatim>\<open>for f,g in add\<close>.  The test \<^verbatim>\<open>r in rems and rems[r]\<close> is
  \<open>rems st r = Some True\<close>.
\<close>

definition sort_entry :: "bool \<Rightarrow> bool \<Rightarrow> cpymap \<Rightarrow> fentry \<Rightarrow> sorting \<Rightarrow> sorting" where
  "sort_entry move copy cpy e st =
     (case e of (f, g) \<Rightarrow>
        (case cpy f of
           None \<Rightarrow> st\<lparr>add2 := add2 st @ [(f, g)]\<rparr>
         | Some (r, chg) \<Rightarrow>
             (let st1 =
                (if move \<and> rems st r = Some True
                 then st\<lparr>moves := moves st @ [(r, f, g)], rems := (rems st)(r \<mapsto> False)\<rparr>
                 else if copy
                 then st\<lparr>copies := copies st @ [(r, f)]\<rparr>
                 else st\<lparr>ntg := ntg st @ [(r, f)]\<rparr>)
              in if chg then st1\<lparr>mod2 := mod2 st1 @ [(f, g)]\<rparr> else st1)))"

definition sort_adds :: "bool \<Rightarrow> bool \<Rightarrow> cpymap \<Rightarrow> fentry list \<Rightarrow> sorting \<Rightarrow> sorting" where
  "sort_adds move copy cpy add st = fold (sort_entry move copy cpy) add st"

text \<open>
  The whole block: the loop, then \<^verbatim>\<open>add = add2\<close> and
  \<^verbatim>\<open>rem = [r for r in rem if rems[r[0]]]\<close>.  The result is the final state of the
  loop paired with the new \<^verbatim>\<open>rem\<close>.
\<close>

definition sort_copies ::
  "bool \<Rightarrow> bool \<Rightarrow> cpymap \<Rightarrow> fentry list \<Rightarrow> fentry list \<Rightarrow> sorting \<times> fentry list" where
  "sort_copies move copy cpy add rem =
     (let st = sort_adds move copy cpy add (sorting_init rem)
      in (st, filter (\<lambda>r. rems st (fst r) = Some True) rem))"

text \<open>
  What the loop did for one destination \<^verbatim>\<open>f\<close>: the entries of \<^verbatim>\<open>moves\<close>,
  \<^verbatim>\<open>copies\<close> and \<^verbatim>\<open>ntg\<close> whose destination is \<^verbatim>\<open>f\<close>.
\<close>

definition to_dest ::
  "string \<Rightarrow> sorting \<Rightarrow>
     (string \<times> string \<times> string) list \<times> (string \<times> string) list \<times> (string \<times> string) list" where
  "to_dest f st =
     (filter (\<lambda>x. fst (snd x) = f) (moves st),
      filter (\<lambda>x. snd x = f) (copies st),
      filter (\<lambda>x. snd x = f) (ntg st))"

subsection \<open>pushcommon: remembering which copies change the data\<close>

text \<open>
  A changeset's manifest maps a file name to its flags and data.  \<^verbatim>\<open>ctx.flags(f)\<close>
  is the empty string for a file the manifest does not have; \<^verbatim>\<open>ctx[f].data()\<close>
  raises a lookup error there.
\<close>

type_synonym manifest = "string \<rightharpoonup> string \<times> string"

definition ctx_flags :: "manifest \<Rightarrow> string \<Rightarrow> string" where
  "ctx_flags ctx f = (case ctx f of None \<Rightarrow> [] | Some (fl, d) \<Rightarrow> fl)"

definition ctx_data :: "manifest \<Rightarrow> string \<Rightarrow> error + string" where
  "ctx_data ctx f = (case ctx f of None \<Rightarrow> Inl LookupError | Some (fl, d) \<Rightarrow> Inr d)"

text \<open>
  \<^verbatim>\<open>chg = ctx2.flags(c) != ctx1.flags(c) or ctx2[c].data() != ctx1[cpy[c]].data()\<close>,
  where \<^verbatim>\<open>src\<close> is \<^verbatim>\<open>cpy[c]\<close>.  The right operand of \<^verbatim>\<open>or\<close> is evaluated
  only when the left one is false.
\<close>

definition copy_chg :: "manifest \<Rightarrow> manifest \<Rightarrow> string \<Rightarrow> string \<Rightarrow> error + bool" where
  "copy_chg ctx1 ctx2 c src =
     (if ctx_flags ctx2 c \<noteq> ctx_flags ctx1 c then Inr True
      else (case ctx_data ctx2 c of
              Inl e \<Rightarrow> Inl e
            | Inr d2 \<Rightarrow> (case ctx_data ctx1 src of
                          Inl e \<Rightarrow> Inl e
                        | Inr d1 \<Rightarrow> Inr (d2 \<noteq> d1))))"

text \<open>
  \<^verbatim>\<open>for c in cpy: ...; cpy[c] = (cpy[c], chg)\<close>.  The dictionary that
  \<^verbatim>\<open>copies.pathcopies\<close> returns is an association list here, visited in its order.
\<close>

fun mark_copies ::
  "manifest \<Rightarrow> manifest \<Rightarrow> (string \<times> string) list \<Rightarrow> error + (string \<times> string \<times> bool) list" where
  "mark_copies ctx1 ctx2 [] = Inr []"
| "mark_copies ctx1 ctx2 ((c, src) # cpy) =
     (case copy_chg ctx1 ctx2 c src of
        Inl e \<Rightarrow> Inl e
      | Inr chg \<Rightarrow> (case mark_copies ctx1 ctx2 cpy of
                     Inl e \<Rightarrow> Inl e
                   | Inr rest \<Rightarrow> Inr ((c, src, chg) # rest)))"

subsection \<open>The reference to Mercurial nodes in a changelist description\<close>

text \<open>
  \<^verbatim>\<open>re_hgid = re.compile('{{mercurial (([0-9a-f]{40})(:([0-9a-f]{40}))?)}}')\<close>.
  The pieces of the pattern: a literal, which leaves the rest of the subject when the
  subject starts with it, and a run of exactly \<open>n\<close> hexadecimal digits.
\<close>

fun literal :: "string \<Rightarrow> string \<Rightarrow> string option" where
  "literal [] s = Some s"
| "literal (p # ps) [] = None"
| "literal (p # ps) (c # cs) = (if p = c then literal ps cs else None)"

definition is_hexdigit :: "char \<Rightarrow> bool" where
  "is_hexdigit c = (c \<in> set ''0123456789abcdef'')"

fun hexdigits :: "nat \<Rightarrow> string \<Rightarrow> (string \<times> string) option" where
  "hexdigits 0 s = Some ([], s)"
| "hexdigits (Suc n) [] = None"
| "hexdigits (Suc n) (c # cs) =
     (if is_hexdigit c
      then (case hexdigits n cs of None \<Rightarrow> None | Some (h, rest) \<Rightarrow> Some (c # h, rest))
      else None)"

text \<open>
  The optional group 3, \<^verbatim>\<open>(:([0-9a-f]{40}))?\<close>, followed by the closing braces:
  group 4 and the rest of the subject after the match.
\<close>

definition hgid_range :: "string \<Rightarrow> (string \<times> string) option" where
  "hgid_range s =
     (case literal '':'' s of
        None \<Rightarrow> None
      | Some s3 \<Rightarrow>
          (case hexdigits 40 s3 of
             None \<Rightarrow> None
           | Some (g4, s4) \<Rightarrow>
               (case literal ''}}'' s4 of None \<Rightarrow> None | Some s5 \<Rightarrow> Some (g4, s5))))"

text \<open>
  A match of the pattern at the start of the subject: group 2, group 4 (if it took part
  in the match) and the rest of the subject.  The optional group is tried first; when
  the match cannot be completed with it, the pattern is tried without it.
\<close>

definition re_hgid_at :: "string \<Rightarrow> (string \<times> string option \<times> string) option" where
  "re_hgid_at s =
     (case literal ''{{mercurial '' s of
        None \<Rightarrow> None
      | Some s1 \<Rightarrow>
          (case hexdigits 40 s1 of
             None \<Rightarrow> None
           | Some (g2, s2) \<Rightarrow>
               (case hgid_range s2 of
                  Some (g4, s5) \<Rightarrow> Some (g2, Some g4, s5)
                | None \<Rightarrow>
                    (case literal ''}}'' s2 of
                       None \<Rightarrow> None
                     | Some s5 \<Rightarrow> Some (g2, None, s5)))))"

text \<open>
  The match object: \<^verbatim>\<open>m.start(0)\<close>, \<^verbatim>\<open>m.end(0)\<close>, \<^verbatim>\<open>m.group(2)\<close> and
  \<^verbatim>\<open>m.group(4)\<close>, which is \<open>None\<close> when the reference names one node.
\<close>

record hgid_match =
  m_start :: nat
  m_end :: nat
  group2 :: string
  group4 :: "string option"

text \<open>
  \<^verbatim>\<open>re_hgid.search(desc)\<close>: the leftmost match.  The first argument counts the
  characters already passed.
\<close>

fun re_hgid_search_from :: "nat \<Rightarrow> string \<Rightarrow> hgid_match option" where
  "re_hgid_search_from i [] = None"
| "re_hgid_search_from i (c # cs) =
     (case re_hgid_at (c # cs) of
        Some (g2, g4, rest) \<Rightarrow>
          Some \<lparr>m_start = i, m_end = i + (length (c # cs) - length rest),
                group2 = g2, group4 = g4\<rparr>
      | None \<Rightarrow> re_hgid_search_from (Suc i) cs)"

definition re_hgid_search :: "string \<Rightarrow> hgid_match option" where
  "re_hgid_search desc = re_hgid_search_from 0 desc"

text \<open>
  \<^verbatim>\<open>parsenodes\<close>: find revisions in a p4 changelist description.  A lookup that
  raises is caught, and the node list stays empty.  \<^verbatim>\<open>m.group(4) or m.group(2)\<close>
  is group 4 when it took part in the match.
\<close>

definition parsenodes :: "repo \<Rightarrow> string \<Rightarrow> string list \<times> hgid_match option" where
  "parsenodes r desc =
     (case re_hgid_search desc of
        None \<Rightarrow> ([], None)
      | Some m \<Rightarrow>
          (case repo_hex r (group2 m) of
             None \<Rightarrow> ([], Some m)
           | Some c1 \<Rightarrow>
               (case repo_hex r (case group4 m of Some g4 \<Rightarrow> g4 | None \<Rightarrow> group2 m) of
                  None \<Rightarrow> ([], Some m)
                | Some c2 \<Rightarrow> (nodesbetween r [node c1] [node c2], Some m))))"

text \<open>
  \<^verbatim>\<open>pushcommon\<close>, creating the description of the changelist from the descriptions
  of the pushed changesets and from their nodes, which are not empty at this point:
  \<^verbatim>\<open>h\<close> holds the hex of the first node when there is more than one, and the hex of
  the last node.
\<close>

definition hgid_of :: "string list \<Rightarrow> string" where
  "hgid_of nodes =
     join '':'' ((if length nodes > 1 then [hex (hd nodes)] else []) @ [hex (last nodes)])"

definition create_description :: "string list \<Rightarrow> string list \<Rightarrow> string" where
  "create_description desc nodes =
     join ''\<newline>* * *\<newline>'' desc @ ''\<newline>\<newline>{{mercurial '' @ hgid_of nodes @ ''}}\<newline>''"

subsection \<open>find: the most recent revision converted from a p4 changelist\<close>

text \<open>\<^verbatim>\<open>dothgonly\<close>: true if only \<^verbatim>\<open>.hg\<close> files in this context.\<close>

definition dothgonly :: "changeset \<Rightarrow> bool" where
  "dothgonly ctx = (files ctx \<noteq> [] \<and> list_all (\<lambda>f. startswith f ''.hg'') (files ctx))"

text \<open>
  \<^verbatim>\<open>mqnode and self.repo.changelog.nodesbetween(mqnode, [ctx.node()])[0]\<close>, where
  \<^verbatim>\<open>mqnode\<close> is \<^verbatim>\<open>[repo['qbase'].node()]\<close>, or \<^verbatim>\<open>None\<close> when that lookup
  raises.
\<close>

definition in_mq :: "repo \<Rightarrow> changeset \<Rightarrow> bool" where
  "in_mq r ctx = (case qbase r of None \<Rightarrow> False | Some q \<Rightarrow> nodesbetween r [q] [node ctx] \<noteq> [])"

text \<open>
  The loop \<^verbatim>\<open>while path\<close> of the base mode.  It ends with an empty path, which is
  the rest \<^verbatim>\<open>path[1:]\<close> of a tuple when the path is used up, and the list
  \<^verbatim>\<open>[]\<close> assigned in the \<^verbatim>\<open>else\<close> branch otherwise; the result tells with
  \<open>True\<close> that the path is now a list.
\<close>

fun skip_hgonly :: "repo \<Rightarrow> changeset \<Rightarrow> changeset list \<Rightarrow> changeset \<times> bool" where
  "skip_hgonly r ctx [] = (ctx, False)"
| "skip_hgonly r ctx (p # path) =
     (if dothgonly p \<and> \<not> in_mq r ctx then skip_hgonly r p path else (ctx, True))"

text \<open>
  The test \<^verbatim>\<open>if 'p4' in extra\<close> for one entry of \<^verbatim>\<open>current\<close>: either the
  function returns a node and a changelist number, or the walk goes on with the
  values that \<^verbatim>\<open>ctx\<close> and \<^verbatim>\<open>path\<close> now have, and with the flag of
  \<open>skip_hgonly\<close>.  \<^verbatim>\<open>not p4rev\<close> holds for \<^verbatim>\<open>None\<close> and for 0.
\<close>

definition at_marker ::
  "repo \<Rightarrow> bool \<Rightarrow> int option \<Rightarrow> changeset \<Rightarrow> changeset list \<Rightarrow>
     (string \<times> int) + (changeset \<times> changeset list \<times> bool)" where
  "at_marker r base p4rev ctx path =
     (case extra_p4 ctx of
        None \<Rightarrow> Inr (ctx, path, False)
      | Some p4 \<Rightarrow>
          (let (ctx', path', is_list) =
                 (if base then (fst (skip_hgonly r ctx path), [], snd (skip_hgonly r ctx path))
                  else (ctx, path, False))
           in if p4rev = None \<or> p4rev = Some 0 \<or> p4rev = Some p4
              then Inl (node ctx', p4)
              else Inr (ctx', path', is_list)))"

text \<open>
  \<^verbatim>\<open>for p in ctx.parents(): if p and p not in seen: ...\<close>.  Appending
  \<^verbatim>\<open>(ctx,) + path\<close> raises a type error when \<^verbatim>\<open>path\<close> is a list.
\<close>

fun add_parents ::
  "changeset \<Rightarrow> changeset list \<Rightarrow> bool \<Rightarrow> changeset list \<Rightarrow>
     (changeset \<times> changeset list) list \<Rightarrow> string list \<Rightarrow>
     error + (changeset \<times> changeset list) list \<times> string list" where
  "add_parents ctx path is_list [] nxt seen = Inr (nxt, seen)"
| "add_parents ctx path is_list (p # ps) nxt seen =
     (if node p \<notin> set seen
      then (if is_list then Inl TypeError
            else add_parents ctx path is_list ps (nxt @ [(p, ctx # path)]) (node p # seen))
      else add_parents ctx path is_list ps nxt seen)"

text \<open>
  \<^verbatim>\<open>for ctx,path in current\<close>: one level of the walk.  It returns from
  \<^verbatim>\<open>find\<close>, raises, or leaves the next level and the nodes seen.
\<close>

datatype level = Found string int | Raised error | Next "(changeset \<times> changeset list) list" "string list"

fun find_level ::
  "repo \<Rightarrow> bool \<Rightarrow> int option \<Rightarrow> (changeset \<times> changeset list) list \<Rightarrow>
     (changeset \<times> changeset list) list \<Rightarrow> string list \<Rightarrow> level" where
  "find_level r base p4rev [] nxt seen = Next nxt seen"
| "find_level r base p4rev ((ctx, path) # current) nxt seen =
     (case at_marker r base p4rev ctx path of
        Inl (n, p4) \<Rightarrow> Found n p4
      | Inr (ctx', path', is_list) \<Rightarrow>
          (case add_parents ctx' path' is_list (ctx_parents r ctx') nxt seen of
             Inl e \<Rightarrow> Raised e
           | Inr (nxt', seen') \<Rightarrow> find_level r base p4rev current nxt' seen'))"

text \<open>
  \<^verbatim>\<open>while current\<close>.  Every level with a successor marks a changeset of the
  repository as seen that was not seen before, so the walk ends.  The result is
  \<open>Inr None\<close> when the walk runs out of changesets.
\<close>

function find_walk ::
  "repo \<Rightarrow> bool \<Rightarrow> int option \<Rightarrow> (changeset \<times> changeset list) list \<Rightarrow> string list \<Rightarrow>
     error + (string \<times> int) option" where
  "find_walk r base p4rev current seen =
     (if current = [] then Inr None
      else (case find_level r base p4rev current [] seen of
              Found n p4 \<Rightarrow> Inr (Some (n, p4))
            | Raised e \<Rightarrow> Inl e
            | Next nxt seen' \<Rightarrow> find_walk r base p4rev nxt seen'))"
  by pat_completeness auto
termination
proof (relation "measure (\<lambda>(r, base, p4rev, current, seen).
    2 * card (node ` set (changelog r) - set seen) + (if current = [] then 0 else 1))")
  show "wf (measure (\<lambda>(r, base, p4rev, current, seen).
    2 * card (node ` set (changelog r) - set seen) + (if current = [] then 0 else 1)))"
    by simp
next
  fix r :: repo and base p4rev and current :: "(changeset \<times> changeset list) list"
    and seen nxt seen'
  assume ne: "current \<noteq> []" and lv: "find_level r base p4rev current [] seen = Next nxt seen'"
  let ?N = "node ` set (changelog r)"
  have par: "\<And>c p. p \<in> set (ctx_parents r c) \<Longrightarrow> node p \<in> ?N"
  proof -
    fix c p
    assume "p \<in> set (ctx_parents r c)"
    then obtain n where "repo_node r n = Some p"
      by (auto simp: ctx_parents_def List.map_filter_def)
    then have "p \<in> set (changelog r)"
      by (auto simp: repo_node_def find_Some_iff)
    then show "node p \<in> ?N" by simp
  qed
  have add: "\<And>ctx path il ps n0 s0 n1 s1.
      add_parents ctx path il ps n0 s0 = Inr (n1, s1) \<Longrightarrow> node ` set ps \<subseteq> ?N \<Longrightarrow>
      card (?N - set s1) \<le> card (?N - set s0) \<and>
      (n1 = n0 \<or> card (?N - set s1) < card (?N - set s0))"
  proof -
    fix ctx path il ps n0 s0 n1 s1
    show "add_parents ctx path il ps n0 s0 = Inr (n1, s1) \<Longrightarrow> node ` set ps \<subseteq> ?N \<Longrightarrow>
      card (?N - set s1) \<le> card (?N - set s0) \<and>
      (n1 = n0 \<or> card (?N - set s1) < card (?N - set s0))"
    proof (induction ps arbitrary: n0 s0)
      case Nil
      then show ?case by simp
    next
      case (Cons p ps)
      show ?case
      proof (cases "node p \<in> set s0")
        case True
        with Cons show ?thesis by simp
      next
        case False
        with Cons.prems have il: "\<not> il"
          and rest: "add_parents ctx path il ps (n0 @ [(p, ctx # path)]) (node p # s0) = Inr (n1, s1)"
          by (auto split: if_splits)
        from Cons.prems have sub: "node ` set ps \<subseteq> ?N" and pN: "node p \<in> ?N" by auto
        from Cons.IH [OF rest sub]
        have le: "card (?N - set s1) \<le> card (?N - set (node p # s0))" by simp
        have eq: "?N - set (node p # s0) = (?N - set s0) - {node p}" by auto
        have "node p \<in> ?N - set s0" using pN False by simp
        moreover have "finite (?N - set s0)" by simp
        ultimately have "card ((?N - set s0) - {node p}) < card (?N - set s0)"
          by (rule card_Diff1_less [rotated])
        then have "card (?N - set (node p # s0)) < card (?N - set s0)"
          by (simp only: eq)
        with le show ?thesis by simp
      qed
    qed
  qed
  have lvl: "\<And>cur n0 s0. find_level r base p4rev cur n0 s0 = Next nxt seen' \<Longrightarrow>
      card (?N - set seen') \<le> card (?N - set s0) \<and>
      (nxt = n0 \<or> card (?N - set seen') < card (?N - set s0))"
  proof -
    fix cur n0 s0
    show "find_level r base p4rev cur n0 s0 = Next nxt seen' \<Longrightarrow>
      card (?N - set seen') \<le> card (?N - set s0) \<and>
      (nxt = n0 \<or> card (?N - set seen') < card (?N - set s0))"
    proof (induction cur arbitrary: n0 s0)
      case Nil
      then show ?case by simp
    next
      case (Cons cp cur)
      obtain ctx path where cp: "cp = (ctx, path)" by (cases cp)
      from Cons.prems cp obtain ctx' path' il n1 s1 where
        a: "add_parents ctx' path' il (ctx_parents r ctx') n0 s0 = Inr (n1, s1)"
        and l: "find_level r base p4rev cur n1 s1 = Next nxt seen'"
        by (auto split: sum.splits prod.splits)
      have "node ` set (ctx_parents r ctx') \<subseteq> ?N" using par by blast
      from add [OF a this] Cons.IH [OF l] show ?case by auto
    qed
  qed
  from lvl [OF lv] ne
  show "((r, base, p4rev, nxt, seen'), (r, base, p4rev, current, seen)) \<in>
    measure (\<lambda>(r, base, p4rev, current, seen).
      2 * card (node ` set (changelog r) - set seen) + (if current = [] then 0 else 1))"
    by auto
qed

declare find_walk.simps [simp del]

text \<open>
  The start of the walk: \<^verbatim>\<open>self.repo['default']\<close> when \<^verbatim>\<open>rev\<close> is
  \<^verbatim>\<open>None\<close>, \<^verbatim>\<open>self.repo[rev]\<close> otherwise.
\<close>

definition find_start :: "repo \<Rightarrow> string option \<Rightarrow> changeset option" where
  "find_start r rv =
     (case rv of
        None \<Rightarrow> (case default r of None \<Rightarrow> None | Some n \<Rightarrow> repo_node r n)
      | Some n \<Rightarrow> repo_node r n)"

text \<open>
  \<^verbatim>\<open>find(rev, base, p4rev, abort)\<close> returns the revision and the p4 changelist
  number.
\<close>

definition find_p4 ::
  "repo \<Rightarrow> string option \<Rightarrow> bool \<Rightarrow> int option \<Rightarrow> bool \<Rightarrow> error + string \<times> int" where
  "find_p4 r rv base p4rev abort =
     (case find_start r rv of
        None \<Rightarrow> Inl LookupError
      | Some ctx \<Rightarrow>
          (case find_walk r base p4rev [(ctx, [])] [] of
             Inl e \<Rightarrow> Inl e
           | Inr (Some found) \<Rightarrow> Inr found
           | Inr None \<Rightarrow>
               if abort then Inl (Abort ''no p4 changelist revision found'')
               else Inr (nullid, 0)))"

text \<open>
  The ancestry of the repository: \<open>(c, p)\<close> is in \<open>parent_rel\<close> when \<open>p\<close> is a
  parent of \<open>c\<close>.  The ancestor set of a changeset, which is what the walk visits,
  holds the changeset itself.
\<close>

definition parent_rel :: "repo \<Rightarrow> (changeset \<times> changeset) set" where
  "parent_rel r = {(c, p). p \<in> set (ctx_parents r c)}"

definition ancestors :: "repo \<Rightarrow> changeset \<Rightarrow> changeset set" where
  "ancestors r ctx = {c. (ctx, c) \<in> (parent_rel r)\<^sup>*}"

subsection \<open>Running p4 commands\<close>

text \<open>
  \<^verbatim>\<open>p4 -G\<close> answers with marshalled dictionaries whose values are strings or
  integers.
\<close>

datatype p4val = S string | I int

type_synonym p4rec = "(string \<times> p4val) list"

text \<open>
  \<^verbatim>\<open>d[k]\<close> for a value that is used as a string; \<open>None\<close> when the key is
  missing, where the source raises a key error.
\<close>

definition getstr :: "p4rec \<Rightarrow> string \<Rightarrow> string option" where
  "getstr d k = (case map_of d k of Some (S s) \<Rightarrow> Some s | _ \<Rightarrow> None)"

text \<open>
  A call of the p4 client program: the options \<^verbatim>\<open>-p\<close>, \<^verbatim>\<open>-c\<close> and
  \<^verbatim>\<open>-d\<close>, if given, the command, the file arguments, and the form that
  \<^verbatim>\<open>change -i\<close> reads from the temporary file.  The command is kept as the list
  of the parts that the source puts together with single spaces, an argument that the
  source quotes being quoted here: the command string \<^verbatim>\<open>cmd\<close> of the source is
  \<open>join '' '' (call_cmd c)\<close>.
\<close>

record p4call =
  call_server :: "string option"
  call_client :: "string option"
  call_root :: "string option"
  call_cmd :: "string list"
  call_files :: "string list"
  call_form :: "p4rec option"

text \<open>
  The server is not part of the program.  It is any function from the calls made so
  far, the last one being the current call, to the dictionaries it answers with.  The
  state of a session is the list of calls made.
\<close>

type_synonym p4server = "p4call list \<Rightarrow> p4rec list"

type_synonym calls = "p4call list"

text \<open>
  The configuration and the operating system, as far as the source asks them:
  \<^verbatim>\<open>ui.configbool('perfarce', ...)\<close>, \<^verbatim>\<open>ui.config("perfarce","clientuser")\<close>,
  \<^verbatim>\<open>os.path.isdir\<close>, \<^verbatim>\<open>util.shellquote\<close>, the name of the file that
  \<^verbatim>\<open>TempFile\<close> makes, \<^verbatim>\<open>normcase\<close>, \<^verbatim>\<open>re.subn\<close> together with
  \<^verbatim>\<open>string.capwords\<close>, the last line that the script named by
  \<^verbatim>\<open>clientuser\<close> prints for a client and a user, stripped (\<open>None\<close> when it
  prints nothing), whether writing a file of the workspace fails, what
  \<^verbatim>\<open>ui.expandpath\<close> returns for \<^verbatim>\<open>default-push\<close>, and the path of the local
  repository.  The regular expression of \<^verbatim>\<open>decodetype\<close> is not unfolded: the base
  type and the mode that it reads from a p4 file type are taken as a function.
\<close>

record ui =
  keep :: bool
  lowercasepaths :: bool
  ignorecase :: bool
  clientuser :: "string option"
  cfg_submit :: bool
  cfg_move :: "bool option"
  cfg_copy :: "bool option"
  cfg_tags :: bool
  pull_trim_log :: bool
  isdir :: "string \<Rightarrow> bool"
  shellquote :: "string \<Rightarrow> string"
  tempname :: string
  normcase :: "string \<Rightarrow> string"
  re_subn :: "string \<Rightarrow> string \<Rightarrow> string \<Rightarrow> string \<times> nat"
  capwords :: "string \<Rightarrow> string"
  script :: "string \<Rightarrow> string \<Rightarrow> string \<Rightarrow> string option"
  write_fails :: "string \<Rightarrow> bool"
  default_push :: string
  repo_path :: string
  decodetype :: "string \<Rightarrow> string \<times> string"

text \<open>The fields of a \<^verbatim>\<open>p4client\<close> object.\<close>

record p4client =
  server :: "string option"
  client :: "string option"
  root :: "string option"
  partial :: "string option"
  rootpart :: "string option"
  clientspec :: p4rec
  usercache :: "(string \<times> string option) \<rightharpoonup> string"
  p4stat :: "string list option"
  p4pending :: "(int \<times> bool \<times> string list \<times> string \<times> string) list"

text \<open>\<^verbatim>\<open>s.strip()\<close>, for the white space characters of ASCII.\<close>

definition is_space :: "char \<Rightarrow> bool" where
  "is_space c = (c \<in> set [CHR '' '', CHR 0x09, CHR ''\<newline>'', CHR 0x0B, CHR 0x0C, CHR 0x0D])"

definition strip :: "string \<Rightarrow> string" where
  "strip s = rev (dropWhile is_space (rev (dropWhile is_space s)))"

text \<open>
  \<^verbatim>\<open>loaditer\<close>: yield the dictionary objects generated by p4.  The first empty
  dictionary ends the stream (\<^verbatim>\<open>if not d: break\<close>).
\<close>

definition loaditer :: "p4rec list \<Rightarrow> p4rec list" where
  "loaditer ds = takeWhile (\<lambda>d. d \<noteq> []) ds"

text \<open>
  \<^verbatim>\<open>run\<close>: run a p4 command and yield the objects returned.  The generator raises
  at the first dictionary with the code \<^verbatim>\<open>error\<close> when \<^verbatim>\<open>abort\<close> is set; the
  dictionaries before it have been yielded.  The result is the list of dictionaries
  yielded and the error, if one is raised.  \<^verbatim>\<open>data.strip()\<close> raises when the
  data are no string.
\<close>

fun yielded :: "bool \<Rightarrow> p4rec list \<Rightarrow> p4rec list \<times> error option" where
  "yielded abort [] = ([], None)"
| "yielded abort (d # ds) =
     (case (map_of d ''code'', map_of d ''data'') of
        (Some code, Some (S data)) \<Rightarrow>
          if abort \<and> code = S ''error'' then ([], Some (Abort (''p4: '' @ strip data)))
          else (d # fst (yielded abort ds), snd (yielded abort ds))
      | (Some code, Some (I n)) \<Rightarrow> ([], Some AttributeError)
      | _ \<Rightarrow> (d # fst (yielded abort ds), snd (yielded abort ds)))"

text \<open>
  An option is given when its value is neither \<^verbatim>\<open>None\<close> nor empty:
  \<^verbatim>\<open>if self.server\<close>, \<^verbatim>\<open>if client or self.client\<close>, \<^verbatim>\<open>if self.root\<close>.
\<close>

definition given :: "string option \<Rightarrow> string option" where
  "given v = (case v of Some s \<Rightarrow> if s \<noteq> [] then Some s else None | None \<Rightarrow> None)"

definition the_call ::
  "p4client \<Rightarrow> string list \<Rightarrow> string list \<Rightarrow> string option \<Rightarrow> p4rec option \<Rightarrow> p4call" where
  "the_call cl cmd fs c form =
     \<lparr>call_server = given (server cl),
      call_client = (case given c of Some n \<Rightarrow> Some n | None \<Rightarrow> given (client cl)),
      call_root = given (root cl), call_cmd = cmd, call_files = fs, call_form = form\<rparr>"

definition run ::
  "p4server \<Rightarrow> p4client \<Rightarrow> string list \<Rightarrow> string list \<Rightarrow> bool \<Rightarrow> string option \<Rightarrow>
     p4rec option \<Rightarrow> calls \<Rightarrow> (p4rec list \<times> error option) \<times> calls" where
  "run srv cl cmd fs abort c form h =
     (let h' = h @ [the_call cl cmd fs c form] in (yielded abort (loaditer (srv h')), h'))"

text \<open>\<^verbatim>\<open>runs\<close>: run a p4 command, discarding any output (except errors).\<close>

definition runs ::
  "p4server \<Rightarrow> p4client \<Rightarrow> string list \<Rightarrow> string list \<Rightarrow> bool \<Rightarrow> string option \<Rightarrow>
     calls \<Rightarrow> error option \<times> calls" where
  "runs srv cl cmd fs abort c h =
     (case run srv cl cmd fs abort c None h of ((ds, e), h') \<Rightarrow> (e, h'))"

text \<open>
  \<^verbatim>\<open>runone\<close>: run a p4 command and return the object returned.  A second
  dictionary raises as soon as it is yielded.  The messages name the command string.
\<close>

definition runone ::
  "p4server \<Rightarrow> p4client \<Rightarrow> string list \<Rightarrow> bool \<Rightarrow> p4rec option \<Rightarrow> calls \<Rightarrow>
     (error + p4rec) \<times> calls" where
  "runone srv cl cmd abort form h =
     (case run srv cl cmd [] abort None form h of
        ((d # d' # ds, e), h') \<Rightarrow>
          (Inl (Abort (''p4 '' @ join '' '' cmd @ '' returned more than one object'')), h')
      | (([d], Some e), h') \<Rightarrow> (Inl e, h')
      | (([d], None), h') \<Rightarrow> (Inr d, h')
      | (([], Some e), h') \<Rightarrow> (Inl e, h')
      | (([], None), h') \<Rightarrow>
          (Inl (Abort (''p4 '' @ join '' '' cmd @ '' returned no objects'')), h'))"

subsection \<open>Initializing a p4client from the remote path\<close>

text \<open>\<^verbatim>\<open>s.split(c, 1)\<close>: the part before the first \<^verbatim>\<open>c\<close> and, if there is one, the part after it.\<close>

definition split1 :: "char \<Rightarrow> string \<Rightarrow> string \<times> string option" where
  "split1 c s =
     (takeWhile (\<lambda>x. x \<noteq> c) s,
      case dropWhile (\<lambda>x. x \<noteq> c) s of [] \<Rightarrow> None | x # rest \<Rightarrow> Some rest)"

text \<open>\<^verbatim>\<open>s.split(c)\<close>\<close>

fun split :: "char \<Rightarrow> string \<Rightarrow> string list" where
  "split c [] = [[]]"
| "split c (x # xs) =
     (if x = c then [] # split c xs
      else (case split c xs of [] \<Rightarrow> [[x]] | y # ys \<Rightarrow> (x # y) # ys))"

text \<open>
  \<^verbatim>\<open>os.path.join(a, b)\<close> and \<^verbatim>\<open>util.pconvert\<close> follow the POSIX conventions,
  where \<^verbatim>\<open>pconvert\<close> changes nothing.
\<close>

definition path_join :: "string \<Rightarrow> string \<Rightarrow> string" where
  "path_join a b =
     (if startswith b ''/'' then b
      else if a = [] \<or> last a = CHR ''/'' then a @ b
      else a @ ''/'' @ b)"

text \<open>
  The loop over \<^verbatim>\<open>['Root'] + ['AltRoots%d' % i for i in range(9)]\<close>: the first
  of these keys whose value is a directory.
\<close>

definition root_keys :: "string list" where
  "root_keys = [''Root'', ''AltRoots0'', ''AltRoots1'', ''AltRoots2'', ''AltRoots3'',
     ''AltRoots4'', ''AltRoots5'', ''AltRoots6'', ''AltRoots7'', ''AltRoots8'']"

fun find_root :: "ui \<Rightarrow> p4rec \<Rightarrow> string list \<Rightarrow> string option" where
  "find_root u d [] = None"
| "find_root u d (n # ns) =
     (case getstr d n of
        Some dir \<Rightarrow> if isdir u dir then Some dir else find_root u d ns
      | None \<Rightarrow> find_root u d ns)"

text \<open>The object before the client specification is read.\<close>

definition new_client :: "string \<Rightarrow> p4client" where
  "new_client s =
     \<lparr>server = Some s, client = None, root = None, partial = None, rootpart = None,
      clientspec = [], usercache = Map.empty, p4stat = None, p4pending = []\<rparr>"

text \<open>
  \<^verbatim>\<open>__init__\<close>.  The assignment \<^verbatim>\<open>s, c = path[5:].split('/', 1)\<close> raises a
  value error when the path has no \<^verbatim>\<open>/\<close> after the scheme.  With an empty client
  name no specification is read.
\<close>

definition p4client_init ::
  "ui \<Rightarrow> p4server \<Rightarrow> string \<Rightarrow> calls \<Rightarrow> (error + p4client) \<times> calls" where
  "p4client_init u srv path h =
     (if \<not> startswith path ''p4:'' then (Inl (P4NotClient (path @ '' not a p4 repository'')), h)
      else if \<not> startswith path ''p4://'' then
        (Inl (P4BadClient (path @ '' not a p4 repository'')), h)
      else
        (case split1 CHR ''/'' (drop 5 path) of
           (s0, None) \<Rightarrow> (Inl ValueError, h)
         | (s0, Some c0) \<Rightarrow>
             (let s = (if CHR '':'' \<in> set s0 then s0 else s0 @ '':1666'');
                  cl = new_client s
              in if c0 = [] then (Inr cl, h)
                 else
                   (let c = fst (split1 CHR ''/'' c0);
                        p = (case snd (split1 CHR ''/'' c0) of
                               None \<Rightarrow> []
                             | Some p0 \<Rightarrow>
                                 (let p1 = join ''/'' (filter (\<lambda>q. q \<noteq> []) (split CHR ''/'' p0))
                                  in if p1 \<noteq> [] then p1 @ ''/'' else p1))
                    in (case runone srv cl [''client'', ''-o'', shellquote u c] False None h of
                          (Inl e, h') \<Rightarrow> (Inl e, h')
                        | (Inr d, h') \<Rightarrow>
                            if map_of d ''code'' = Some (S ''error'') then
                              (case map_of d ''data'' of
                                 Some (S data) \<Rightarrow>
                                   (Inl (P4BadClient (path @ '' is not a valid p4 client: ''
                                      @ strip data)), h')
                               | Some (I n) \<Rightarrow> (Inl AttributeError, h')
                               | None \<Rightarrow> (Inl KeyError, h'))
                            else
                              (case find_root u d root_keys of
                                 None \<Rightarrow>
                                   (Inl (P4BadClient ''the p4 client root must exist\<newline>''), h')
                               | Some rt \<Rightarrow>
                                   if rt = [] then
                                     (Inl (P4BadClient ''the p4 client root must exist\<newline>''), h')
                                   else
                                     (let rp0 = (if p \<noteq> []
                                                 then path_join rt
                                                   (if lowercasepaths u then normcase u p else p)
                                                 else rt);
                                          rp = (if rp0 \<noteq> [] \<and> last rp0 = CHR ''/''
                                                then rp0 else rp0 @ ''/'')
                                      in (Inr (cl\<lparr>root :=
                                                   Some (if last rt = CHR ''/'' then butlast rt
                                                         else rt),
                                                 clientspec := d, client := Some c,
                                                 partial := Some p, rootpart := Some rp\<rparr>),
                                          h'))))))))"

subsection \<open>getuser: full name and email address of a user\<close>

text \<open>\<^verbatim>\<open>'%d' % n\<close> and \<^verbatim>\<open>'%s' % v\<close> for a marshalled value.\<close>

fun str_nat :: "nat \<Rightarrow> string" where
  "str_nat n =
     (if n < 10 then [''0123456789'' ! n] else str_nat (n div 10) @ [''0123456789'' ! (n mod 10)])"

declare str_nat.simps [simp del]

definition str_int :: "int \<Rightarrow> string" where
  "str_int i = (if i < 0 then ''-'' @ str_nat (nat (- i)) else str_nat (nat i))"

definition str_val :: "p4val \<Rightarrow> string" where
  "str_val v = (case v of S s \<Rightarrow> s | I i \<Rightarrow> str_int i)"

text \<open>
  \<^verbatim>\<open>self.usercache.get((user,None)) or self.usercache.get((user,client))\<close>,
  followed by the test \<^verbatim>\<open>if r\<close>: the first of the two entries that is not empty.
\<close>

definition cached :: "p4client \<Rightarrow> string \<Rightarrow> string option \<Rightarrow> string option" where
  "cached cl user c =
     (case usercache cl (user, None) of
        Some r \<Rightarrow> if r \<noteq> [] then Some r
                  else (case usercache cl (user, c) of
                          Some r' \<Rightarrow> if r' \<noteq> [] then Some r' else None
                        | None \<Rightarrow> None)
      | None \<Rightarrow> (case usercache cl (user, c) of
                   Some r' \<Rightarrow> if r' \<noteq> [] then Some r' else None
                 | None \<Rightarrow> None))"

text \<open>
  The last branch of \<^verbatim>\<open>getuser\<close>: \<^verbatim>\<open>d = self.runone('user -o ...', abort=False)\<close>
  and the test \<^verbatim>\<open>if 'Update' in d\<close>.
\<close>

definition server_user ::
  "ui \<Rightarrow> p4server \<Rightarrow> p4client \<Rightarrow> string \<Rightarrow> calls \<Rightarrow> (error + string) \<times> p4client \<times> calls" where
  "server_user u srv cl user h =
     (case runone srv cl [''user'', ''-o'', shellquote u user] False None h of
        (Inl e, h') \<Rightarrow> (Inl e, cl, h')
      | (Inr d, h') \<Rightarrow>
          (case (map_of d ''Update'', map_of d ''FullName'', map_of d ''Email'') of
             (Some upd, Some full, Some email) \<Rightarrow>
               (Inr (str_val full @ '' <'' @ str_val email @ ''>''),
                cl\<lparr>usercache := (usercache cl)((user, None) \<mapsto>
                     str_val full @ '' <'' @ str_val email @ ''>'')\<rparr>, h')
           | _ \<Rightarrow> (Inr user, cl, h')))"

text \<open>
  \<^verbatim>\<open>getuser(user, client)\<close>.  The value of \<^verbatim>\<open>clientuser\<close> selects one of three
  branches: with a space it is a search pattern and a replacement for the client name,
  without a space it names a script, and when it is not set the server is asked with
  \<^verbatim>\<open>user -o\<close>.  \<^verbatim>\<open>re.subn\<close> and \<^verbatim>\<open>util.shellquote\<close> raise when the client
  name is \<^verbatim>\<open>None\<close>, \<^verbatim>\<open>os.chdir\<close> raises when the client has no root.  A key
  error for \<^verbatim>\<open>FullName\<close> or \<^verbatim>\<open>Email\<close> is caught.
\<close>

definition getuser ::
  "ui \<Rightarrow> p4server \<Rightarrow> p4client \<Rightarrow> string \<Rightarrow> string option \<Rightarrow> calls \<Rightarrow>
     (error + string) \<times> p4client \<times> calls" where
  "getuser u srv cl user c h =
     (case cached cl user c of
        Some r \<Rightarrow> (Inr r, cl, h)
      | None \<Rightarrow>
          (case clientuser u of
             Some cu \<Rightarrow>
               if cu \<noteq> [] \<and> CHR '' '' \<in> set cu then
                 (case c of
                    None \<Rightarrow> (Inl TypeError, cl, h)
                  | Some cn \<Rightarrow>
                      (case re_subn u (fst (split1 CHR '' '' cu))
                              (case snd (split1 CHR '' '' cu) of Some cur \<Rightarrow> cur | None \<Rightarrow> [])
                              cn of
                         (v, f) \<Rightarrow>
                           if f \<noteq> 0 then
                             (Inr (capwords u v),
                              cl\<lparr>usercache := (usercache cl)((user, c) \<mapsto> capwords u v)\<rparr>, h)
                           else (Inr user, cl, h)))
               else if cu \<noteq> [] then
                 (case c of
                    None \<Rightarrow> (Inl AttributeError, cl, h)
                  | Some cn \<Rightarrow>
                      (case root cl of
                         None \<Rightarrow> (Inl TypeError, cl, h)
                       | Some rt \<Rightarrow>
                           (case script u cu cn user of
                              Some r \<Rightarrow>
                                if r \<noteq> [] then
                                  (Inr r, cl\<lparr>usercache := (usercache cl)((user, c) \<mapsto> r)\<rparr>, h)
                                else (Inr user, cl, h)
                            | None \<Rightarrow> (Inr user, cl, h))))
               else server_user u srv cl user h
           | None \<Rightarrow> server_user u srv cl user h))"

text \<open>
  The order of the specification, for comparison with \<^verbatim>\<open>getuser\<close>: the first result
  that is not empty of the lookup on the server, the configured regular expression, the
  script, and the user name itself.
\<close>

definition lookup_result :: "ui \<Rightarrow> p4server \<Rightarrow> p4client \<Rightarrow> string \<Rightarrow> calls \<Rightarrow> string" where
  "lookup_result u srv cl user h =
     (case runone srv cl [''user'', ''-o'', shellquote u user] False None h of
        (Inl e, h') \<Rightarrow> []
      | (Inr d, h') \<Rightarrow>
          (case (map_of d ''Update'', map_of d ''FullName'', map_of d ''Email'') of
             (Some upd, Some full, Some email) \<Rightarrow> str_val full @ '' <'' @ str_val email @ ''>''
           | _ \<Rightarrow> []))"

definition regex_result :: "ui \<Rightarrow> string \<Rightarrow> string" where
  "regex_result u cn =
     (case clientuser u of
        None \<Rightarrow> []
      | Some cu \<Rightarrow>
          if CHR '' '' \<in> set cu then
            (case re_subn u (fst (split1 CHR '' '' cu))
                    (case snd (split1 CHR '' '' cu) of Some cur \<Rightarrow> cur | None \<Rightarrow> []) cn of
               (v, f) \<Rightarrow> if f \<noteq> 0 then capwords u v else [])
          else [])"

definition script_result :: "ui \<Rightarrow> string \<Rightarrow> string \<Rightarrow> string" where
  "script_result u cn user =
     (case clientuser u of
        None \<Rightarrow> []
      | Some cu \<Rightarrow>
          if cu \<noteq> [] \<and> CHR '' '' \<notin> set cu
          then (case script u cu cn user of Some r \<Rightarrow> r | None \<Rightarrow> [])
          else [])"

definition first_nonempty_user ::
  "ui \<Rightarrow> p4server \<Rightarrow> p4client \<Rightarrow> string \<Rightarrow> string \<Rightarrow> calls \<Rightarrow> string" where
  "first_nonempty_user u srv cl user cn h =
     hd (filter (\<lambda>r. r \<noteq> [])
           [lookup_result u srv cl user h, regex_result u cn, script_result u cn user] @ [user])"

subsection \<open>describe: a changelist with its files and jobs\<close>

text \<open>
  \<^verbatim>\<open>int(v)\<close> for a marshalled value: white space around, an optional sign and
  decimal digits; \<open>None\<close> where the source raises a value error.
\<close>

definition is_digit :: "char \<Rightarrow> bool" where
  "is_digit c = (c \<in> set ''0123456789'')"

definition digits_nat :: "string \<Rightarrow> nat" where
  "digits_nat ds = foldl (\<lambda>a c. 10 * a + (of_char c - 48)) 0 ds"

definition py_int :: "p4val \<Rightarrow> int option" where
  "py_int v =
     (case v of
        I i \<Rightarrow> Some i
      | S s \<Rightarrow>
          (case strip s of
             [] \<Rightarrow> None
           | c # cs \<Rightarrow>
               (let ds = (if c = CHR ''-'' \<or> c = CHR ''+'' then cs else c # cs)
                in if ds \<noteq> [] \<and> list_all is_digit ds
                   then Some (if c = CHR ''-'' then - int (digits_nat ds) else int (digits_nat ds))
                   else None)))"

text \<open>The dictionary \<^verbatim>\<open>actions\<close>.\<close>

definition actions :: "string \<rightharpoonup> string" where
  "actions = map_of
     [(''add'', ''A''), (''branch'', ''A''), (''move/add'', ''A''),
      (''edit'', ''M''), (''integrate'', ''M''), (''import'', ''A''),
      (''delete'', ''R''), (''move/delete'', ''R''), (''purge'', ''R'')]"

text \<open>The changelist description object.\<close>

record description =
  d_change :: p4val
  d_desc :: string
  d_user :: string
  d_date :: int
  d_status :: string
  d_client :: string
  d_files :: "(string \<times> int \<times> string \<times> string) list"
  d_jobs :: "(string \<times> string) list"

text \<open>
  The loops \<^verbatim>\<open>while True\<close> of \<^verbatim>\<open>describe\<close> count \<open>i\<close> up until the key
  \<^verbatim>\<open>depotFile%d\<close> (or \<^verbatim>\<open>job%d\<close>) is missing.  The keys are distinct, so this
  happens after as many rounds as the dictionary has entries at the latest; \<open>rounds\<close>
  is the number of rounds.
\<close>

definition rounds :: "p4rec \<Rightarrow> string \<Rightarrow> nat" where
  "rounds d key =
     length (takeWhile (\<lambda>i. map_of d (key @ str_nat i) \<noteq> None) [0..<Suc (length d)])"

text \<open>
  One round for a file: the item \<^verbatim>\<open>(df, int(rv), tp, self.actions[ac])\<close>.
  A missing key, a revision that is no number and an action that \<^verbatim>\<open>actions\<close> does
  not know raise.
\<close>

definition file_item :: "p4rec \<Rightarrow> nat \<Rightarrow> error + string \<times> int \<times> string \<times> string" where
  "file_item d i =
     (case (getstr d (''depotFile'' @ str_nat i), map_of d (''rev'' @ str_nat i),
            getstr d (''type'' @ str_nat i), getstr d (''action'' @ str_nat i)) of
        (Some df, Some rv, Some tp, Some ac) \<Rightarrow>
          (case py_int rv of
             None \<Rightarrow> Inl ValueError
           | Some n \<Rightarrow>
               (case actions ac of None \<Rightarrow> Inl KeyError | Some a \<Rightarrow> Inr (df, n, tp, a)))
      | _ \<Rightarrow> Inl KeyError)"

definition job_item :: "p4rec \<Rightarrow> nat \<Rightarrow> error + string \<times> string" where
  "job_item d i =
     (case (getstr d (''job'' @ str_nat i), getstr d (''jobstat'' @ str_nat i)) of
        (Some jn, Some js) \<Rightarrow> Inr (jn, js)
      | _ \<Rightarrow> Inl KeyError)"

text \<open>The items of all rounds, up to the first one that raises.\<close>

fun collect :: "(nat \<Rightarrow> error + 'a) \<Rightarrow> nat list \<Rightarrow> error + 'a list" where
  "collect f [] = Inr []"
| "collect f (i # is) =
     (case f i of
        Inl e \<Rightarrow> Inl e
      | Inr x \<Rightarrow> (case collect f is of Inl e \<Rightarrow> Inl e | Inr xs \<Rightarrow> Inr (x # xs)))"

text \<open>
  \<^verbatim>\<open>describe(change)\<close>, as all callers but \<^verbatim>\<open>incoming\<close> and \<^verbatim>\<open>pending\<close>
  call it: \<^verbatim>\<open>local\<close> is not set.  The text is not recoded (neither
  \<^verbatim>\<open>P4CHARSET\<close> nor \<^verbatim>\<open>perfarce.encoding\<close> is set).  The values of the keys used
  as strings are strings.
\<close>

definition describe ::
  "ui \<Rightarrow> p4server \<Rightarrow> p4client \<Rightarrow> string \<Rightarrow> calls \<Rightarrow> (error + description) \<times> p4client \<times> calls" where
  "describe u srv cl change h =
     (case runone srv cl [''describe'', ''-s'', change] True None h of
        (Inl e, h1) \<Rightarrow> (Inl e, cl, h1)
      | (Inr d, h1) \<Rightarrow>
          (case (getstr d ''client'', getstr d ''status'', map_of d ''change'',
                 getstr d ''desc'', getstr d ''user'') of
             (Some c, Some st, Some chg, Some ds, Some usr) \<Rightarrow>
               (case getuser u srv cl usr (Some c) h1 of
                  (Inl e, cl2, h2) \<Rightarrow> (Inl e, cl2, h2)
                | (Inr name, cl2, h2) \<Rightarrow>
                    (case map_of d ''time'' of
                       None \<Rightarrow> (Inl KeyError, cl2, h2)
                     | Some t \<Rightarrow>
                         (case py_int t of
                            None \<Rightarrow> (Inl ValueError, cl2, h2)
                          | Some tm \<Rightarrow>
                              (case collect (file_item d) [0..<rounds d ''depotFile''] of
                                 Inl e \<Rightarrow> (Inl e, cl2, h2)
                               | Inr fs \<Rightarrow>
                                   (case collect (job_item d) [0..<rounds d ''job''] of
                                      Inl e \<Rightarrow> (Inl e, cl2, h2)
                                    | Inr js \<Rightarrow>
                                        (Inr \<lparr>d_change = chg, d_desc = ds, d_user = name,
                                              d_date = tm, d_status = st, d_client = c,
                                              d_files = fs, d_jobs = js\<rparr>, cl2, h2))))))
           | _ \<Rightarrow> (Inl KeyError, cl, h1)))"

subsection \<open>The cache of pending and submitted changelists\<close>

text \<open>
  An entry of \<^verbatim>\<open>p4pending\<close>: the changelist number, whether it is submitted, the
  nodes that its description refers to, the description and the client.

  \<^verbatim>\<open>helper\<close> of \<^verbatim>\<open>_readp4stat\<close> handles one dictionary of a \<^verbatim>\<open>changes\<close>
  command.  It returns at once for the changelist \<^verbatim>\<open>p4id\<close>.
\<close>

definition helper :: "repo \<Rightarrow> p4client \<Rightarrow> p4rec \<Rightarrow> int \<Rightarrow> error + p4client" where
  "helper r cl d p4id =
     (case map_of d ''change'' of
        None \<Rightarrow> Inl KeyError
      | Some v \<Rightarrow>
          (case py_int v of
             None \<Rightarrow> Inl ValueError
           | Some c \<Rightarrow>
               if c = p4id then Inr cl
               else
                 (case (getstr d ''desc'', map_of d ''status'', getstr d ''client'') of
                    (Some desc, Some st, Some cn) \<Rightarrow>
                      (let nodes = fst (parsenodes r desc)
                       in Inr (cl\<lparr>p4pending :=
                                    p4pending cl @ [(c, st = S ''submitted'', nodes, desc, cn)],
                                  p4stat := Some (fold List.insert nodes
                                    (case p4stat cl of Some s \<Rightarrow> s | None \<Rightarrow> []))\<rparr>))
                  | _ \<Rightarrow> Inl KeyError)))"

text \<open>\<^verbatim>\<open>for d in self.run(...): helper(self,d,p4id)\<close>, over the dictionaries yielded.\<close>

fun helpers :: "repo \<Rightarrow> p4client \<Rightarrow> p4rec list \<Rightarrow> int \<Rightarrow> error option \<times> p4client" where
  "helpers r cl [] p4id = (None, cl)"
| "helpers r cl (d # ds) p4id =
     (case helper r cl d p4id of
        Inl e \<Rightarrow> (Some e, cl)
      | Inr cl' \<Rightarrow> helpers r cl' ds p4id)"

text \<open>
  \<^verbatim>\<open>'%s' % v\<close> for a field that may be \<^verbatim>\<open>None\<close>.
\<close>

definition str_opt :: "string option \<Rightarrow> string" where
  "str_opt v = (case v of None \<Rightarrow> ''None'' | Some s \<Rightarrow> s)"

text \<open>
  \<^verbatim>\<open>_readp4stat\<close>: read pending and submitted changelists into the pending cache.
  An exception leaves the cache as it is at that moment.  \<^verbatim>\<open>util.shellquote\<close>
  raises for a client that is \<^verbatim>\<open>None\<close>.
\<close>

definition readp4stat ::
  "ui \<Rightarrow> p4server \<Rightarrow> repo \<Rightarrow> p4client \<Rightarrow> calls \<Rightarrow> error option \<times> p4client \<times> calls" where
  "readp4stat u srv r cl0 h =
     (let cl = cl0\<lparr>p4stat := Some [], p4pending := []\<rparr>
      in case find_p4 r None False None False of
           Inl e \<Rightarrow> (Some e, cl, h)
         | Inr (p4rev, p4id) \<Rightarrow>
             (case client cl of
                None \<Rightarrow> (Some AttributeError, cl, h)
              | Some cn \<Rightarrow>
                  (case run srv cl
                          [''changes'', ''-l'', ''-c'', shellquote u cn,
                           shellquote u
                             (str_opt (partial cl) @ ''...@'' @ str_int p4id @ '',#head'')]
                          [] True None None h of
                     ((ds1, e1), h1) \<Rightarrow>
                       (case helpers r cl ds1 p4id of
                          (Some e, cl1) \<Rightarrow> (Some e, cl1, h1)
                        | (None, cl1) \<Rightarrow>
                            (case e1 of
                               Some e \<Rightarrow> (Some e, cl1, h1)
                             | None \<Rightarrow>
                                 (case run srv cl1
                                         [''changes'', ''-l'', ''-c'', shellquote u cn, ''-s'',
                                          ''pending'']
                                         [] True None None h1 of
                                    ((ds2, e2), h2) \<Rightarrow>
                                      (case helpers r cl1 ds2 p4id of
                                         (Some e, cl2) \<Rightarrow> (Some e, cl2, h2)
                                       | (None, cl2) \<Rightarrow>
                                           (case e2 of
                                              Some e \<Rightarrow> (Some e, cl2, h2)
                                            | None \<Rightarrow>
                                                (None, cl2\<lparr>p4pending := sort (p4pending cl2)\<rparr>,
                                                 h2)))))))))"

text \<open>
  \<^verbatim>\<open>getpending(node)\<close>: true if the node is pending in p4 or has been submitted to
  p4.  \<^verbatim>\<open>getpendinglist()\<close>: the p4 submission state.  Both read the cache first
  when \<^verbatim>\<open>p4stat\<close> is \<^verbatim>\<open>None\<close>.
\<close>

definition getpending ::
  "ui \<Rightarrow> p4server \<Rightarrow> repo \<Rightarrow> p4client \<Rightarrow> string \<Rightarrow> calls \<Rightarrow> (error + bool) \<times> p4client \<times> calls" where
  "getpending u srv r cl n h =
     (case p4stat cl of
        Some s \<Rightarrow> (Inr (n \<in> set s), cl, h)
      | None \<Rightarrow>
          (case readp4stat u srv r cl h of
             (Some e, cl', h') \<Rightarrow> (Inl e, cl', h')
           | (None, cl', h') \<Rightarrow>
               (Inr (n \<in> set (case p4stat cl' of Some s \<Rightarrow> s | None \<Rightarrow> [])), cl', h')))"

definition getpendinglist ::
  "ui \<Rightarrow> p4server \<Rightarrow> repo \<Rightarrow> p4client \<Rightarrow> calls \<Rightarrow>
     (error + (int \<times> bool \<times> string list \<times> string \<times> string) list) \<times> p4client \<times> calls" where
  "getpendinglist u srv r cl h =
     (case p4stat cl of
        Some s \<Rightarrow> (Inr (p4pending cl), cl, h)
      | None \<Rightarrow>
          (case readp4stat u srv r cl h of
             (Some e, cl', h') \<Rightarrow> (Inl e, cl', h')
           | (None, cl', h') \<Rightarrow> (Inr (p4pending cl'), cl', h')))"

text \<open>
  The number \<^verbatim>\<open>int(d['change'])\<close> of a dictionary, and the entry
  \<^verbatim>\<open>(c, d['status'] == 'submitted', nodes, desc, d['client'])\<close> that
  \<^verbatim>\<open>helper\<close> makes of a dictionary that has these keys.
\<close>

definition change_of :: "p4rec \<Rightarrow> int option" where
  "change_of d = (case map_of d ''change'' of None \<Rightarrow> None | Some v \<Rightarrow> py_int v)"

definition str_of :: "p4rec \<Rightarrow> string \<Rightarrow> string" where
  "str_of d k = (case getstr d k of Some s \<Rightarrow> s | None \<Rightarrow> [])"

definition entry :: "repo \<Rightarrow> p4rec \<Rightarrow> int \<times> bool \<times> string list \<times> string \<times> string" where
  "entry r d =
     (case change_of d of Some c \<Rightarrow> c | None \<Rightarrow> 0,
      map_of d ''status'' = Some (S ''submitted''),
      fst (parsenodes r (str_of d ''desc'')), str_of d ''desc'', str_of d ''client'')"

subsection \<open>Shared code for pull and incoming, push and outgoing\<close>

text \<open>
  The options of a command, as far as the source reads them: \<^verbatim>\<open>--mq\<close>,
  \<^verbatim>\<open>--force\<close>, the changelist numbers given to \<^verbatim>\<open>pull --rev\<close>, the number given
  to \<^verbatim>\<open>clone --startrev\<close> (0 when there is none), the pair of nodes that
  \<^verbatim>\<open>revpair\<close> makes of \<^verbatim>\<open>push --rev\<close>, \<^verbatim>\<open>--submit\<close>, \<^verbatim>\<open>--job\<close> and
  \<^verbatim>\<open>--update\<close>.
\<close>

record opts =
  mq :: bool
  force :: bool
  pull_rev :: "int list"
  startrev :: int
  push_rev :: "(string \<times> string option) option"
  submit :: bool
  job :: "string list"
  update :: bool

text \<open>
  The shared functions return a pair whose first component tells that the command is
  done: with the result of the original command of Mercurial, or, for
  \<^verbatim>\<open>pushcommon\<close>, with a return code.
\<close>

datatype 'a common = Original | Done int | Proceed 'a

text \<open>
  The construction of the client in \<^verbatim>\<open>pullcommon\<close> and \<^verbatim>\<open>pushcommon\<close>:
  \<^verbatim>\<open>p4notclient\<close> gives way to the original command, \<^verbatim>\<open>p4badclient\<close> is raised
  again as \<^verbatim>\<open>util.Abort\<close> with the same message.
\<close>

definition common_client ::
  "ui \<Rightarrow> p4server \<Rightarrow> string \<Rightarrow> calls \<Rightarrow> (error + p4client common) \<times> calls" where
  "common_client u srv path h =
     (case p4client_init u srv path h of
        (Inl (P4NotClient m), h') \<Rightarrow> (Inr Original, h')
      | (Inl (P4BadClient m), h') \<Rightarrow> (Inl (Abort m), h')
      | (Inl e, h') \<Rightarrow> (Inl e, h')
      | (Inr cl, h') \<Rightarrow> (Inr (Proceed cl), h'))"

text \<open>
  What \<^verbatim>\<open>pullcommon\<close> returns to \<^verbatim>\<open>pull\<close>: the client, the revision and the
  changelist number found, the start revision and the changelists to pull.
\<close>

record pullinfo =
  pl_client :: p4client
  pl_p4rev :: "string option"
  pl_p4id :: int
  pl_startrev :: int
  pl_changes :: "int list"

text \<open>
  The loop of \<^verbatim>\<open>pullcommon\<close> over the dictionaries of \<^verbatim>\<open>changes\<close>:
  \<^verbatim>\<open>c = int(d['change'])\<close> and \<^verbatim>\<open>if startrev or c != p4id: changes.append(c)\<close>.
\<close>

fun pull_changes :: "int \<Rightarrow> int \<Rightarrow> p4rec list \<Rightarrow> error + int list" where
  "pull_changes sr p4id [] = Inr []"
| "pull_changes sr p4id (d # ds) =
     (case map_of d ''change'' of
        None \<Rightarrow> Inl KeyError
      | Some v \<Rightarrow>
          (case py_int v of
             None \<Rightarrow> Inl ValueError
           | Some c \<Rightarrow>
               (case pull_changes sr p4id ds of
                  Inl e \<Rightarrow> Inl e
                | Inr cs \<Rightarrow> Inr (if sr \<noteq> 0 \<or> c \<noteq> p4id then c # cs else cs))))"

text \<open>
  \<^verbatim>\<open>pullcommon\<close>, for the source path that \<^verbatim>\<open>ui.expandpath\<close> returns.
  \<^verbatim>\<open>stoprev\<close> is the greatest of the numbers given with \<^verbatim>\<open>--rev\<close>, or 0.
\<close>

definition pullcommon ::
  "ui \<Rightarrow> p4server \<Rightarrow> repo \<Rightarrow> opts \<Rightarrow> string \<Rightarrow> calls \<Rightarrow> (error + pullinfo common) \<times> calls" where
  "pullcommon u srv r ops source h =
     (if mq ops then (Inr Original, h)
      else
        (case common_client u srv source h of
           (Inl e, h1) \<Rightarrow> (Inl e, h1)
         | (Inr Original, h1) \<Rightarrow> (Inr Original, h1)
         | (Inr (Done n), h1) \<Rightarrow> (Inr (Done n), h1)
         | (Inr (Proceed cl), h1) \<Rightarrow>
             (let stoprev = (if pull_rev ops = [] then 0 else Max (set (pull_rev ops)))
              in case (if changelog r \<noteq> []
                       then (case find_p4 r None True None (\<not> force ops) of
                               Inl e \<Rightarrow> Inl e
                             | Inr (n, i) \<Rightarrow> Inr (Some n, i))
                       else Inr (None, 0)) of
                   Inl e \<Rightarrow> (Inl e, h1)
                 | Inr (p4rev, p4id0) \<Rightarrow>
                     (let p4id = max p4id0 (startrev ops);
                          p4cset = shellquote u
                            (str_opt (partial cl) @ ''...@'' @ str_int p4id @
                             (if stoprev \<noteq> 0 then '',@'' @ str_int stoprev else '',#head''));
                          cmd = (if startrev ops < 0
                                 then [''changes'', ''-s'', ''submitted'', ''-m'',
                                       str_int (- startrev ops), ''-L'', p4cset]
                                 else [''changes'', ''-s'', ''submitted'', ''-L'', p4cset])
                      in case run srv cl cmd [] True None None h1 of
                           ((ds, e), h2) \<Rightarrow>
                             (case pull_changes (startrev ops) p4id ds of
                                Inl e' \<Rightarrow> (Inl e', h2)
                              | Inr cs \<Rightarrow>
                                  (case e of
                                     Some e' \<Rightarrow> (Inl e', h2)
                                   | None \<Rightarrow>
                                       (Inr (Proceed \<lparr>pl_client = cl, pl_p4rev = p4rev,
                                               pl_p4id = p4id, pl_startrev = startrev ops,
                                               pl_changes = sort cs\<rparr>), h2)))))))"

subsection \<open>pushcommon: the changesets and the files to push\<close>

text \<open>
  The queries of Mercurial that compare two changesets, given by their nodes:
  \<^verbatim>\<open>repo.status(node1, node2)[:3]\<close>, \<^verbatim>\<open>copies.pathcopies(ctx1, ctx2)\<close>, and the
  manifest of a changeset.
\<close>

record hgdiff =
  status :: "string \<Rightarrow> string \<Rightarrow> string list \<times> string list \<times> string list"
  pathcopies :: "string \<Rightarrow> string \<Rightarrow> (string \<times> string) list"
  manifest :: "string \<Rightarrow> manifest"

text \<open>
  \<^verbatim>\<open>repo['tip']\<close>, and \<^verbatim>\<open>repo[n].parents()[0]\<close>, which is the null revision for a
  changeset without parents.
\<close>

definition tip :: "repo \<Rightarrow> string" where
  "tip r = (if changelog r = [] then nullid else node (last (changelog r)))"

definition first_parent :: "repo \<Rightarrow> string \<Rightarrow> error + string" where
  "first_parent r n =
     (case repo_node r n of
        None \<Rightarrow> Inl LookupError
      | Some c \<Rightarrow> Inr (case parents c of [] \<Rightarrow> nullid | p # ps \<Rightarrow> p))"

text \<open>The two ends \<^verbatim>\<open>ctx1\<close> and \<^verbatim>\<open>ctx2\<close> of the range, as nodes.\<close>

definition push_range :: "repo \<Rightarrow> opts \<Rightarrow> string \<Rightarrow> error + string \<times> string" where
  "push_range r ops p4rev =
     (case push_rev ops of
        None \<Rightarrow> Inr (p4rev, tip r)
      | Some (n1, Some n2) \<Rightarrow>
          (case first_parent r n1 of Inl e \<Rightarrow> Inl e | Inr p \<Rightarrow> Inr (p, n2))
      | Some (n1, None) \<Rightarrow>
          (case first_parent r n1 of Inl e \<Rightarrow> Inl e | Inr p \<Rightarrow> Inr (p, n1)))"

text \<open>
  \<^verbatim>\<open>while nodes: ... if client.getpending(n): del nodes[end] ... else: break\<close> for
  \<^verbatim>\<open>end = 0\<close>.  The result holds the nodes left and whether one was trimmed off.
\<close>

fun trim_pending ::
  "ui \<Rightarrow> p4server \<Rightarrow> repo \<Rightarrow> p4client \<Rightarrow> string list \<Rightarrow> calls \<Rightarrow>
     (error + string list \<times> bool) \<times> p4client \<times> calls" where
  "trim_pending u srv r cl [] h = (Inr ([], False), cl, h)"
| "trim_pending u srv r cl (n # ns) h =
     (case getpending u srv r cl n h of
        (Inl e, cl', h') \<Rightarrow> (Inl e, cl', h')
      | (Inr False, cl', h') \<Rightarrow> (Inr (n # ns, False), cl', h')
      | (Inr True, cl', h') \<Rightarrow>
          (case trim_pending u srv r cl' ns h' of
             (Inl e, cl2, h2) \<Rightarrow> (Inl e, cl2, h2)
           | (Inr (ns', t), cl2, h2) \<Rightarrow> (Inr (ns', True), cl2, h2)))"

text \<open>
  \<^verbatim>\<open>for end in [0, -1]\<close>: trim off nodes at either end that have already been
  pushed.  For the end \<^verbatim>\<open>-1\<close> the list is taken in reverse.
\<close>

definition trim_pushed ::
  "ui \<Rightarrow> p4server \<Rightarrow> repo \<Rightarrow> p4client \<Rightarrow> string list \<Rightarrow> calls \<Rightarrow>
     (error + string list \<times> bool) \<times> p4client \<times> calls" where
  "trim_pushed u srv r cl nodes h =
     (case trim_pending u srv r cl nodes h of
        (Inl e, cl1, h1) \<Rightarrow> (Inl e, cl1, h1)
      | (Inr (ns1, t1), cl1, h1) \<Rightarrow>
          (case trim_pending u srv r cl1 (rev ns1) h1 of
             (Inl e, cl2, h2) \<Rightarrow> (Inl e, cl2, h2)
           | (Inr (ns2, t2), cl2, h2) \<Rightarrow> (Inr (rev ns2, t1 \<or> t2), cl2, h2)))"

text \<open>
  \<^verbatim>\<open>n.children()\<close> for a node, and the test of the inner loop: a child with the key
  \<^verbatim>\<open>p4\<close> in its extra data.
\<close>

definition children_of :: "repo \<Rightarrow> string \<Rightarrow> changeset list" where
  "children_of r n = filter (\<lambda>d. n \<in> set (parents d)) (changelog r)"

definition child_in_p4 :: "repo \<Rightarrow> string \<Rightarrow> bool" where
  "child_in_p4 r n = (\<exists>c\<in>set (children_of r n). extra_p4 c \<noteq> None)"

text \<open>\<^verbatim>\<open>'%s' % n\<close> for a changeset: the short form of its node.\<close>

definition short :: "string \<Rightarrow> string" where
  "short n = hex (take 6 n)"

text \<open>
  \<^verbatim>\<open>for n in nodes\<close>: check that remaining nodes have not already been pushed.
\<close>

fun check_pushed ::
  "ui \<Rightarrow> p4server \<Rightarrow> repo \<Rightarrow> p4client \<Rightarrow> string list \<Rightarrow> calls \<Rightarrow>
     error option \<times> p4client \<times> calls" where
  "check_pushed u srv r cl [] h = (None, cl, h)"
| "check_pushed u srv r cl (n # ns) h =
     (case getpending u srv r cl n h of
        (Inl e, cl', h') \<Rightarrow> (Some e, cl', h')
      | (Inr pending, cl', h') \<Rightarrow>
          if pending \<or> child_in_p4 r n
          then (Some (Abort (''can not push, changeset '' @ short n @ '' is already in p4'')),
                cl', h')
          else check_pushed u srv r cl' ns h')"

text \<open>
  The part of \<^verbatim>\<open>pushcommon\<close> under \<^verbatim>\<open>if not opts['force']\<close>.  It leaves the
  nodes and the ends of the range, which are calculated again when a node was trimmed
  off and nodes remain.
\<close>

definition not_pushed ::
  "ui \<Rightarrow> p4server \<Rightarrow> repo \<Rightarrow> p4client \<Rightarrow> string list \<Rightarrow> string \<Rightarrow> string \<Rightarrow> calls \<Rightarrow>
     (error + string list \<times> string \<times> string) \<times> p4client \<times> calls" where
  "not_pushed u srv r cl nodes ctx1 ctx2 h =
     (case trim_pushed u srv r cl nodes h of
        (Inl e, cl1, h1) \<Rightarrow> (Inl e, cl1, h1)
      | (Inr (ns, t), cl1, h1) \<Rightarrow>
          (case (if t \<and> ns \<noteq> []
                 then (case first_parent r (hd ns) of
                         Inl e \<Rightarrow> Inl e
                       | Inr p \<Rightarrow> Inr (p, last ns))
                 else Inr (ctx1, ctx2)) of
             Inl e \<Rightarrow> (Inl e, cl1, h1)
           | Inr (c1, c2) \<Rightarrow>
               (case check_pushed u srv r cl1 ns h1 of
                  (Some e, cl2, h2) \<Rightarrow> (Inl e, cl2, h2)
                | (None, cl2, h2) \<Rightarrow> (Inr (ns, c1, c2), cl2, h2))))"

text \<open>
  Find changed files: the three lists with the flags of the files, the copies with
  their marks, and the lists without the \<^verbatim>\<open>.hg\<close> files.
\<close>

definition no_hg :: "fentry list \<Rightarrow> fentry list" where
  "no_hg changes = filter (\<lambda>f. \<not> startswith (fst f) ''.hg'') changes"

definition changed_files ::
  "hgdiff \<Rightarrow> string list \<Rightarrow> string \<Rightarrow> string \<Rightarrow>
     error + fentry list \<times> fentry list \<times> fentry list \<times> (string \<times> string \<times> bool) list" where
  "changed_files dq nodes ctx1 ctx2 =
     (if nodes = [] then Inr ([], [], [], [])
      else
        (case status dq ctx1 ctx2 of
           (m, a, rm) \<Rightarrow>
             (case mark_copies (manifest dq ctx1) (manifest dq ctx2) (pathcopies dq ctx1 ctx2) of
                Inl e \<Rightarrow> Inl e
              | Inr cpy \<Rightarrow>
                  Inr (no_hg (map (\<lambda>f. (f, ctx_flags (manifest dq ctx2) f)) m),
                       no_hg (map (\<lambda>f. (f, ctx_flags (manifest dq ctx2) f)) a),
                       no_hg (map (\<lambda>f. (f, [])) rm), cpy))))"

text \<open>
  Detect MQ: \<^verbatim>\<open>repo.changelog.nodesbetween([repo['qbase'].node()], nodes)[0]\<close>; the
  lookup error for \<^verbatim>\<open>qbase\<close> is passed over.
\<close>

definition mq_applied :: "repo \<Rightarrow> string list \<Rightarrow> bool" where
  "mq_applied r nodes = (case qbase r of None \<Rightarrow> False | Some q \<Rightarrow> nodesbetween r [q] nodes \<noteq> [])"

text \<open>What \<^verbatim>\<open>pushcommon\<close> returns to \<^verbatim>\<open>push\<close> and \<^verbatim>\<open>outgoing\<close>.\<close>

record pushinfo =
  ps_client :: p4client
  ps_p4rev :: string
  ps_p4id :: int
  ps_nodes :: "string list"
  ps_ctx :: string
  ps_desc :: string
  ps_mod :: "fentry list"
  ps_add :: "fentry list"
  ps_rem :: "fentry list"
  ps_cpy :: "(string \<times> string \<times> bool) list"

text \<open>
  \<^verbatim>\<open>pushcommon(out, ...)\<close>, for the destination path that \<^verbatim>\<open>ui.expandpath\<close>
  returns.
\<close>

definition pushcommon ::
  "bool \<Rightarrow> ui \<Rightarrow> p4server \<Rightarrow> repo \<Rightarrow> hgdiff \<Rightarrow> opts \<Rightarrow> string \<Rightarrow> calls \<Rightarrow>
     (error + pushinfo common) \<times> calls" where
  "pushcommon out u srv r dq ops dest h =
     (if mq ops then (Inr Original, h)
      else
        (case common_client u srv dest h of
           (Inl e, h1) \<Rightarrow> (Inl e, h1)
         | (Inr Original, h1) \<Rightarrow> (Inr Original, h1)
         | (Inr (Done n), h1) \<Rightarrow> (Inr (Done n), h1)
         | (Inr (Proceed cl), h1) \<Rightarrow>
             (case find_p4 r None True None (\<not> force ops) of
                Inl e \<Rightarrow> (Inl e, h1)
              | Inr (p4rev, p4id) \<Rightarrow>
                  (case push_range r ops p4rev of
                     Inl e \<Rightarrow> (Inl e, h1)
                   | Inr (ctx1, ctx2) \<Rightarrow>
                       (case (if force ops
                              then (Inr (drop (if p4id \<noteq> 0 then 1 else 0)
                                           (nodesbetween r [ctx1] [ctx2]), ctx1, ctx2), cl, h1)
                              else not_pushed u srv r cl
                                     (drop (if p4id \<noteq> 0 then 1 else 0)
                                        (nodesbetween r [ctx1] [ctx2])) ctx1 ctx2 h1) of
                          (Inl e, cl2, h2) \<Rightarrow> (Inl e, h2)
                        | (Inr (nodes, c1, c2), cl2, h2) \<Rightarrow>
                            (case changed_files dq nodes c1 c2 of
                               Inl e \<Rightarrow> (Inl e, h2)
                             | Inr (md, ad, rm, cpy) \<Rightarrow>
                                 if md = [] \<and> ad = [] \<and> rm = []
                                 then (Inr (Done (if out then 1 else 0)), h2)
                                 else if mq_applied r nodes \<and> \<not> force ops
                                 then (Inl (Abort ''source has mq patches applied''), h2)
                                 else
                                   (Inr (Proceed
                                      \<lparr>ps_client = cl2, ps_p4rev = p4rev, ps_p4id = p4id,
                                       ps_nodes = nodes, ps_ctx = c2,
                                       ps_desc = create_description
                                         (map (\<lambda>n. case repo_node r n of
                                                      Some c \<Rightarrow> description c | None \<Rightarrow> [])
                                            nodes) nodes,
                                       ps_mod = md, ps_add = ad, ps_rem = rm, ps_cpy = cpy\<rparr>),
                                    h2)))))))"

subsection \<open>Commands that change the depot\<close>

text \<open>
  \<^verbatim>\<open>hasmovecopy\<close>: detect whether p4 move and p4 copy are supported, unless the
  configuration says so.
\<close>

definition has_op ::
  "p4server \<Rightarrow> p4client \<Rightarrow> bool option \<Rightarrow> string \<Rightarrow> calls \<Rightarrow> (error + bool) \<times> calls" where
  "has_op srv cl v op h =
     (case v of
        Some b \<Rightarrow> (Inr b, h)
      | None \<Rightarrow>
          (case runone srv cl [''help'', op] False None h of
             (Inl e, h') \<Rightarrow> (Inl e, h')
           | (Inr d, h') \<Rightarrow>
               (case map_of d ''code'' of
                  None \<Rightarrow> (Inl KeyError, h')
                | Some code \<Rightarrow> (Inr (code = S ''info''), h'))))"

definition hasmovecopy ::
  "ui \<Rightarrow> p4server \<Rightarrow> p4client \<Rightarrow> calls \<Rightarrow> (error + bool \<times> bool) \<times> calls" where
  "hasmovecopy u srv cl h =
     (case has_op srv cl (cfg_move u) ''move'' h of
        (Inl e, h1) \<Rightarrow> (Inl e, h1)
      | (Inr mv, h1) \<Rightarrow>
          (case has_op srv cl (cfg_copy u) ''copy'' h1 of
             (Inl e, h2) \<Rightarrow> (Inl e, h2)
           | (Inr cp, h2) \<Rightarrow> (Inr (mv, cp), h2)))"

text \<open>\<^verbatim>\<open>d[k] = v\<close> for a dictionary.\<close>

fun dict_set :: "string \<Rightarrow> p4val \<Rightarrow> p4rec \<Rightarrow> p4rec" where
  "dict_set k v [] = [(k, v)]"
| "dict_set k v ((k', v') # d) = (if k = k' then (k, v) # d else (k', v') # dict_set k v d)"

text \<open>\<^verbatim>\<open>for i,j in enumerate(jobs): changelist['Jobs%d'%i] = j\<close>\<close>

fun set_jobs :: "nat \<Rightarrow> string list \<Rightarrow> p4rec \<Rightarrow> p4rec" where
  "set_jobs i [] d = d"
| "set_jobs i (j # js) d = set_jobs (Suc i) js (dict_set (''Jobs'' @ str_nat i) (S j) d)"

text \<open>
  \<^verbatim>\<open>re_changeno.match(data)\<close> for \<^verbatim>\<open>'Change ([0-9]+) created.+'\<close>: group 1.
\<close>

definition changeno :: "string \<Rightarrow> string option" where
  "changeno data =
     (case literal ''Change '' data of
        None \<Rightarrow> None
      | Some rest \<Rightarrow>
          if takeWhile is_digit rest = [] then None
          else (case literal '' created'' (dropWhile is_digit rest) of
                  Some (c # cs) \<Rightarrow>
                    if c = CHR ''\<newline>'' then None else Some (takeWhile is_digit rest)
                | _ \<Rightarrow> None))"

text \<open>
  \<^verbatim>\<open>change(change, description, update, jobs)\<close>, with a description: create a new
  p4 changelist or update an existing changelist with the given description.  It
  returns the changelist number as a string and invalidates the cache.  The number of
  a new changelist is not empty, since group 1 of \<^verbatim>\<open>re_changeno\<close> has a digit.
  \<^verbatim>\<open>chg\<close> is empty where \<^verbatim>\<open>change\<close> is empty, \<^verbatim>\<open>None\<close> or 0.
\<close>

definition change ::
  "ui \<Rightarrow> p4server \<Rightarrow> p4client \<Rightarrow> string \<Rightarrow> string \<Rightarrow> bool \<Rightarrow> string list \<Rightarrow> calls \<Rightarrow>
     (error + string) \<times> p4client \<times> calls" where
  "change u srv cl chg desc upd jobs h =
     (case runone srv cl [''change'', ''-o'', chg] True None h of
        (Inl e, h1) \<Rightarrow> (Inl e, cl, h1)
      | (Inr changelist, h1) \<Rightarrow>
          (case runone srv cl
                  ([''change'', ''-i''] @ (if upd then [''-u''] else []) @
                   [''<'' @ shellquote u (tempname u)]) True
                  (Some (dict_set ''Description'' (S desc) (set_jobs 0 jobs changelist))) h1 of
             (Inl e, h2) \<Rightarrow> (Inl e, cl, h2)
           | (Inr d, h2) \<Rightarrow>
               (case (map_of d ''data'', map_of d ''code'') of
                  (Some data, Some code) \<Rightarrow>
                    if code = S ''info'' then
                      (if chg = [] then
                         (case data of
                            I i \<Rightarrow> (Inl TypeError, cl, h2)
                          | S s \<Rightarrow>
                              (case changeno s of
                                 None \<Rightarrow>
                                   (Inl (Abort ''did not get changelist number from p4''), cl, h2)
                               | Some n \<Rightarrow> (Inr n, cl\<lparr>p4stat := None\<rparr>, h2)))
                       else (Inr chg, cl\<lparr>p4stat := None\<rparr>, h2))
                    else (Inl (Abort (''error creating p4 change: '' @ str_val data)), cl, h2)
                | _ \<Rightarrow> (Inl KeyError, cl, h2))))"

text \<open>
  The loop of \<^verbatim>\<open>sync\<close> over the dictionaries: an error is noted when it is
  generic 17 or of severity 2, and raised otherwise.
\<close>

fun sync_replies :: "p4rec list \<Rightarrow> error option" where
  "sync_replies [] = None"
| "sync_replies (d # ds) =
     (if map_of d ''code'' = Some (S ''error'') then
        (case map_of d ''data'' of
           None \<Rightarrow> Some KeyError
         | Some (I i) \<Rightarrow> Some AttributeError
         | Some (S data) \<Rightarrow>
             (case map_of d ''generic'' of
                None \<Rightarrow> Some KeyError
              | Some g \<Rightarrow>
                  if g = I 17 then sync_replies ds
                  else (case map_of d ''severity'' of
                          None \<Rightarrow> Some KeyError
                        | Some sv \<Rightarrow>
                            if sv = I 2 then sync_replies ds
                            else Some (Abort (''p4: '' @ strip data)))))
      else sync_replies ds)"

text \<open>
  \<^verbatim>\<open>sync(change, fake, force, files)\<close>: synchronize the client with the depot at
  the given change.  \<^verbatim>\<open>os.path.join\<close> raises when \<^verbatim>\<open>partial\<close> is \<^verbatim>\<open>None\<close>.
\<close>

definition sync ::
  "ui \<Rightarrow> p4server \<Rightarrow> p4client \<Rightarrow> int \<Rightarrow> bool \<Rightarrow> bool \<Rightarrow> string list \<Rightarrow> calls \<Rightarrow>
     error option \<times> calls" where
  "sync u srv cl chg fake frc fs h =
     (if fs \<noteq> [] \<and> partial cl = None then (Some AttributeError, h)
      else
        (case run srv cl
                ([''sync''] @ (if fake then [''-k''] else if frc then [''-f''] else []) @
                 (if fs = [] then [shellquote u (str_opt (partial cl) @ ''...@'' @ str_int chg)]
                  else []))
                (map (\<lambda>f. path_join (str_opt (partial cl)) f @ ''@'' @ str_int chg) fs)
                False None None h of
           ((ds, e), h') \<Rightarrow>
             (case sync_replies ds of
                Some e' \<Rightarrow> (Some e', h')
              | None \<Rightarrow>
                  (case e of
                     Some e' \<Rightarrow> (Some e', h')
                   | None \<Rightarrow>
                       if fs \<noteq> [] \<and> length ds < length fs
                       then (Some (Abort ''incomplete reply from p4, reduce maxargs''), h')
                       else (None, h')))))"

text \<open>
  The loop of \<^verbatim>\<open>submit\<close> over the dictionaries yielded.  A dictionary with the
  code \<^verbatim>\<open>error\<close> that \<^verbatim>\<open>run\<close> has yielded has no data.
\<close>

fun submit_replies :: "string \<Rightarrow> p4rec list \<Rightarrow> error option" where
  "submit_replies chg [] = None"
| "submit_replies chg (d # ds) =
     (case map_of d ''code'' of
        None \<Rightarrow> Some KeyError
      | Some code \<Rightarrow>
          if code = S ''error'' then
            (case map_of d ''data'' of
               None \<Rightarrow> Some KeyError
             | Some v \<Rightarrow>
                 Some (Abort (''error submitting p4 change '' @ chg @ '': '' @ str_val v)))
          else submit_replies chg ds)"

text \<open>
  \<^verbatim>\<open>submit(change)\<close>: submit one changelist to p4 and optionally delete the files
  added or modified in the p4 workarea.
\<close>

definition p4submit ::
  "ui \<Rightarrow> p4server \<Rightarrow> p4client \<Rightarrow> string \<Rightarrow> calls \<Rightarrow> error option \<times> p4client \<times> calls" where
  "p4submit u srv cl chg h =
     (case run srv cl [''submit'', ''-c'', chg] [] True None None h of
        ((ds, e), h1) \<Rightarrow>
          (case submit_replies chg ds of
             Some e' \<Rightarrow> (Some e', cl, h1)
           | None \<Rightarrow>
               (case e of
                  Some e' \<Rightarrow> (Some e', cl, h1)
                | None \<Rightarrow>
                    if keep u then (None, cl\<lparr>p4stat := None\<rparr>, h1)
                    else (case sync u srv cl 0 False False [] h1 of
                            (Some e', h2) \<Rightarrow> (Some e', cl, h2)
                          | (None, h2) \<Rightarrow> (None, cl\<lparr>p4stat := None\<rparr>, h2)))))"

subsection \<open>push: creating the p4 changelist\<close>

text \<open>\<^verbatim>\<open>encodename\<close>: escape the characters \<^verbatim>\<open>@ # % *\<close> in a p4 filename.\<close>

definition encodename :: "string \<Rightarrow> string" where
  "encodename name =
     concat (map (\<lambda>c. if c = CHR ''%'' then ''%25'' else if c = CHR ''@'' then ''%40''
                        else if c = CHR ''#'' then ''%23'' else if c = CHR ''*'' then ''%2A''
                        else [c]) name)"

text \<open>
  \<^verbatim>\<open>re_hgid.sub("{{}}", d)\<close>: every match is replaced, from left to right.  The
  first argument counts the characters of the current match that are still to be
  passed over.
\<close>

fun hgid_sub :: "nat \<Rightarrow> string \<Rightarrow> string" where
  "hgid_sub k [] = []"
| "hgid_sub (Suc k) (c # cs) = hgid_sub k cs"
| "hgid_sub 0 (c # cs) =
     (case re_hgid_at (c # cs) of
        Some (g2, g4, rest) \<Rightarrow> ''{{}}'' @ hgid_sub (length cs - length rest) cs
      | None \<Rightarrow> c # hgid_sub 0 cs)"

definition noid :: "string \<Rightarrow> string" where
  "noid d = hgid_sub 0 d"

text \<open>
  Attempt to reuse an existing changelist: the loop over the pending changelists of
  the client, which leaves in \<^verbatim>\<open>use\<close> the number of the last one whose description
  is the new one but for the node ids.
\<close>

fun reuse :: "string \<Rightarrow> string \<Rightarrow> p4rec list \<Rightarrow> error + string" where
  "reuse noiddesc use [] = Inr use"
| "reuse noiddesc use (d # ds) =
     (case getstr d ''desc'' of
        None \<Rightarrow> Inl KeyError
      | Some desc \<Rightarrow>
          if noid desc = noiddesc
          then (case getstr d ''change'' of
                  None \<Rightarrow> Inl KeyError
                | Some c \<Rightarrow> reuse noiddesc c ds)
          else reuse noiddesc use ds)"

text \<open>
  The local function \<^verbatim>\<open>rev(files, change, abort)\<close> of \<^verbatim>\<open>push\<close>, for the names
  of the files.
\<close>

definition rev_files ::
  "p4server \<Rightarrow> p4client \<Rightarrow> string list \<Rightarrow> string \<Rightarrow> bool \<Rightarrow> calls \<Rightarrow> error option \<times> calls" where
  "rev_files srv cl fs chg abort h =
     (if fs = [] then (None, h)
      else (case partial cl of
              None \<Rightarrow> (Some AttributeError, h)
            | Some p \<Rightarrow>
                runs srv cl [''revert'', if chg \<noteq> [] then ''-c '' @ chg else []]
                  (map (path_join p) fs) abort None h))"

text \<open>
  \<^verbatim>\<open>modal(note, cmd, files, encoder)\<close>: run command grouped by file mode.  Python
  leaves the order open in which a set is visited; the modes are visited in the order of
  \<open>remdups\<close> here.  The dictionaries of one command
  give the files to retype, or raise; \<open>CHR 0x27\<close> is the single quote of
  \<^verbatim>\<open>"- use 'reopen'"\<close>.
\<close>

definition mode_opt :: "string \<Rightarrow> string list" where
  "mode_opt mode =
     (let opt = (if CHR ''l'' \<in> set mode then ''symlink'' else []) @
                (if CHR ''x'' \<in> set mode then ''+x'' else [])
      in if opt \<noteq> [] then [''-t'', opt] else [])"

text \<open>\<^verbatim>\<open>sub in s\<close> for strings.\<close>

fun contains :: "string \<Rightarrow> string \<Rightarrow> bool" where
  "contains sub [] = (sub = [])"
| "contains sub (c # cs) = (startswith (c # cs) sub \<or> contains sub cs)"

fun modal_replies ::
  "ui \<Rightarrow> string \<Rightarrow> p4rec list \<Rightarrow> error + (string \<times> string) list" where
  "modal_replies u mode [] = Inr []"
| "modal_replies u mode (d # ds) =
     (case map_of d ''code'' of
        None \<Rightarrow> Inl KeyError
      | Some code \<Rightarrow>
          (case (if code = S ''stat'' then
                   (case getstr d ''type'' of
                      None \<Rightarrow> Inl KeyError
                    | Some tp \<Rightarrow>
                        if mode = [] \<and> snd (decodetype u tp) = ''x''
                        then (case getstr d ''depotFile'' of
                                None \<Rightarrow> Inl KeyError
                              | Some df \<Rightarrow> Inr [(df, fst (decodetype u tp))])
                        else Inr [])
                 else if code = S ''info'' then
                   (case getstr d ''data'' of
                      None \<Rightarrow> Inl KeyError
                    | Some data \<Rightarrow>
                        if contains (''- use '' @ [CHR 0x27] @ ''reopen'' @ [CHR 0x27]) data
                        then Inl (Abort (''p4: '' @ data)) else Inr [])
                 else Inr []) of
             Inl e \<Rightarrow> Inl e
           | Inr rt \<Rightarrow>
               (case modal_replies u mode ds of
                  Inl e \<Rightarrow> Inl e
                | Inr rts \<Rightarrow> Inr (rt @ rts))))"

text \<open>The first loop of \<^verbatim>\<open>modal\<close>, over the modes.\<close>

fun modal_modes ::
  "ui \<Rightarrow> p4server \<Rightarrow> p4client \<Rightarrow> string list \<Rightarrow> fentry list \<Rightarrow> (string \<Rightarrow> string) \<Rightarrow>
     string list \<Rightarrow> calls \<Rightarrow> (error + (string \<times> string) list) \<times> calls" where
  "modal_modes u srv cl cmd fs encoder [] h = (Inr [], h)"
| "modal_modes u srv cl cmd fs encoder (mode # modes) h =
     (case partial cl of
        None \<Rightarrow> (Inl AttributeError, h)
      | Some p \<Rightarrow>
          (case run srv cl (cmd @ mode_opt mode)
                  (map (\<lambda>f. path_join p (encoder (fst f))) (filter (\<lambda>f. snd f = mode) fs))
                  True None None h of
             ((ds, e), h1) \<Rightarrow>
               (case modal_replies u mode ds of
                  Inl e' \<Rightarrow> (Inl e', h1)
                | Inr rt \<Rightarrow>
                    (case e of
                       Some e' \<Rightarrow> (Inl e', h1)
                     | None \<Rightarrow>
                         (case modal_modes u srv cl cmd fs encoder modes h1 of
                            (Inl e', h2) \<Rightarrow> (Inl e', h2)
                          | (Inr rts, h2) \<Rightarrow> (Inr (rt @ rts), h2))))))"

text \<open>The second loop of \<^verbatim>\<open>modal\<close>: \<^verbatim>\<open>reopen -t\<close> for the files to retype.\<close>

fun reopen ::
  "p4server \<Rightarrow> p4client \<Rightarrow> (string \<times> string) list \<Rightarrow> string list \<Rightarrow> calls \<Rightarrow>
     error option \<times> calls" where
  "reopen srv cl retype [] h = (None, h)"
| "reopen srv cl retype (mode # modes) h =
     (case runs srv cl [''reopen'', ''-t'', mode]
             (map fst (filter (\<lambda>f. snd f = mode) retype)) True None h of
        (Some e, h') \<Rightarrow> (Some e, h')
      | (None, h') \<Rightarrow> reopen srv cl retype modes h')"

definition modal ::
  "ui \<Rightarrow> p4server \<Rightarrow> p4client \<Rightarrow> string list \<Rightarrow> fentry list \<Rightarrow> (string \<Rightarrow> string) \<Rightarrow>
     calls \<Rightarrow> error option \<times> calls" where
  "modal u srv cl cmd fs encoder h =
     (case modal_modes u srv cl cmd fs encoder (remdups (map snd fs)) h of
        (Inl e, h1) \<Rightarrow> (Some e, h1)
      | (Inr retype, h1) \<Rightarrow> reopen srv cl retype (remdups (map snd retype)) h1)"

subsection \<open>revert: reverting pending changelists and all opened files\<close>

text \<open>Steps that may raise, run one after the other up to the first that raises.\<close>

fun steps :: "(calls \<Rightarrow> error option \<times> calls) list \<Rightarrow> calls \<Rightarrow> error option \<times> calls" where
  "steps [] h = (None, h)"
| "steps (f # fs) h = (case f h of (Some e, h') \<Rightarrow> (Some e, h') | (None, h') \<Rightarrow> steps fs h')"

text \<open>
  \<^verbatim>\<open>subrevcommon\<close>, for changelist numbers given as arguments: the client is made
  from the path of the repository when that is a p4 path, and from the path of
  \<^verbatim>\<open>default-push\<close> otherwise.
\<close>

fun ints :: "string list \<Rightarrow> int list option" where
  "ints [] = Some []"
| "ints (c # cs) =
     (case py_int (S c) of
        None \<Rightarrow> None
      | Some i \<Rightarrow> (case ints cs of None \<Rightarrow> None | Some is \<Rightarrow> Some (i # is)))"

definition subrevcommon ::
  "ui \<Rightarrow> p4server \<Rightarrow> string list \<Rightarrow> calls \<Rightarrow> (error + p4client \<times> int list) \<times> calls" where
  "subrevcommon u srv changes h =
     (case p4client_init u srv
             (if startswith (repo_path u) ''p4://'' then repo_path u else default_push u) h of
        (Inl e, h') \<Rightarrow> (Inl e, h')
      | (Inr cl, h') \<Rightarrow>
          (case ints changes of
             None \<Rightarrow> (Inl (Abort ''changelist must be a number''), h')
           | Some cs \<Rightarrow> (Inr (cl, cs), h')))"

text \<open>
  The body of the loop of \<^verbatim>\<open>revert\<close> for one changelist.  Whatever
  \<^verbatim>\<open>describe\<close> raises is caught with a warning, and nothing is done for the
  changelist then.  The three commands run with \<^verbatim>\<open>abort=False\<close>.
\<close>

definition revert_change ::
  "ui \<Rightarrow> p4server \<Rightarrow> p4client \<Rightarrow> int \<Rightarrow> calls \<Rightarrow> error option \<times> p4client \<times> calls" where
  "revert_change u srv cl c h =
     (case describe u srv cl (str_int c) h of
        (Inl e, cl1, h1) \<Rightarrow> (None, cl1, h1)
      | (Inr d, cl1, h1) \<Rightarrow>
          (case steps
                  ((if d_files d \<noteq> []
                    then [runs srv cl1 [''revert''] (map fst (d_files d)) False (Some (d_client d))]
                    else []) @
                   (if d_jobs d \<noteq> []
                    then [runs srv cl1 [''fix'', ''-d'', ''-c'', str_int c] (map fst (d_jobs d))
                            False (Some (d_client d))]
                    else []) @
                   [runs srv cl1 [''change'', ''-d'', str_int c] [] False (Some (d_client d))])
                  h1 of
             (e, h2) \<Rightarrow> (e, cl1, h2)))"

fun revert_changes ::
  "ui \<Rightarrow> p4server \<Rightarrow> p4client \<Rightarrow> int list \<Rightarrow> calls \<Rightarrow> error option \<times> calls" where
  "revert_changes u srv cl [] h = (None, h)"
| "revert_changes u srv cl (c # cs) h =
     (case revert_change u srv cl c h of
        (Some e, cl', h') \<Rightarrow> (Some e, h')
      | (None, cl', h') \<Rightarrow> revert_changes u srv cl' cs h')"

definition revert :: "ui \<Rightarrow> p4server \<Rightarrow> string list \<Rightarrow> calls \<Rightarrow> error option \<times> calls" where
  "revert u srv changes h =
     (case subrevcommon u srv changes h of
        (Inl e, h1) \<Rightarrow> (Some e, h1)
      | (Inr (cl, cs), h1) \<Rightarrow> revert_changes u srv cl cs h1)"

subsection \<open>push: the commands of the changelist\<close>

text \<open>
  A command of the \<^verbatim>\<open>try\<close> block that names files under \<^verbatim>\<open>client.rootpart\<close>;
  the concatenation raises when \<^verbatim>\<open>rootpart\<close> is \<^verbatim>\<open>None\<close>.
\<close>

definition under_root ::
  "p4server \<Rightarrow> p4client \<Rightarrow> (string \<Rightarrow> string list) \<Rightarrow> calls \<Rightarrow> error option \<times> calls" where
  "under_root srv cl cmd h =
     (case rootpart cl of
        None \<Rightarrow> (Some TypeError, h)
      | Some rp \<Rightarrow> runs srv cl (cmd rp) [] True None h)"

text \<open>
  Writing the contents of one file into the workspace: the data of the file in the
  pushed changeset, which raises when the changeset has no such file, and the write
  itself.
\<close>

definition write_file ::
  "ui \<Rightarrow> hgdiff \<Rightarrow> p4client \<Rightarrow> string \<Rightarrow> fentry \<Rightarrow> calls \<Rightarrow> error option \<times> calls" where
  "write_file u dq cl ctx f h =
     (case rootpart cl of
        None \<Rightarrow> (Some AttributeError, h)
      | Some rp \<Rightarrow>
          (case ctx_data (manifest dq ctx) (fst f) of
             Inl e \<Rightarrow> (Some e, h)
           | Inr data \<Rightarrow> if write_fails u (fst f) then (Some IOError, h) else (None, h)))"

text \<open>
  The \<^verbatim>\<open>try\<close> block of \<^verbatim>\<open>push\<close>: now add/edit/delete the files, in the order
  copy, move, integrate, edit, write, add, delete, submit.
\<close>

definition push_files ::
  "ui \<Rightarrow> p4server \<Rightarrow> hgdiff \<Rightarrow> opts \<Rightarrow> p4client \<Rightarrow> string \<Rightarrow> string \<Rightarrow> fentry list \<Rightarrow>
     sorting \<Rightarrow> fentry list \<Rightarrow> calls \<Rightarrow> error option \<times> calls" where
  "push_files u srv dq ops cl use ctx md st rm h =
     steps
       (map (\<lambda>f. under_root srv cl (\<lambda>rp. [''copy'', ''-c'', use, rp @ fst f, rp @ snd f]))
          (copies st) @
        (if moves st \<noteq> []
         then [modal u srv cl [''edit'', ''-c'', use]
                 (map (\<lambda>f. (fst f, snd (snd f))) (moves st)) encodename] @
              map (\<lambda>f. under_root srv cl
                     (\<lambda>rp. [''move'', ''-c'', use, rp @ encodename (fst f),
                             rp @ encodename (fst (snd f))]))
                (moves st)
         else []) @
        map (\<lambda>f. under_root srv cl (\<lambda>rp. [''integrate'', ''-c'', use, ''-t'', rp @ fst f, snd f]))
          (ntg st) @
        (if md \<noteq> [] \<or> mod2 st \<noteq> []
         then [modal u srv cl [''edit'', ''-c'', use] (md @ mod2 st) encodename] else []) @
        map (write_file u dq cl ctx) (md @ add2 st @ mod2 st) @
        (if add2 st \<noteq> []
         then [modal u srv cl [''add'', ''-f'', ''-c'', use] (add2 st) (\<lambda>n. n)] else []) @
        (if rm \<noteq> []
         then [modal u srv cl [''delete'', ''-c'', use] rm encodename] else []) @
        (if submit ops \<or> cfg_submit u
         then [\<lambda>h. case p4submit u srv cl use h of (e, cl', h') \<Rightarrow> (e, h')] else []))
       h"

text \<open>
  \<^verbatim>\<open>try: ... except Exception: revert(ui, repo, use, **opts); raise\<close>.  An
  exception of \<^verbatim>\<open>revert\<close> takes the place of the one caught.
\<close>

definition push_try ::
  "ui \<Rightarrow> p4server \<Rightarrow> hgdiff \<Rightarrow> opts \<Rightarrow> p4client \<Rightarrow> string \<Rightarrow> string \<Rightarrow> fentry list \<Rightarrow>
     sorting \<Rightarrow> fentry list \<Rightarrow> calls \<Rightarrow> error option \<times> calls" where
  "push_try u srv dq ops cl use ctx md st rm h =
     (case push_files u srv dq ops cl use ctx md st rm h of
        (None, h1) \<Rightarrow> (None, h1)
      | (Some e, h1) \<Rightarrow>
          (case revert u srv [use] h1 of
             (Some e', h2) \<Rightarrow> (Some e', h2)
           | (None, h2) \<Rightarrow> (Some e, h2)))"

text \<open>
  Sync to the last revision pulled, converted or submitted: the changelist number of
  the last submitted entry of the pending list, and the \<^verbatim>\<open>sync\<close> commands.
\<close>

definition last_submitted ::
  "(int \<times> bool \<times> string list \<times> string \<times> string) list \<Rightarrow> int \<Rightarrow> int" where
  "last_submitted pl p4id = fold (\<lambda>e i. if fst (snd e) then fst e else i) pl p4id"

definition push_sync ::
  "ui \<Rightarrow> p4server \<Rightarrow> p4client \<Rightarrow> int \<Rightarrow> fentry list \<Rightarrow> calls \<Rightarrow> error option \<times> calls" where
  "push_sync u srv cl p4id md h =
     (if keep u then sync u srv cl p4id False False [] h
      else (case sync u srv cl p4id True False [] h of
              (Some e, h') \<Rightarrow> (Some e, h')
            | (None, h') \<Rightarrow> sync u srv cl p4id False True (map (\<lambda>f. encodename (fst f)) md) h'))"

text \<open>
  Revert any other changes in the existing changelist, and any other changes to the
  files.
\<close>

definition push_revert ::
  "ui \<Rightarrow> p4server \<Rightarrow> p4client \<Rightarrow> string \<Rightarrow> fentry list \<Rightarrow> calls \<Rightarrow>
     error option \<times> p4client \<times> calls" where
  "push_revert u srv cl use fs h =
     (case (if use \<noteq> []
            then (case describe u srv cl use h of
                    (Inl e, cl1, h1) \<Rightarrow> (Some e, cl1, h1)
                  | (Inr d, cl1, h1) \<Rightarrow>
                      (case rev_files srv cl1 (map fst (d_files d)) use True h1 of
                         (e, h2) \<Rightarrow> (e, cl1, h2)))
            else (None, cl, h)) of
        (Some e, cl2, h2) \<Rightarrow> (Some e, cl2, h2)
      | (None, cl2, h2) \<Rightarrow>
          (case rev_files srv cl2 (map fst fs) [] False h2 of (e, h3) \<Rightarrow> (e, cl2, h3)))"

text \<open>
  \<^verbatim>\<open>push\<close>, after \<^verbatim>\<open>pushcommon\<close> has returned the changes: up to the creation
  of the changelist, then the \<^verbatim>\<open>try\<close> block.
\<close>

definition push_changes ::
  "ui \<Rightarrow> p4server \<Rightarrow> repo \<Rightarrow> hgdiff \<Rightarrow> opts \<Rightarrow> pushinfo \<Rightarrow> calls \<Rightarrow> error option \<times> calls" where
  "push_changes u srv r dq ops ps h =
     (case hasmovecopy u srv (ps_client ps) h of
        (Inl e, h1) \<Rightarrow> (Some e, h1)
      | (Inr (move, copy), h1) \<Rightarrow>
          (case getpendinglist u srv r (ps_client ps) h1 of
             (Inl e, cl2, h2) \<Rightarrow> (Some e, h2)
           | (Inr pl, cl2, h2) \<Rightarrow>
               (case push_sync u srv cl2 (last_submitted pl (ps_p4id ps)) (ps_mod ps) h2 of
                  (Some e, h3) \<Rightarrow> (Some e, h3)
                | (None, h3) \<Rightarrow>
                    (case run srv cl2
                            [''changes'', ''-s'', ''pending'', ''-c'', str_opt (client cl2), ''-l'']
                            [] True None None h3 of
                       ((ds, e), h4) \<Rightarrow>
                         (case reuse (noid (ps_desc ps)) [] ds of
                            Inl e' \<Rightarrow> (Some e', h4)
                          | Inr use \<Rightarrow>
                              (case e of
                                 Some e' \<Rightarrow> (Some e', h4)
                               | None \<Rightarrow>
                                   (case push_revert u srv cl2 use
                                           (ps_mod ps @ ps_add ps @ ps_rem ps) h4 of
                                      (Some e', cl5, h5) \<Rightarrow> (Some e', h5)
                                    | (None, cl5, h5) \<Rightarrow>
                                        (case change u srv cl5 use (ps_desc ps) False (job ops) h5 of
                                           (Inl e', cl6, h6) \<Rightarrow> (Some e', h6)
                                         | (Inr use', cl6, h6) \<Rightarrow>
                                             push_try u srv dq ops cl6 use' (ps_ctx ps) (ps_mod ps)
                                               (fst (sort_copies move copy (map_of (ps_cpy ps))
                                                       (ps_add ps) (ps_rem ps)))
                                               (snd (sort_copies move copy (map_of (ps_cpy ps))
                                                       (ps_add ps) (ps_rem ps)))
                                               h6))))))))"

text \<open>
  \<^verbatim>\<open>push\<close>: wrap the push command to look for p4 paths, create p4 changelist.
\<close>

definition push ::
  "ui \<Rightarrow> p4server \<Rightarrow> repo \<Rightarrow> hgdiff \<Rightarrow> opts \<Rightarrow> string \<Rightarrow> calls \<Rightarrow>
     (error + unit common) \<times> calls" where
  "push u srv r dq ops dest h =
     (case pushcommon False u srv r dq ops dest h of
        (Inl e, h1) \<Rightarrow> (Inl e, h1)
      | (Inr Original, h1) \<Rightarrow> (Inr Original, h1)
      | (Inr (Done n), h1) \<Rightarrow> (Inr (Done n), h1)
      | (Inr (Proceed ps), h1) \<Rightarrow>
          (case push_changes u srv r dq ops ps h1 of
             (Some e, h2) \<Rightarrow> (Inl e, h2)
           | (None, h2) \<Rightarrow> (Inr (Proceed ()), h2)))"

subsection \<open>The calls that a function adds\<close>

text \<open>
  \<open>adds ws h h'\<close>: the calls \<open>h'\<close> are the calls \<open>h\<close> followed by calls whose
  command starts with one of the words \<open>ws\<close>.
\<close>

definition adds :: "string set \<Rightarrow> calls \<Rightarrow> calls \<Rightarrow> bool" where
  "adds ws h h' = (\<exists>cs. h' = h @ cs \<and> (\<forall>c\<in>set cs. call_cmd c \<noteq> [] \<and> hd (call_cmd c) \<in> ws))"

text \<open>
  A server whose dictionaries have strings as their data, as those of p4 have.  For such
  a server \<^verbatim>\<open>run\<close> with \<^verbatim>\<open>abort=False\<close> yields every dictionary and does not
  raise.
\<close>

definition text_server :: "p4server \<Rightarrow> bool" where
  "text_server srv = (\<forall>h. \<forall>d\<in>set (srv h). \<forall>i. map_of d ''data'' \<noteq> Some (I i))"

subsection \<open>pull: importing changelists\<close>

text \<open>
  \<^verbatim>\<open>os.path.split\<close>: the part up to the last slash, without trailing slashes
  unless it consists of slashes only, and the part after the last slash.
\<close>

definition path_split :: "string \<Rightarrow> string \<times> string" where
  "path_split p =
     (let tail = rev (takeWhile (\<lambda>c. c \<noteq> CHR ''/'') (rev p));
          head = take (length p - length tail) p
      in (if head \<noteq> [] \<and> \<not> list_all (\<lambda>c. c = CHR ''/'') head
          then rev (dropWhile (\<lambda>c. c = CHR ''/'') (rev head)) else head,
          tail))"

text \<open>
  \<^verbatim>\<open>repopath\<close>: convert a p4 client path to a path relative to the hg root.
  \<^verbatim>\<open>path.startswith(self.rootpart)\<close> raises when \<^verbatim>\<open>rootpart\<close> is \<^verbatim>\<open>None\<close>.
\<close>

definition repopath :: "ui \<Rightarrow> p4client \<Rightarrow> string \<Rightarrow> error + string" where
  "repopath u cl path =
     (let p = (if lowercasepaths u
               then path_join (normcase u (fst (path_split path))) (snd (path_split path))
               else path)
      in case rootpart cl of
           None \<Rightarrow> Inl TypeError
         | Some rp \<Rightarrow>
             if startswith p rp then Inr (drop (length rp) p)
             else Inl (Abort (''invalid p4 local path '' @ p)))"

text \<open>
  An entry of \<^verbatim>\<open>fstat\<close>: (depotname, revision, type, action, localname).  The body
  of its loop passes over a dictionary with a description and over a client file whose
  name starts with \<^verbatim>\<open>.hg\<close>.
\<close>

type_synonym fstat_entry = "string \<times> int \<times> string \<times> string \<times> string"

definition fstat_item :: "ui \<Rightarrow> p4client \<Rightarrow> p4rec \<Rightarrow> error + fstat_entry option" where
  "fstat_item u cl d =
     (if map_of d ''desc'' \<noteq> None then Inr None
      else
        (case map_of d ''clientFile'' of
           None \<Rightarrow> Inl KeyError
         | Some (I i) \<Rightarrow> Inl AttributeError
         | Some (S cf) \<Rightarrow>
             if startswith cf ''.hg'' then Inr None
             else
               (case repopath u cl cf of
                  Inl e \<Rightarrow> Inl e
                | Inr lf \<Rightarrow>
                    (case (getstr d ''depotFile'', map_of d ''headRev'', getstr d ''headType'',
                           getstr d ''headAction'') of
                       (Some df, Some rv, Some tp, Some ac) \<Rightarrow>
                         (case py_int rv of
                            None \<Rightarrow> Inl ValueError
                          | Some n \<Rightarrow>
                              (case actions ac of
                                 None \<Rightarrow> Inl KeyError
                               | Some a \<Rightarrow> Inr (Some (df, n, tp, a, lf))))
                     | _ \<Rightarrow> Inl KeyError))))"

fun fstat_items :: "ui \<Rightarrow> p4client \<Rightarrow> p4rec list \<Rightarrow> error + fstat_entry list" where
  "fstat_items u cl [] = Inr []"
| "fstat_items u cl (d # ds) =
     (case fstat_item u cl d of
        Inl e \<Rightarrow> Inl e
      | Inr x \<Rightarrow>
          (case fstat_items u cl ds of
             Inl e \<Rightarrow> Inl e
           | Inr xs \<Rightarrow> Inr ((case x of None \<Rightarrow> [] | Some f \<Rightarrow> [f]) @ xs)))"

text \<open>
  \<^verbatim>\<open>fstat(change, all)\<close>: find local names for all the files belonging to a
  changelist.
\<close>

definition fstat ::
  "ui \<Rightarrow> p4server \<Rightarrow> p4client \<Rightarrow> int \<Rightarrow> bool \<Rightarrow> calls \<Rightarrow> (error + fstat_entry list) \<times> calls" where
  "fstat u srv cl chg all h =
     (case run srv cl
             (if all
              then [''fstat'', shellquote u (str_opt (partial cl) @ ''...@'' @ str_int chg)]
              else [''fstat'', ''-e'', str_int chg, shellquote u (str_opt (partial cl) @ ''...'')])
             [] True None None h of
        ((ds, e), h') \<Rightarrow>
          (case fstat_items u cl ds of
             Inl e' \<Rightarrow> (Inl e', h')
           | Inr fs \<Rightarrow> (case e of Some e' \<Rightarrow> (Inl e', h') | None \<Rightarrow> (Inr fs, h'))))"

text \<open>
  \<^verbatim>\<open>labels(change)\<close>: return p4 labels a.k.a. tags at the given changelist.  The
  labels are strings.
\<close>

definition label_of :: "p4rec \<Rightarrow> string list" where
  "label_of d = (case map_of d ''label'' of Some (S l) \<Rightarrow> if l \<noteq> [] then [l] else [] | _ \<Rightarrow> [])"

definition labels ::
  "ui \<Rightarrow> p4server \<Rightarrow> p4client \<Rightarrow> int \<Rightarrow> calls \<Rightarrow> (error + string list) \<times> calls" where
  "labels u srv cl chg h =
     (if \<not> cfg_tags u then (Inr [], h)
      else
        (case run srv cl
                [''labels'',
                 shellquote u
                   (str_opt (partial cl) @ ''...@'' @ str_int chg @ '','' @ str_int chg)]
                [] True None None h of
           ((ds, e), h') \<Rightarrow>
             (case e of
                Some e' \<Rightarrow> (Inl e', h')
              | None \<Rightarrow> (Inr (concat (map label_of ds)), h'))))"

text \<open>
  The manifest of a changeset as the list of its files with their flags and data, and
  what \<^verbatim>\<open>pull\<close> asks of Mercurial and of the file system besides the repository:
  the node id that \<^verbatim>\<open>commitctx\<close> gives the changeset of a revision number, the
  contents of a file and the target of a symbolic link of the workspace (\<open>None\<close>
  when reading raises), the substitution of the keywords that \<^verbatim>\<open>decodetype\<close> finds
  for a p4 file type, the files of the working directory of the repository, and the
  manifests of the changesets that the repository has before the pull.
\<close>

type_synonym filemap = "(string \<times> string \<times> string) list"

record hgstore =
  nodeid :: "nat \<Rightarrow> string"
  read_file :: "string \<Rightarrow> string option"
  read_link :: "string \<Rightarrow> string option"
  keywords_sub :: "string \<Rightarrow> string \<Rightarrow> string"
  workdir :: "string \<Rightarrow> (string \<times> string) option"
  manifest_of :: "string \<Rightarrow> filemap"

text \<open>\<^verbatim>\<open>print\<close>: the data of the dictionaries with the code text or binary.\<close>

fun print_data :: "p4rec list \<Rightarrow> string list option" where
  "print_data [] = Some []"
| "print_data (d # ds) =
     (case map_of d ''code'' of
        None \<Rightarrow> None
      | Some code \<Rightarrow>
          if code = S ''text'' \<or> code = S ''binary''
          then (case map_of d ''data'' of
                  Some (S data) \<Rightarrow>
                    (case print_data ds of None \<Rightarrow> None | Some xs \<Rightarrow> Some (data # xs))
                | _ \<Rightarrow> None)
          else print_data ds)"

text \<open>
  \<^verbatim>\<open>getfile(entry)\<close>: return the mode and the contents of a file in the p4 depot at
  the given revision number.  It raises \<^verbatim>\<open>IOError\<close> if the file is deleted;
  whatever else raises is turned into the error that the file is missing.
\<close>

definition getfile ::
  "ui \<Rightarrow> hgstore \<Rightarrow> p4server \<Rightarrow> p4client \<Rightarrow> fstat_entry \<Rightarrow> calls \<Rightarrow>
     (error + string \<times> string) \<times> calls" where
  "getfile u w srv cl en h =
     (case en of
        (df, rv, tp, ac, lf) \<Rightarrow>
          if ac = ''R'' then (Inl IOError, h)
          else
            (let mode = snd (decodetype u tp);
                 utf16 = (fst (decodetype u tp) = ''utf16'');
                 missing = Inl (Abort (''file '' @ lf @ '' missing in p4 workspace''))
             in if keep u then
                  (case rootpart cl of
                     None \<Rightarrow> (missing, h)
                   | Some rp \<Rightarrow>
                       (case (if mode = ''l'' then read_link w (path_join rp lf)
                              else read_file w (path_join rp lf)) of
                          None \<Rightarrow> (missing, h)
                        | Some contents \<Rightarrow> (Inr (mode, keywords_sub w tp contents), h)))
                else
                  (case run srv cl
                          ([''print''] @
                           (if utf16 then [''-o'', shellquote u (tempname u)] else []) @
                           [shellquote u df @ ''#'' @ str_int rv])
                          [] True None None h of
                     ((ds, e), h') \<Rightarrow>
                       (case (print_data ds, e) of
                          (Some parts, None) \<Rightarrow>
                            (case (if utf16 then read_file w (tempname u)
                                   else Some (concat parts)) of
                               None \<Rightarrow> (missing, h')
                             | Some contents \<Rightarrow>
                                 (Inr (mode,
                                       keywords_sub w tp
                                         (if mode = ''l'' \<and> contents \<noteq> [] \<and>
                                             last contents = CHR ''\<newline>''
                                          then butlast contents else contents)), h'))
                        | _ \<Rightarrow> (missing, h')))))"

text \<open>
  The state of \<^verbatim>\<open>pull\<close>: the repository and the manifests of its changesets, the
  client, and the variables \<^verbatim>\<open>p4rev\<close>, \<^verbatim>\<open>startrev\<close> (0 for \<^verbatim>\<open>None\<close>) and
  \<^verbatim>\<open>tags\<close>, which maps a label to a changelist number and the hex of a node.
\<close>

record pulling =
  p_repo :: repo
  p_mf :: "string \<Rightarrow> filemap"
  p_client :: p4client
  p_rev :: "string option"
  p_startrev :: int
  p_tags :: "(string \<times> int \<times> string) list"

text \<open>The manifest of \<^verbatim>\<open>repo[n]\<close>, which is empty for the null revision.\<close>

definition manifest_at :: "(string \<Rightarrow> filemap) \<Rightarrow> string option \<Rightarrow> filemap" where
  "manifest_at mf n = (case n of None \<Rightarrow> [] | Some p \<Rightarrow> if p = nullid then [] else mf p)"

text \<open>\<^verbatim>\<open>d[k] = v\<close> for a dictionary kept as a list of pairs.\<close>

fun assign :: "'k \<Rightarrow> 'v \<Rightarrow> ('k \<times> 'v) list \<Rightarrow> ('k \<times> 'v) list" where
  "assign k v [] = [(k, v)]"
| "assign k v ((k', v') # d) = (if k = k' then (k, v) # d else (k', v') # assign k v d)"

text \<open>
  The callback \<^verbatim>\<open>getfilectx\<close> of the loop, which reads the file data: a file whose
  name starts with \<^verbatim>\<open>.hg\<close> is taken from \<^verbatim>\<open>repo[parent]\<close>, which is the working
  directory when \<^verbatim>\<open>parent\<close> is \<^verbatim>\<open>None\<close>; any other file is read with
  \<^verbatim>\<open>getfile\<close>.  The result holds the flags that \<^verbatim>\<open>memfilectx\<close> makes of the mode.
\<close>

definition getfilectx ::
  "ui \<Rightarrow> hgstore \<Rightarrow> p4server \<Rightarrow> p4client \<Rightarrow> (string \<Rightarrow> filemap) \<Rightarrow> string option \<Rightarrow>
     (string \<times> fstat_entry) list \<Rightarrow> string \<Rightarrow> calls \<Rightarrow> (error + string \<times> string) \<times> calls" where
  "getfilectx u w srv cl mf parent entries fn h =
     (if startswith fn ''.hg'' then
        (case parent of
           None \<Rightarrow> (case workdir w fn of None \<Rightarrow> (Inl IOError, h) | Some fd \<Rightarrow> (Inr fd, h))
         | Some p \<Rightarrow>
             (case map_of (manifest_at mf (Some p)) fn of
                None \<Rightarrow> (Inl LookupError, h)
              | Some fd \<Rightarrow> (Inr fd, h)))
      else
        (case map_of entries fn of
           None \<Rightarrow> (Inl KeyError, h)
         | Some en \<Rightarrow>
             (case getfile u w srv cl en h of
                (Inl e, h') \<Rightarrow> (Inl e, h')
              | (Inr (mode, contents), h') \<Rightarrow>
                  (Inr ((if CHR ''l'' \<in> set mode then ''l'' else []) @
                        (if CHR ''x'' \<in> set mode then ''x'' else []), contents), h'))))"

text \<open>
  \<^verbatim>\<open>repo.commitctx\<close> for a \<^verbatim>\<open>memctx\<close>: the callback is called for the files
  in their order; a file for which it raises \<^verbatim>\<open>IOError\<close> is removed from the
  manifest, any other error is raised.
\<close>

fun commit_files ::
  "(string \<Rightarrow> calls \<Rightarrow> (error + string \<times> string) \<times> calls) \<Rightarrow> string list \<Rightarrow> filemap \<Rightarrow>
     calls \<Rightarrow> (error + filemap) \<times> calls" where
  "commit_files cb [] man h = (Inr man, h)"
| "commit_files cb (f # fs) man h =
     (case cb f h of
        (Inl IOError, h') \<Rightarrow> commit_files cb fs (filter (\<lambda>x. fst x \<noteq> f) man) h'
      | (Inl e, h') \<Rightarrow> (Inl e, h')
      | (Inr fd, h') \<Rightarrow> commit_files cb fs (assign f fd man) h')"

text \<open>
  \<^verbatim>\<open>context.memctx(repo, (p1, p2), desc, files, getfilectx, ..., extra)\<close> followed
  by \<^verbatim>\<open>repo.commitctx(ctx)\<close>.  The files are visited sorted and once each.  The
  manifest starts as that of the first parent.  The new changeset is the last of the
  changelog and the tip of the default branch; its files are taken to be those given.
\<close>

definition commitctx ::
  "hgstore \<Rightarrow> (string \<Rightarrow> calls \<Rightarrow> (error + string \<times> string) \<times> calls) \<Rightarrow> repo \<Rightarrow>
     (string \<Rightarrow> filemap) \<Rightarrow> string option \<Rightarrow> string option \<Rightarrow> string \<Rightarrow> string list \<Rightarrow>
     int option \<Rightarrow> calls \<Rightarrow> (error + string \<times> repo \<times> (string \<Rightarrow> filemap)) \<times> calls" where
  "commitctx w cb r mf p1 p2 desc fs extra h =
     (case commit_files cb (sort (remdups fs)) (manifest_at mf p1) h of
        (Inl e, h') \<Rightarrow> (Inl e, h')
      | (Inr man, h') \<Rightarrow>
          (let n = nodeid w (length (changelog r))
           in (Inr (n,
                    r\<lparr>changelog := changelog r @
                         [\<lparr>node = n,
                           parents = filter (\<lambda>p. p \<noteq> nullid)
                             ((case p1 of None \<Rightarrow> [] | Some p \<Rightarrow> [p]) @
                              (case p2 of None \<Rightarrow> [] | Some p \<Rightarrow> [p])),
                           files = sort (remdups fs), description = desc,
                           extra_p4 = extra\<rparr>],
                       default := Some n\<rparr>,
                    mf(n := man)), h')))"

text \<open>
  The part of the loop under \<^verbatim>\<open>if client.keep\<close>: sync to the changelist, for a
  fold of the history all files, otherwise the files of the changelist after
  \<^verbatim>\<open>revert -k\<close>, the deleted ones first.
\<close>

definition pull_sync ::
  "ui \<Rightarrow> p4server \<Rightarrow> p4client \<Rightarrow> int \<Rightarrow> bool \<Rightarrow> fstat_entry list \<Rightarrow> calls \<Rightarrow>
     error option \<times> calls" where
  "pull_sync u srv cl c all fs h =
     (if \<not> keep u then (None, h)
      else if all then sync u srv cl c False True [] h
      else
        (case runs srv cl [''revert'', ''-k''] (map fst fs) False None h of
           (Some e, h') \<Rightarrow> (Some e, h')
         | (None, h') \<Rightarrow>
             sync u srv cl c False True
               (map fst (filter (\<lambda>f. fst (snd (snd (snd f))) = ''R'') fs) @
                map fst (filter (\<lambda>f. fst (snd (snd (snd f))) \<noteq> ''R'') fs)) h'))"

text \<open>
  The dictionary \<^verbatim>\<open>entries\<close> of the loop, from local names to the entries of
  \<^verbatim>\<open>fstat\<close>.  With \<^verbatim>\<open>ignorecase\<close> a file takes the name that the manifests of
  \<^verbatim>\<open>p4rev\<close> and \<^verbatim>\<open>parent\<close> have for it, and of the files whose names differ in
  case only the first is taken.
\<close>

definition manifiles ::
  "ui \<Rightarrow> (string \<Rightarrow> filemap) \<Rightarrow> string option list \<Rightarrow> (string \<times> string) list" where
  "manifiles u mf ns =
     fold (\<lambda>f m. assign (normcase u f) f m)
       (concat (map (\<lambda>n. case n of None \<Rightarrow> [] | Some p \<Rightarrow> map fst (manifest_at mf (Some p))) ns))
       []"

fun entries_nocase ::
  "ui \<Rightarrow> (string \<times> string) list \<Rightarrow> fstat_entry list \<Rightarrow> string list \<Rightarrow>
     (string \<times> fstat_entry) list \<Rightarrow> (string \<times> fstat_entry) list" where
  "entries_nocase u mfs [] seen es = es"
| "entries_nocase u mfs (f # fs) seen es =
     (let lf = snd (snd (snd (snd f))); g = normcase u lf
      in if g \<in> set seen then entries_nocase u mfs fs seen es
         else entries_nocase u mfs fs (g # seen)
                (assign (case map_of mfs g of Some n \<Rightarrow> n | None \<Rightarrow> lf) f es))"

definition pull_entries ::
  "ui \<Rightarrow> (string \<Rightarrow> filemap) \<Rightarrow> string option \<Rightarrow> string option \<Rightarrow> fstat_entry list \<Rightarrow>
     (string \<times> fstat_entry) list" where
  "pull_entries u mf p4rev parent fs =
     (if ignorecase u then entries_nocase u (manifiles u mf [p4rev, parent]) fs [] []
      else fold (\<lambda>f es. assign (snd (snd (snd (snd f)))) f es) fs [])"

text \<open>
  The part of the loop after the sync, up to the description to commit:
  \<^verbatim>\<open>parent\<close> is the last of the nodes that the description refers to, with
  \<^verbatim>\<open>pull_trim_log\<close> the reference is cut out of the description, also in p4.
\<close>

definition trim_desc :: "string \<Rightarrow> hgid_match \<Rightarrow> string" where
  "trim_desc desc m =
     (let d = take (m_start m) desc @ drop (m_end m) desc
      in if length d \<ge> 3 \<and> drop (length d - 3) d = ''\<newline>\<newline>\<newline>''
         then take (length d - 2) d else d)"

definition pull_parent ::
  "ui \<Rightarrow> p4server \<Rightarrow> repo \<Rightarrow> p4client \<Rightarrow> int \<Rightarrow> string \<Rightarrow> calls \<Rightarrow>
     (error + string option \<times> string list \<times> string) \<times> p4client \<times> calls" where
  "pull_parent u srv r cl c desc h =
     (case parsenodes r desc of
        (nodes, m) \<Rightarrow>
          if nodes = [] then (Inr (None, [], desc), cl, h)
          else
            (case repo_node r (last nodes) of
               None \<Rightarrow> (Inl LookupError, cl, h)
             | Some pc \<Rightarrow>
                 (let hgfiles = filter (\<lambda>f. startswith f ''.hg'') (files pc)
                  in if pull_trim_log u then
                       (case m of
                          None \<Rightarrow> (Inl AttributeError, cl, h)
                        | Some mt \<Rightarrow>
                            (case change u srv cl (if c = 0 then [] else str_int c)
                                    (trim_desc desc mt) True [] h of
                               (Inl e, cl', h') \<Rightarrow> (Inl e, cl', h')
                             | (Inr n, cl', h') \<Rightarrow>
                                 (Inr (Some (last nodes), hgfiles, trim_desc desc mt), cl', h')))
                     else (Inr (Some (last nodes), hgfiles, desc), cl, h))))"

text \<open>
  The body of \<^verbatim>\<open>for c in changes\<close>.  What has been done when an exception is
  raised stays done.
\<close>

definition pull_change ::
  "ui \<Rightarrow> hgstore \<Rightarrow> p4server \<Rightarrow> int \<Rightarrow> pulling \<Rightarrow> calls \<Rightarrow> error option \<times> pulling \<times> calls" where
  "pull_change u w srv c st h =
     (case describe u srv (p_client st) (str_int c) h of
        (Inl e, cl1, h1) \<Rightarrow> (Some e, st\<lparr>p_client := cl1\<rparr>, h1)
      | (Inr d, cl1, h1) \<Rightarrow>
          (case fstat u srv cl1 c (p_startrev st \<noteq> 0) h1 of
             (Inl e, h2) \<Rightarrow> (Some e, st\<lparr>p_client := cl1\<rparr>, h2)
           | (Inr fs, h2) \<Rightarrow>
               (case pull_sync u srv cl1 c (p_startrev st \<noteq> 0) fs h2 of
                  (Some e, h3) \<Rightarrow> (Some e, st\<lparr>p_client := cl1\<rparr>, h3)
                | (None, h3) \<Rightarrow>
                    (case pull_parent u srv (p_repo st) cl1 c (d_desc d) h3 of
                       (Inl e, cl4, h4) \<Rightarrow> (Some e, st\<lparr>p_client := cl4\<rparr>, h4)
                     | (Inr (parent, hgfiles, desc), cl4, h4) \<Rightarrow>
                         (let es = pull_entries u (p_mf st) (p_rev st) parent fs;
                              st4 = st\<lparr>p_client := cl4, p_startrev := 0\<rparr>
                          in case commitctx w
                                    (getfilectx u w srv cl4 (p_mf st) parent es)
                                    (p_repo st) (p_mf st) (p_rev st) parent desc
                                    (map fst es @ hgfiles)
                                    (if p_startrev st \<noteq> 0 then None else Some c) h4 of
                               (Inl e, h5) \<Rightarrow> (Some e, st4, h5)
                             | (Inr (n, r', mf'), h5) \<Rightarrow>
                                 (case labels u srv cl4 c h5 of
                                    (Inl e, h6) \<Rightarrow>
                                      (Some e, st4\<lparr>p_repo := r', p_mf := mf', p_rev := Some n\<rparr>,
                                       h6)
                                  | (Inr ls, h6) \<Rightarrow>
                                      (None,
                                       st4\<lparr>p_repo := r', p_mf := mf', p_rev := Some n,
                                           p_tags := fold (\<lambda>l t. assign l (c, hex n) t) ls
                                                       (p_tags st)\<rparr>,
                                       h6)))))))"

text \<open>\<^verbatim>\<open>for c in changes\<close>, up to the first changelist that raises.\<close>

fun pull_loop ::
  "ui \<Rightarrow> hgstore \<Rightarrow> p4server \<Rightarrow> int list \<Rightarrow> pulling \<Rightarrow> calls \<Rightarrow>
     error option \<times> pulling \<times> calls" where
  "pull_loop u w srv [] st h = (None, st, h)"
| "pull_loop u w srv (c # cs) st h =
     (case pull_change u w srv c st h of
        (Some e, st', h') \<Rightarrow> (Some e, st', h')
      | (None, st', h') \<Rightarrow> pull_loop u w srv cs st' h')"

text \<open>
  The \<^verbatim>\<open>finally\<close> clause: with tags, \<^verbatim>\<open>client.find()\<close> looks for the most recent
  revision made from a changelist, raising when there is none, and a changeset with
  the file \<^verbatim>\<open>.hgtags\<close> is committed on top of it.  The labels are visited sorted.
\<close>

definition tags_desc :: "(string \<times> int \<times> string) list \<Rightarrow> string" where
  "tags_desc tags =
     join ''\<newline>''
       (''p4 tags'' #
        map (\<lambda>l. ''   '' @ l @ '' @ '' @
                  str_int (case map_of tags l of Some t \<Rightarrow> fst t | None \<Rightarrow> 0))
          (sort (map fst tags)))"

definition tags_data :: "filemap \<Rightarrow> (string \<times> int \<times> string) list \<Rightarrow> string" where
  "tags_data man tags =
     concat
       ((case map_of man ''.hgtags'' of Some fd \<Rightarrow> [snd fd] | None \<Rightarrow> []) @
        map (\<lambda>l. (case map_of tags l of Some t \<Rightarrow> snd t | None \<Rightarrow> []) @ '' '' @ l @ ''\<newline>'')
          (sort (map fst tags)))"

definition pull_finally :: "hgstore \<Rightarrow> pulling \<Rightarrow> calls \<Rightarrow> error option \<times> pulling \<times> calls" where
  "pull_finally w st h =
     (if p_tags st = [] then (None, st, h)
      else
        (case find_p4 (p_repo st) None False None True of
           Inl e \<Rightarrow> (Some e, st, h)
         | Inr (p4rev, p4id) \<Rightarrow>
             (case commitctx w
                     (\<lambda>fn h. (Inr ([], tags_data (manifest_at (p_mf st) (Some p4rev)) (p_tags st)),
                               h))
                     (p_repo st) (p_mf st) (Some p4rev) None (tags_desc (p_tags st))
                     [''.hgtags''] None h of
                (Inl e, h') \<Rightarrow> (Some e, st, h')
              | (Inr (n, r', mf'), h') \<Rightarrow>
                  (None, st\<lparr>p_repo := r', p_mf := mf', p_rev := Some n\<rparr>, h'))))"

text \<open>
  The check of \<^verbatim>\<open>--startrev\<close> before the loop: it raises, or leaves the value of
  \<^verbatim>\<open>startrev\<close>.
\<close>

definition pull_startrev :: "int \<Rightarrow> int list \<Rightarrow> error + int" where
  "pull_startrev sr changes =
     (if sr = 0 then Inr 0
      else if length changes < 2
      then Inl (Abort ''with --startrev there must be at least two revisions to clone'')
      else if sr < 0 then Inr (hd changes)
      else if hd changes \<noteq> sr
      then Inl (Abort (''changelist for --startrev not found, first changelist is '' @
                       str_int (hd changes)))
      else Inr sr)"

text \<open>
  \<^verbatim>\<open>pull\<close>: wrap the pull command to look for p4 paths, import changelists.  The
  result holds the repository as the command leaves it.  \<^verbatim>\<open>try: ... finally: ...\<close>
  raises what the \<^verbatim>\<open>finally\<close> clause raises, and otherwise what the loop raised.
  The update of the working directory at the end is left out.
\<close>

definition pull ::
  "ui \<Rightarrow> hgstore \<Rightarrow> p4server \<Rightarrow> repo \<Rightarrow> opts \<Rightarrow> string \<Rightarrow> calls \<Rightarrow>
     (error + unit common) \<times> repo \<times> calls" where
  "pull u w srv r ops source h =
     (case pullcommon u srv r ops source h of
        (Inl e, h1) \<Rightarrow> (Inl e, r, h1)
      | (Inr Original, h1) \<Rightarrow> (Inr Original, r, h1)
      | (Inr (Done n), h1) \<Rightarrow> (Inr (Done n), r, h1)
      | (Inr (Proceed info), h1) \<Rightarrow>
          (case pull_startrev (pl_startrev info) (pl_changes info) of
             Inl e \<Rightarrow> (Inl e, r, h1)
           | Inr sr \<Rightarrow>
               (case pull_loop u w srv (pl_changes info)
                       \<lparr>p_repo = r, p_mf = manifest_of w, p_client = pl_client info,
                        p_rev = pl_p4rev info, p_startrev = sr, p_tags = []\<rparr> h1 of
                  (e, st, h2) \<Rightarrow>
                    (case pull_finally w st h2 of
                       (Some e', st', h3) \<Rightarrow> (Inl e', p_repo st', h3)
                     | (None, st', h3) \<Rightarrow>
                         (case e of
                            Some e0 \<Rightarrow> (Inl e0, p_repo st', h3)
                          | None \<Rightarrow> (Inr (Proceed ()), p_repo st', h3))))))"

subsection \<open>Example data\<close>

text \<open>
  Quoting for a POSIX shell: a word of letters, digits and the characters
  \<^verbatim>\<open>._/-\<close> is left as it is, any other string is put between single quotes,
  a single quote in it (\<open>CHR 0x27\<close>) being written as a quote, a backslash
  (\<open>CHR 0x5C\<close>) and two quotes.
\<close>

definition posix_quote :: "string \<Rightarrow> string" where
  "posix_quote s =
     (if s \<noteq> [] \<and>
         list_all (\<lambda>c. c \<in> set ''abcdefghijklmnopqrstuvwxyzABCDEFGHIJKLMNOPQRSTUVWXYZ0123456789._/-'') s
      then s
      else [CHR 0x27] @
           concat (map (\<lambda>c. if c = CHR 0x27 then [CHR 0x27, CHR 0x5C, CHR 0x27, CHR 0x27]
                              else [c]) s) @
           [CHR 0x27])"

text \<open>
  A configuration with the defaults of the source, a workspace directory \<^verbatim>\<open>/ws\<close>,
  and no mapping of client names to users.
\<close>

definition example_ui :: ui where
  "example_ui =
     \<lparr>keep = True, lowercasepaths = False, ignorecase = False, clientuser = None,
      cfg_submit = False, cfg_move = Some True, cfg_copy = Some True, cfg_tags = True,
      pull_trim_log = False, isdir = (\<lambda>d. d = ''/ws''),
      shellquote = posix_quote, tempname = ''/tmp/hg-p4-tmp'', normcase = (\<lambda>s. s),
      re_subn = (\<lambda>pat repl s. (s, 0)), capwords = (\<lambda>s. s),
      script = (\<lambda>cu c usr. None), write_fails = (\<lambda>f. False),
      default_push = ''p4://perforce/ws-client'', repo_path = ''/home/jane/project/.hg'',
      decodetype = (\<lambda>t. (t, []))\<rparr>"

text \<open>A server that knows every user as J. Doe.\<close>

definition user_server :: p4server where
  "user_server h =
     [[(''User'', S ''jdoe''), (''Update'', S ''2013/01/01 00:00:00''),
       (''FullName'', S ''J. Doe''), (''Email'', S ''jd@example.com'')]]"

text \<open>
  A repository with two local changesets and one that \<^verbatim>\<open>pull\<close> made from changelist
  5, and a client object for the client \<^verbatim>\<open>ws-client\<close> with the root \<^verbatim>\<open>/ws\<close>.
\<close>

definition example_repo :: repo where
  "example_repo =
     \<lparr>changelog =
        [\<lparr>node = ''aaaaaaaaaaaaaaaaaaaa'', parents = [], files = [''a.txt''],
          description = ''first'', extra_p4 = None\<rparr>,
         \<lparr>node = ''pppppppppppppppppppp'', parents = [''aaaaaaaaaaaaaaaaaaaa''],
          files = [''a.txt''],
          description = ''first\<newline>\<newline>{{mercurial 6161616161616161616161616161616161616161}}\<newline>'',
          extra_p4 = Some 5\<rparr>,
         \<lparr>node = ''bbbbbbbbbbbbbbbbbbbb'', parents = [''pppppppppppppppppppp''],
          files = [''b.txt''], description = ''second'', extra_p4 = None\<rparr>],
      default = Some ''bbbbbbbbbbbbbbbbbbbb'', qbase = None\<rparr>"

definition example_client :: p4client where
  "example_client =
     \<lparr>server = Some ''perforce:1666'', client = Some ''ws-client'', root = Some ''/ws'',
      partial = Some [], rootpart = Some ''/ws/'', clientspec = [],
      usercache = Map.empty, p4stat = None, p4pending = []\<rparr>"

text \<open>
  A server with the submitted changelist 5 and the pending changelist 7, whose
  descriptions both refer to the first changeset of \<open>example_repo\<close>.
\<close>

definition changes_server :: p4server where
  "changes_server h =
     (if ''pending'' \<in> set (call_cmd (last h)) then
        [[(''code'', S ''stat''), (''change'', S ''7''),
          (''desc'', S ''again\<newline>\<newline>{{mercurial 6161616161616161616161616161616161616161}}\<newline>''),
          (''status'', S ''pending''), (''client'', S ''ws-client'')]]
      else
        [[(''code'', S ''stat''), (''change'', S ''5''),
          (''desc'', S ''first\<newline>\<newline>{{mercurial 6161616161616161616161616161616161616161}}\<newline>''),
          (''status'', S ''submitted''), (''client'', S ''ws-client'')]])"

text \<open>
  A repository after a push of two changesets and a pull: the changesets \<open>n\<close> and
  \<open>c\<close> went into changelist 5, which \<^verbatim>\<open>pull\<close> made into the merge \<open>g\<close> of the
  base changeset and \<open>c\<close>.
\<close>

definition pushed_repo :: repo where
  "pushed_repo =
     \<lparr>changelog =
        [\<lparr>node = ''bbbbbbbbbbbbbbbbbbbb'', parents = [], files = [''a.txt''],
          description = ''base'', extra_p4 = Some 4\<rparr>,
         \<lparr>node = ''nnnnnnnnnnnnnnnnnnnn'', parents = [''bbbbbbbbbbbbbbbbbbbb''],
          files = [''n.txt''], description = ''add n'', extra_p4 = None\<rparr>,
         \<lparr>node = ''cccccccccccccccccccc'', parents = [''nnnnnnnnnnnnnnnnnnnn''],
          files = [''c.txt''], description = ''add c'', extra_p4 = None\<rparr>,
         \<lparr>node = ''gggggggggggggggggggg'',
          parents = [''bbbbbbbbbbbbbbbbbbbb'', ''cccccccccccccccccccc''],
          files = [''n.txt'', ''c.txt''], description = ''add n and c'', extra_p4 = Some 5\<rparr>],
      default = Some ''gggggggggggggggggggg'', qbase = None\<rparr>"

text \<open>
  A repository with a changeset made from changelist 5 and a local changeset \<open>x\<close>
  on top of it, a backport whose message quotes the reference to the first changeset.
\<close>

definition graft_repo :: repo where
  "graft_repo =
     \<lparr>changelog =
        [\<lparr>node = ''aaaaaaaaaaaaaaaaaaaa'', parents = [], files = [''a.txt''],
          description = ''first'', extra_p4 = Some 5\<rparr>,
         \<lparr>node = ''xxxxxxxxxxxxxxxxxxxx'', parents = [''aaaaaaaaaaaaaaaaaaaa''],
          files = [''new.txt''],
          description =
            ''backport of first\<newline>\<newline>{{mercurial 6161616161616161616161616161616161616161}}'',
          extra_p4 = None\<rparr>],
      default = Some ''xxxxxxxxxxxxxxxxxxxx'', qbase = None\<rparr>"

text \<open>
  A server that knows the client \<^verbatim>\<open>ws-client\<close> with the root \<^verbatim>\<open>/ws\<close>, has the
  submitted changelist 5 and no pending changelist, and answers every other command
  with nothing.
\<close>

definition quiet_server :: p4server where
  "quiet_server h =
     (if take 1 (call_cmd (last h)) = [''client'']
      then [[(''Client'', S ''ws-client''), (''Root'', S ''/ws'')]]
      else if take 1 (call_cmd (last h)) = [''changes''] \<and> ''pending'' \<notin> set (call_cmd (last h))
      then [[(''code'', S ''stat''), (''change'', S ''5''), (''desc'', S ''add n and c''),
             (''status'', S ''submitted''), (''client'', S ''ws-client'')]]
      else [])"

text \<open>
  A server that knows the client \<^verbatim>\<open>ws-client\<close> and the user \<^verbatim>\<open>jane\<close>,
  creates changelist 12, refuses \<^verbatim>\<open>add\<close>, and describes changelist 12 with one
  opened file and one job.
\<close>

definition failing_server :: p4server where
  "failing_server h =
     (let cmd = call_cmd (last h) in
      if take 1 cmd = [''client''] then [[(''Client'', S ''ws-client''), (''Root'', S ''/ws'')]]
      else if take 2 cmd = [''change'', ''-o'']
      then [[(''Change'', S ''new''), (''Description'', S ''<enter description here>'')]]
      else if take 2 cmd = [''change'', ''-i'']
      then [[(''code'', S ''info''), (''data'', S ''Change 12 created.'')]]
      else if take 1 cmd = [''add'']
      then [[(''code'', S ''error''), (''data'', S ''no permission for operation on file(s).''),
             (''generic'', I 4), (''severity'', I 3)]]
      else if take 1 cmd = [''describe'']
      then [[(''code'', S ''stat''), (''change'', S ''12''), (''user'', S ''jane''),
             (''client'', S ''ws-client''), (''time'', S ''1357''),
             (''desc'', S ''second''), (''status'', S ''pending''),
             (''depotFile0'', S ''//depot/old.txt''), (''rev0'', S ''3''),
             (''type0'', S ''text''), (''action0'', S ''edit''),
             (''job0'', S ''job000001''), (''jobstat0'', S ''open'')]]
      else if take 1 cmd = [''user'']
      then [[(''User'', S ''jane''), (''Update'', S ''2013/01/01 00:00:00''),
             (''FullName'', S ''Jane Roe''), (''Email'', S ''jane@example.com'')]]
      else [])"

text \<open>A comparison of changesets that finds one added file.\<close>

definition example_diff :: hgdiff where
  "example_diff =
     \<lparr>status = (\<lambda>n1 n2. ([], [''new.txt''], [])), pathcopies = (\<lambda>n1 n2. []),
      manifest = (\<lambda>n. map_of [(''new.txt'', ([], ''data''))])\<rparr>"

definition example_opts :: opts where
  "example_opts =
     \<lparr>mq = False, force = False, pull_rev = [], startrev = 0, push_rev = None,
      submit = False, job = [], update = False\<rparr>"

section \<open>Properties\<close>

subsection \<open>The reference to Mercurial nodes\<close>

lemma hexdigit_is_hexdigit: "n < 16 \<Longrightarrow> is_hexdigit (hexdigit n)"
proof -
  assume "n < 16"
  then have "n \<in> set [0..<16]" by simp
  then show ?thesis
    unfolding upt_conv_Cons_Cons
    by (simp add: upt_rec [of _ 16] is_hexdigit_def hexdigit_def) (elim disjE; simp)
qed

lemma length_hex: "length (hex s) = 2 * length s"
  by (induction s) (simp_all add: hex_def)

lemma hex_Nil: "hex [] = []" by (simp add: hex_def)
lemma hex_Cons: "hex (c # cs) = hexdigit (of_char c div 16) # hexdigit (of_char c mod 16) # hex cs"
  by (simp add: hex_def)

lemma of_char_less: "(of_char c :: nat) < 256"
  by (cases c) simp

lemma of_char_div: "(of_char c :: nat) div 16 < 16"
  using of_char_less [of c] by (simp add: less_mult_imp_div_less)

lemma list_all_hex: "list_all is_hexdigit (hex s)"
proof (induction s)
  case Nil show ?case by (simp add: hex_Nil)
next
  case (Cons c cs)
  have "(of_char c :: nat) div 16 < 16" "(of_char c :: nat) mod 16 < 16"
    by (simp_all add: of_char_div)
  with Cons show ?case by (simp add: hex_Cons hexdigit_is_hexdigit)
qed

lemma hexdigit_inj: "m < 16 \<Longrightarrow> n < 16 \<Longrightarrow> hexdigit m = hexdigit n \<Longrightarrow> m = n"
proof -
  assume "m < 16" "n < 16" and eq: "hexdigit m = hexdigit n"
  have d: "distinct ''0123456789abcdef''" by simp
  have l: "length ''0123456789abcdef'' = 16" by simp
  from \<open>m < 16\<close> \<open>n < 16\<close> eq show "m = n"
    unfolding hexdigit_def using d l nth_eq_iff_index_eq [OF d, of m n] by simp
qed

lemma hex_inj: "hex a = hex b \<Longrightarrow> a = b"
proof (induction a arbitrary: b)
  case Nil
  then show ?case using length_hex [of b] by (simp add: hex_Nil)
next
  case (Cons c cs)
  from Cons.prems obtain d ds where b: "b = d # ds"
    using length_hex [of b] length_hex [of "c # cs"] by (cases b) auto
  have lc: "(of_char c :: nat) < 256" and ld: "(of_char d :: nat) < 256" by (rule of_char_less)+
  from Cons.prems b have e1: "hexdigit (of_char c div 16) = hexdigit (of_char d div 16)"
    and e2: "hexdigit (of_char c mod 16) = hexdigit (of_char d mod 16)"
    and e3: "hex cs = hex ds" by (simp_all add: hex_Cons)
  from e1 have "(of_char c :: nat) div 16 = of_char d div 16"
    by (intro hexdigit_inj) (simp_all add: of_char_div)
  moreover from e2 have "(of_char c :: nat) mod 16 = of_char d mod 16" by (intro hexdigit_inj) simp_all
  ultimately have "(of_char c :: nat) = of_char d" by (metis div_mult_mod_eq)
  then have "c = d" by simp
  with Cons.IH [OF e3] b show ?case by simp
qed


lemma literal_prefix: "literal p (p @ r) = Some r"
  by (induction p) simp_all

lemma hexdigits_prefix: "list_all is_hexdigit h \<Longrightarrow> hexdigits (length h) (h @ r) = Some (h, r)"
  by (induction h) simp_all

lemma hexdigits_hex: "length a = 20 \<Longrightarrow> hexdigits 40 (hex a @ r) = Some (hex a, r)"
  using hexdigits_prefix [OF list_all_hex, of a r] by (simp add: length_hex)

lemma literal_append:
  "c0 \<notin> set p \<Longrightarrow> literal p (s @ c0 # t) = map_option (\<lambda>r. r @ c0 # t) (literal p s)"
  by (induction p s rule: literal.induct) auto

lemma hexdigits_append:
  "\<not> is_hexdigit c0 \<Longrightarrow>
   hexdigits n (s @ c0 # t) = map_option (\<lambda>(h, r). (h, r @ c0 # t)) (hexdigits n s)"
  by (induction n s rule: hexdigits.induct) (auto split: option.splits)

lemma newline_not_hexdigit: "\<not> is_hexdigit CHR ''\<newline>''"
  by (simp add: is_hexdigit_def)

lemma hgid_range_append:
  "hgid_range (s @ CHR ''\<newline>'' # t) =
     map_option (\<lambda>(g, r). (g, r @ CHR ''\<newline>'' # t)) (hgid_range s)"
  by (auto simp: hgid_range_def literal_append hexdigits_append newline_not_hexdigit
      split: option.splits)

lemma re_hgid_at_append:
  "re_hgid_at (s @ CHR ''\<newline>'' # t) =
     map_option (\<lambda>(g2, g4, r). (g2, g4, r @ CHR ''\<newline>'' # t)) (re_hgid_at s)"
  by (auto simp: re_hgid_at_def hgid_range_append literal_append hexdigits_append
      newline_not_hexdigit split: option.splits)

lemma re_hgid_at_newline: "re_hgid_at (CHR ''\<newline>'' # t) = None"
  by (simp add: re_hgid_at_def)

lemma re_hgid_at_Nil: "re_hgid_at [] = None"
  by (simp add: re_hgid_at_def)

lemma search_from_append:
  "re_hgid_search_from i body = None \<Longrightarrow>
   re_hgid_search_from i (body @ CHR ''\<newline>'' # t) =
     re_hgid_search_from (i + length body) (CHR ''\<newline>'' # t)"
proof (induction body arbitrary: i)
  case Nil
  then show ?case by simp
next
  case (Cons c cs)
  from Cons.prems have no: "re_hgid_at (c # cs) = None" and rest: "re_hgid_search_from (Suc i) cs = None"
    by (auto split: option.splits)
  from no have "re_hgid_at ((c # cs) @ CHR ''\<newline>'' # t) = None"
    by (simp only: re_hgid_at_append option.map)
  with Cons.IH [OF rest] show ?case by simp
qed

lemma re_hgid_at_single:
  "length a = 20 \<Longrightarrow>
   re_hgid_at (''{{mercurial '' @ hex a @ ''}}'' @ t) = Some (hex a, None, t)"
proof -
  assume a: "length a = 20"
  have l: "literal ''{{mercurial '' (''{{mercurial '' @ hex a @ ''}}'' @ t) = Some (hex a @ ''}}'' @ t)"
    by (rule literal_prefix)
  have r: "hgid_range (''}}'' @ t) = None" by (simp add: hgid_range_def)
  have c: "literal ''}}'' (''}}'' @ t) = Some t" by (rule literal_prefix)
  show ?thesis
    unfolding re_hgid_at_def l using hexdigits_hex [OF a, of "''}}'' @ t"] r c by simp
qed

lemma re_hgid_at_range:
  "length a = 20 \<Longrightarrow> length b = 20 \<Longrightarrow>
   re_hgid_at (''{{mercurial '' @ hex a @ '':'' @ hex b @ ''}}'' @ t) = Some (hex a, Some (hex b), t)"
proof -
  assume a: "length a = 20" and b: "length b = 20"
  have l: "literal ''{{mercurial '' (''{{mercurial '' @ hex a @ '':'' @ hex b @ ''}}'' @ t)
      = Some (hex a @ '':'' @ hex b @ ''}}'' @ t)"
    by (rule literal_prefix)
  have l2: "literal '':'' ('':'' @ hex b @ ''}}'' @ t) = Some (hex b @ ''}}'' @ t)"
    by (rule literal_prefix)
  have c: "literal ''}}'' (''}}'' @ t) = Some t" by (rule literal_prefix)
  have r: "hgid_range ('':'' @ hex b @ ''}}'' @ t) = Some (hex b, t)"
    unfolding hgid_range_def l2 using hexdigits_hex [OF b, of "''}}'' @ t"] c by simp
  show ?thesis
    unfolding re_hgid_at_def l using hexdigits_hex [OF a, of "'':'' @ hex b @ ''}}'' @ t"] r by simp
qed


lemma repo_hex_node:
  assumes "a \<in> node ` set (changelog r)"
  shows "\<exists>c. repo_hex r (hex a) = Some c \<and> node c = a"
proof -
  from assms have "\<exists>c\<in>set (changelog r). hex (node c) = hex a" by auto
  then obtain c where c: "find (\<lambda>c. hex (node c) = hex a) (changelog r) = Some c"
    by (cases "find (\<lambda>c. hex (node c) = hex a) (changelog r)") (auto simp: find_None_iff)
  then have "hex (node c) = hex a" by (auto simp: find_Some_iff)
  then have "node c = a" by (rule hex_inj)
  with c show ?thesis by (simp add: repo_hex_def)
qed

lemma search_from_at:
  "re_hgid_at s = Some (g2, g4, rest) \<Longrightarrow>
   re_hgid_search_from i s =
     Some \<lparr>m_start = i, m_end = i + (length s - length rest), group2 = g2, group4 = g4\<rparr>"
  by (cases s) (simp_all add: re_hgid_at_Nil)

lemma search_reference:
  assumes body: "re_hgid_search body = None"
    and tok: "re_hgid_at (tok @ ''\<newline>'') = Some (g2, g4, ''\<newline>'')"
  shows "re_hgid_search (body @ ''\<newline>\<newline>'' @ tok @ ''\<newline>'') =
    Some \<lparr>m_start = length body + 2, m_end = length body + 2 + length tok, group2 = g2, group4 = g4\<rparr>"
proof -
  have "re_hgid_search (body @ ''\<newline>\<newline>'' @ tok @ ''\<newline>'') =
      re_hgid_search_from (0 + length body) (CHR ''\<newline>'' # CHR ''\<newline>'' # tok @ ''\<newline>'')"
    unfolding re_hgid_search_def using search_from_append [of 0 body] body
    by (simp add: re_hgid_search_def)
  also have "\<dots> = re_hgid_search_from (length body + 2) (tok @ ''\<newline>'')"
    by (simp add: re_hgid_at_newline)
  also have "\<dots> = Some \<lparr>m_start = length body + 2, m_end = length body + 2 + length tok, group2 = g2, group4 = g4\<rparr>"
    using search_from_at [OF tok, of "length body + 2"] by simp
  finally show ?thesis .
qed

text \<open>
  Claim C5, as the code has it.  \<^verbatim>\<open>pushcommon\<close> appends the reference
  \<^verbatim>\<open>{{mercurial <hex>}}\<close>, or \<^verbatim>\<open>{{mercurial <hex>:<hex>}}\<close> for more than one
  node, to the joined descriptions of the pushed changesets.  Let the nodes be the
  range between the first and the last of them, both 20-byte ids of changesets of the
  repository, and let the joined descriptions hold no reference of their own.  Then
  \<^verbatim>\<open>parsenodes\<close> finds exactly the appended reference and returns exactly the
  nodes: group 2 is the hex of the first node, group 4 is the hex of the last node in
  the range form and absent in the single form.
\<close>

theorem reference_roundtrip:
  assumes nodes: "nodes \<noteq> []"
    and body: "re_hgid_search (join ''\<newline>* * *\<newline>'' desc) = None"
    and known: "hd nodes \<in> node ` set (changelog r)" "last nodes \<in> node ` set (changelog r)"
    and len: "length (hd nodes) = 20" "length (last nodes) = 20"
    and range: "nodesbetween r [hd nodes] [last nodes] = nodes"
  shows "parsenodes r (create_description desc nodes) =
    (nodes,
     Some \<lparr>m_start = length (join ''\<newline>* * *\<newline>'' desc) + 2,
           m_end = length (join ''\<newline>* * *\<newline>'' desc) + 16 + length (hgid_of nodes),
           group2 = hex (if length nodes > 1 then hd nodes else last nodes),
           group4 = (if length nodes > 1 then Some (hex (last nodes)) else None)\<rparr>)"
proof -
  let ?body = "join ''\<newline>* * *\<newline>'' desc"
  let ?tok = "''{{mercurial '' @ hgid_of nodes @ ''}}''"
  let ?first = "if length nodes > 1 then hd nodes else last nodes"
  let ?g4 = "if length nodes > 1 then Some (hex (last nodes)) else None"
  have one: "length nodes \<le> 1 \<Longrightarrow> hd nodes = last nodes"
    using nodes by (cases nodes) auto
  have at: "re_hgid_at (?tok @ ''\<newline>'') = Some (hex ?first, ?g4, ''\<newline>'')"
  proof (cases "length nodes > 1")
    case True
    then show ?thesis
      using re_hgid_at_range [OF len, of "''\<newline>''"] by (simp add: hgid_of_def)
  next
    case False
    then show ?thesis
      using re_hgid_at_single [OF len(2), of "''\<newline>''"] by (simp add: hgid_of_def)
  qed
  have d: "create_description desc nodes = ?body @ ''\<newline>\<newline>'' @ ?tok @ ''\<newline>''"
    by (simp add: create_description_def)
  have m: "re_hgid_search (create_description desc nodes) =
    Some \<lparr>m_start = length ?body + 2, m_end = length ?body + 16 + length (hgid_of nodes),
          group2 = hex ?first, group4 = ?g4\<rparr>"
    unfolding d using search_reference [OF body at] by simp
  from known obtain c1 c2 where c1: "repo_hex r (hex (hd nodes)) = Some c1" "node c1 = hd nodes"
    and c2: "repo_hex r (hex (last nodes)) = Some c2" "node c2 = last nodes"
    using repo_hex_node by blast
  show ?thesis
  proof (cases "length nodes > 1")
    case True
    with m c1 c2 range show ?thesis by (simp add: parsenodes_def)
  next
    case False
    with one have "hd nodes = last nodes" by simp
    with False m c2 range show ?thesis by (simp add: parsenodes_def)
  qed
qed

theorem reference_roundtrip_witness:
  "[''aaaaaaaaaaaaaaaaaaaa'', ''bbbbbbbbbbbbbbbbbbbb''] \<noteq> [] \<and>
   re_hgid_search (join ''\<newline>* * *\<newline>'' [''fix a'', ''fix b'']) = None \<and>
   nodesbetween
     \<lparr>changelog =
        [\<lparr>node = ''aaaaaaaaaaaaaaaaaaaa'', parents = [], files = [''a''],
          description = ''fix a'', extra_p4 = None\<rparr>,
         \<lparr>node = ''bbbbbbbbbbbbbbbbbbbb'', parents = [''aaaaaaaaaaaaaaaaaaaa''], files = [''b''],
          description = ''fix b'', extra_p4 = None\<rparr>],
      default = Some ''bbbbbbbbbbbbbbbbbbbb'', qbase = None\<rparr>
     [''aaaaaaaaaaaaaaaaaaaa''] [''bbbbbbbbbbbbbbbbbbbb''] =
     [''aaaaaaaaaaaaaaaaaaaa'', ''bbbbbbbbbbbbbbbbbbbb''] \<and>
   parsenodes
     \<lparr>changelog =
        [\<lparr>node = ''aaaaaaaaaaaaaaaaaaaa'', parents = [], files = [''a''],
          description = ''fix a'', extra_p4 = None\<rparr>,
         \<lparr>node = ''bbbbbbbbbbbbbbbbbbbb'', parents = [''aaaaaaaaaaaaaaaaaaaa''], files = [''b''],
          description = ''fix b'', extra_p4 = None\<rparr>],
      default = Some ''bbbbbbbbbbbbbbbbbbbb'', qbase = None\<rparr>
     (create_description [''fix a'', ''fix b'']
        [''aaaaaaaaaaaaaaaaaaaa'', ''bbbbbbbbbbbbbbbbbbbb'']) =
   ([''aaaaaaaaaaaaaaaaaaaa'', ''bbbbbbbbbbbbbbbbbbbb''],
    Some \<lparr>m_start = 19, m_end = 114,
          group2 = ''6161616161616161616161616161616161616161'',
          group4 = Some ''6262626262626262626262626262626262626262''\<rparr>) \<and>
   parsenodes
     \<lparr>changelog =
        [\<lparr>node = ''aaaaaaaaaaaaaaaaaaaa'', parents = [], files = [''a''],
          description = ''fix a'', extra_p4 = None\<rparr>,
         \<lparr>node = ''bbbbbbbbbbbbbbbbbbbb'', parents = [''aaaaaaaaaaaaaaaaaaaa''], files = [''b''],
          description = ''fix b'', extra_p4 = None\<rparr>],
      default = Some ''bbbbbbbbbbbbbbbbbbbb'', qbase = None\<rparr>
     (create_description [''fix b''] [''bbbbbbbbbbbbbbbbbbbb'']) =
   ([''bbbbbbbbbbbbbbbbbbbb''],
    Some \<lparr>m_start = 7, m_end = 61,
          group2 = ''6262626262626262626262626262626262626262'', group4 = None\<rparr>)"
proof -
  let ?a = "''aaaaaaaaaaaaaaaaaaaa''" and ?b = "''bbbbbbbbbbbbbbbbbbbb''"
  let ?r = "\<lparr>changelog =
        [\<lparr>node = ?a, parents = [], files = [''a''], description = ''fix a'', extra_p4 = None\<rparr>,
         \<lparr>node = ?b, parents = [?a], files = [''b''], description = ''fix b'', extra_p4 = None\<rparr>],
      default = Some ''bbbbbbbbbbbbbbbbbbbb'', qbase = None\<rparr>"
  have h1: "[?a, ?b] \<noteq> []" by simp
  have h2: "re_hgid_search (join ''\<newline>* * *\<newline>'' [''fix a'', ''fix b'']) = None"
    by code_simp
  have h3: "hd [?a, ?b] \<in> node ` set (changelog ?r)" by simp
  have h4: "last [?a, ?b] \<in> node ` set (changelog ?r)" by simp
  have h5: "length (hd [?a, ?b]) = 20" by simp
  have h6: "length (last [?a, ?b]) = 20" by simp
  have nb: "nodesbetween ?r [?a] [?b] = [?a, ?b]" by code_simp
  then have h7: "nodesbetween ?r [hd [?a, ?b]] [last [?a, ?b]] = [?a, ?b]" by simp
  have e1: "hex ?a = ''6161616161616161616161616161616161616161''" by code_simp
  have e2: "hex ?b = ''6262626262626262626262626262626262626262''" by code_simp
  have e3: "length (join ''\<newline>* * *\<newline>'' [''fix a'', ''fix b'']) = 17" by simp
  have e4: "length (hgid_of [?a, ?b]) = 81" by (simp add: hgid_of_def length_hex)
  from reference_roundtrip [OF h1 h2 h3 h4 h5 h6 h7] have two:
    "parsenodes ?r (create_description [''fix a'', ''fix b''] [?a, ?b]) =
      ([?a, ?b], Some \<lparr>m_start = 19, m_end = 114,
          group2 = ''6161616161616161616161616161616161616161'',
          group4 = Some ''6262626262626262626262626262626262626262''\<rparr>)"
    unfolding e3 e4 by (simp add: e1 e2)
  have s1: "[?b] \<noteq> []" by simp
  have s2: "re_hgid_search (join ''\<newline>* * *\<newline>'' [''fix b'']) = None" by code_simp
  have s3: "hd [?b] \<in> node ` set (changelog ?r)" by simp
  have s4: "last [?b] \<in> node ` set (changelog ?r)" by simp
  have s5: "length (hd [?b]) = 20" by simp
  have s6: "length (last [?b]) = 20" by simp
  have "nodesbetween ?r [?b] [?b] = [?b]" by code_simp
  then have s7: "nodesbetween ?r [hd [?b]] [last [?b]] = [?b]" by simp
  have e5: "length (hgid_of [?b]) = 40" by (simp add: hgid_of_def length_hex)
  from reference_roundtrip [OF s1 s2 s3 s4 s5 s6 s7] have single:
    "parsenodes ?r (create_description [''fix b''] [?b]) =
      ([?b], Some \<lparr>m_start = 7, m_end = 61,
          group2 = ''6262626262626262626262626262626262626262'', group4 = None\<rparr>)"
    unfolding e5 by (simp add: e2)
  from h1 h2 nb two single show ?thesis by blast
qed

text \<open>
  Claim C5 as stated fails for a description that holds a reference already.  In
  \<open>graft_repo\<close> the changeset \<open>x\<close> is a backport whose message quotes the reference
  to the first changeset.  A push of \<open>x\<close> without \<^verbatim>\<open>--force\<close> appends the reference
  to \<open>x\<close> after the message, \<^verbatim>\<open>re_hgid.search\<close> finds the leftmost reference,
  and \<^verbatim>\<open>parsenodes\<close> returns the first changeset instead of \<open>x\<close>.
\<close>

theorem reference_not_recovered:
  "map_sum (\<lambda>e. e) (map_common ps_nodes)
     (fst (pushcommon False example_ui quiet_server graft_repo example_diff example_opts
        ''p4://perforce/ws-client'' [])) =
     Inr (Proceed [''xxxxxxxxxxxxxxxxxxxx'']) \<and>
   map_sum (\<lambda>e. e) (map_common ps_desc)
     (fst (pushcommon False example_ui quiet_server graft_repo example_diff example_opts
        ''p4://perforce/ws-client'' [])) =
     Inr (Proceed (create_description
       [''backport of first\<newline>\<newline>{{mercurial 6161616161616161616161616161616161616161}}'']
       [''xxxxxxxxxxxxxxxxxxxx''])) \<and>
   map_sum (\<lambda>e. e) (map_common (\<lambda>ps. fst (parsenodes graft_repo (ps_desc ps))))
     (fst (pushcommon False example_ui quiet_server graft_repo example_diff example_opts
        ''p4://perforce/ws-client'' [])) =
     Inr (Proceed [''aaaaaaaaaaaaaaaaaaaa'']) \<and>
   nodesbetween graft_repo [''xxxxxxxxxxxxxxxxxxxx''] [''xxxxxxxxxxxxxxxxxxxx''] =
     [''xxxxxxxxxxxxxxxxxxxx'']"
  by (intro conjI; code_simp)

subsection \<open>The walk over the ancestors\<close>

lemma at_marker_unmarked: "extra_p4 ctx = None \<Longrightarrow> at_marker r base p4rev ctx path = Inr (ctx, path, False)"
  by (simp add: at_marker_def)

lemma add_parents_tuple:
  "\<exists>nxt' seen'. add_parents ctx path False ps nxt seen = Inr (nxt', seen') \<and>
     fst ` set nxt' \<subseteq> fst ` set nxt \<union> set ps"
proof (induction ps arbitrary: nxt seen)
  case Nil
  show ?case by simp
next
  case (Cons p ps)
  show ?case
  proof (cases "node p \<in> set seen")
    case True
    with Cons.IH [of nxt seen] show ?thesis by auto
  next
    case False
    with Cons.IH [of "nxt @ [(p, ctx # path)]" "node p # seen"] show ?thesis by auto
  qed
qed

lemma ancestors_parent: "c \<in> ancestors r ctx \<Longrightarrow> p \<in> set (ctx_parents r c) \<Longrightarrow> p \<in> ancestors r ctx"
  by (auto simp: ancestors_def parent_rel_def intro: rtrancl_into_rtrancl)

lemma find_level_unmarked:
  assumes "\<forall>c\<in>ancestors r ctx. extra_p4 c = None"
  shows "fst ` set current \<subseteq> ancestors r ctx \<Longrightarrow> fst ` set nxt \<subseteq> ancestors r ctx \<Longrightarrow>
    \<exists>nxt' seen'. find_level r base p4rev current nxt seen = Next nxt' seen' \<and>
      fst ` set nxt' \<subseteq> ancestors r ctx"
proof (induction current arbitrary: nxt seen)
  case Nil
  then show ?case by simp
next
  case (Cons cp current)
  obtain c path where cp: "cp = (c, path)" by (cases cp)
  with Cons.prems have c: "c \<in> ancestors r ctx" by simp
  with assms have m: "at_marker r base p4rev c path = Inr (c, path, False)"
    by (simp add: at_marker_unmarked)
  obtain nxt1 seen1 where a: "add_parents c path False (ctx_parents r c) nxt seen = Inr (nxt1, seen1)"
    and s: "fst ` set nxt1 \<subseteq> fst ` set nxt \<union> set (ctx_parents r c)"
    using add_parents_tuple by blast
  from s c Cons.prems(2) have n1: "fst ` set nxt1 \<subseteq> ancestors r ctx"
    using ancestors_parent by blast
  from Cons.prems(1) have cur: "fst ` set current \<subseteq> ancestors r ctx" by simp
  have "\<exists>nxt' seen'. find_level r base p4rev current nxt1 seen1 = Next nxt' seen' \<and>
      fst ` set nxt' \<subseteq> ancestors r ctx"
    using cur n1 by (rule Cons.IH)
  then show ?case by (simp add: cp m a)
qed

lemma find_walk_unmarked:
  "\<forall>c\<in>ancestors r ctx. extra_p4 c = None \<Longrightarrow> fst ` set current \<subseteq> ancestors r ctx \<Longrightarrow>
   find_walk r base p4rev current seen = Inr None"
proof (induction r base p4rev current seen rule: find_walk.induct)
  case (1 r base p4rev current seen)
  show ?case
  proof (cases "current = []")
    case True
    then show ?thesis by (subst find_walk.simps) simp
  next
    case False
    have "fst ` set ([] :: (changeset \<times> changeset list) list) \<subseteq> ancestors r ctx" by simp
    from find_level_unmarked [OF "1.prems" this, of base p4rev seen]
    obtain nxt' seen' where l: "find_level r base p4rev current [] seen = Next nxt' seen'"
      and n: "fst ` set nxt' \<subseteq> ancestors r ctx" by blast
    from "1.IH" [OF False l "1.prems"(1) n] False l show ?thesis
      by (subst find_walk.simps) simp
  qed
qed

text \<open>
  Claim C10.  When the start of the walk resolves to a changeset and neither that
  changeset nor any of its ancestors carries the key \<^verbatim>\<open>p4\<close>, \<^verbatim>\<open>find\<close> called
  with \<^verbatim>\<open>abort=False\<close> returns \<^verbatim>\<open>node.nullid\<close> and the changelist number 0, in
  the base mode or not and for any \<^verbatim>\<open>p4rev\<close>.
\<close>

theorem find_no_marker:
  assumes "find_start r rv = Some ctx"
    and "\<forall>c\<in>ancestors r ctx. extra_p4 c = None"
  shows "find_p4 r rv base p4rev False = Inr (nullid, 0)"
proof -
  have "ctx \<in> ancestors r ctx" by (simp add: ancestors_def)
  then have "find_walk r base p4rev [(ctx, [])] [] = Inr None"
    using find_walk_unmarked [OF assms(2), of "[(ctx, [])]"] by simp
  with assms(1) show ?thesis by (simp add: find_p4_def)
qed

theorem find_no_marker_witness:
  "find_start
     \<lparr>changelog =
        [\<lparr>node = ''aaaaaaaaaaaaaaaaaaaa'', parents = [], files = [''a''],
          description = ''one'', extra_p4 = None\<rparr>,
         \<lparr>node = ''bbbbbbbbbbbbbbbbbbbb'', parents = [''aaaaaaaaaaaaaaaaaaaa''], files = [''b''],
          description = ''two'', extra_p4 = None\<rparr>,
         \<lparr>node = ''cccccccccccccccccccc'', parents = [''aaaaaaaaaaaaaaaaaaaa''], files = [''c''],
          description = ''from p4'', extra_p4 = Some 7\<rparr>],
      default = Some ''cccccccccccccccccccc'', qbase = None\<rparr>
     (Some ''bbbbbbbbbbbbbbbbbbbb'') =
   Some \<lparr>node = ''bbbbbbbbbbbbbbbbbbbb'', parents = [''aaaaaaaaaaaaaaaaaaaa''], files = [''b''],
         description = ''two'', extra_p4 = None\<rparr> \<and>
   find_p4
     \<lparr>changelog =
        [\<lparr>node = ''aaaaaaaaaaaaaaaaaaaa'', parents = [], files = [''a''],
          description = ''one'', extra_p4 = None\<rparr>,
         \<lparr>node = ''bbbbbbbbbbbbbbbbbbbb'', parents = [''aaaaaaaaaaaaaaaaaaaa''], files = [''b''],
          description = ''two'', extra_p4 = None\<rparr>,
         \<lparr>node = ''cccccccccccccccccccc'', parents = [''aaaaaaaaaaaaaaaaaaaa''], files = [''c''],
          description = ''from p4'', extra_p4 = Some 7\<rparr>],
      default = Some ''cccccccccccccccccccc'', qbase = None\<rparr>
     (Some ''bbbbbbbbbbbbbbbbbbbb'') True None False = Inr (nullid, 0)"
proof -
  let ?c1 = "\<lparr>node = ''aaaaaaaaaaaaaaaaaaaa'', parents = [], files = [''a''],
          description = ''one'', extra_p4 = None\<rparr>"
  let ?c2 = "\<lparr>node = ''bbbbbbbbbbbbbbbbbbbb'', parents = [''aaaaaaaaaaaaaaaaaaaa''], files = [''b''],
          description = ''two'', extra_p4 = None\<rparr>"
  let ?c3 = "\<lparr>node = ''cccccccccccccccccccc'', parents = [''aaaaaaaaaaaaaaaaaaaa''], files = [''c''],
          description = ''from p4'', extra_p4 = Some (7::int)\<rparr>"
  let ?r = "\<lparr>changelog = [?c1, ?c2, ?c3], default = Some ''cccccccccccccccccccc'', qbase = None\<rparr>"
  have s: "find_start ?r (Some ''bbbbbbbbbbbbbbbbbbbb'') = Some ?c2"
    by (simp add: find_start_def repo_node_def)
  have p2: "ctx_parents ?r ?c2 = [?c1]" by (simp add: ctx_parents_def repo_node_def)
  have p1: "ctx_parents ?r ?c1 = []" by (simp add: ctx_parents_def)
  have anc: "c \<in> {?c2, ?c1}" if "(?c2, c) \<in> (parent_rel ?r)\<^sup>*" for c
    using that
  proof (induction rule: rtrancl_induct)
    case base
    show ?case by simp
  next
    case (step y z)
    from step.hyps(2) have z: "z \<in> set (ctx_parents ?r y)" by (simp add: parent_rel_def)
    from step.IH have "y = ?c2 \<or> y = ?c1" by simp
    then show ?case
    proof
      assume "y = ?c2"
      with z p2 show ?thesis by simp
    next
      assume "y = ?c1"
      with z p1 show ?thesis by simp
    qed
  qed
  have a: "\<forall>c\<in>ancestors ?r ?c2. extra_p4 c = None"
  proof
    fix c
    assume "c \<in> ancestors ?r ?c2"
    then have "(?c2, c) \<in> (parent_rel ?r)\<^sup>*" by (simp add: ancestors_def)
    then have "c = ?c2 \<or> c = ?c1" using anc [of c] by simp
    then show "extra_p4 c = None" by (elim disjE) simp_all
  qed
  from s find_no_marker [OF s a, of True None] show ?thesis by (rule conjI)
qed

subsection \<open>Paths that are no p4 clients\<close>

lemma not_p4_path:
  assumes "\<not> startswith path ''p4:''"
  shows "p4client_init u srv path h = (Inl (P4NotClient (path @ '' not a p4 repository'')), h)"
    and "common_client u srv path h = (Inr Original, h)"
    and "pullcommon u srv r ops path h = (Inr Original, h)"
    and "pushcommon out u srv r dq ops path h = (Inr Original, h)"
    and "push u srv r dq ops path h = (Inr Original, h)"
proof -
  show i: "p4client_init u srv path h = (Inl (P4NotClient (path @ '' not a p4 repository'')), h)"
    using assms by (simp add: p4client_init_def)
  then show c: "common_client u srv path h = (Inr Original, h)"
    by (simp add: common_client_def)
  then show "pullcommon u srv r ops path h = (Inr Original, h)"
    by (simp add: pullcommon_def)
  from c show p: "pushcommon out u srv r dq ops path h = (Inr Original, h)" for out
    by (simp add: pushcommon_def)
  from p [of False] show "push u srv r dq ops path h = (Inr Original, h)"
    by (simp add: push_def)
qed

lemma bad_scheme:
  assumes "startswith path ''p4:''" "\<not> startswith path ''p4://''"
  shows "p4client_init u srv path h = (Inl (P4BadClient (path @ '' not a p4 repository'')), h)"
    and "common_client u srv path h = (Inl (Abort (path @ '' not a p4 repository'')), h)"
  using assms by (simp_all add: p4client_init_def common_client_def)

lemma split1_no_slash: "CHR ''/'' \<notin> set s \<Longrightarrow> split1 CHR ''/'' s = (s, None)"
proof -
  assume "CHR ''/'' \<notin> set s"
  then have a: "\<forall>x\<in>set s. x \<noteq> CHR ''/''" by auto
  then have t: "takeWhile (\<lambda>x. x \<noteq> CHR ''/'') s = s"
    and d: "dropWhile (\<lambda>x. x \<noteq> CHR ''/'') s = []"
    by simp_all
  show ?thesis unfolding split1_def t d by simp
qed

lemma no_client_part:
  assumes "startswith path ''p4://''" "CHR ''/'' \<notin> set (drop 5 path)"
  shows "p4client_init u srv path h = (Inl ValueError, h)"
proof -
  from assms(1) have "startswith path ''p4:''"
    by (auto simp: startswith_def dest: arg_cong [where f = "take 3"])
  with assms show ?thesis
    by (simp add: p4client_init_def split1_no_slash)
qed

lemma client_spec_error:
  assumes "startswith path ''p4://''"
    and "split1 CHR ''/'' (drop 5 path) = (s0, Some c0)" "c0 \<noteq> []"
    and "runone srv (new_client (if CHR '':'' \<in> set s0 then s0 else s0 @ '':1666''))
           [''client'', ''-o'', shellquote u (fst (split1 CHR ''/'' c0))] False None h = (Inr d, h')"
    and "map_of d ''code'' = Some (S ''error'')" "map_of d ''data'' = Some (S data)"
  shows "p4client_init u srv path h =
    (Inl (P4BadClient (path @ '' is not a valid p4 client: '' @ strip data)), h')"
proof -
  from assms(1) have "startswith path ''p4:''"
    by (auto simp: startswith_def dest: arg_cong [where f = "take 3"])
  with assms show ?thesis
    by (simp add: p4client_init_def Let_def)
qed

lemma client_root_missing:
  assumes "startswith path ''p4://''"
    and "split1 CHR ''/'' (drop 5 path) = (s0, Some c0)" "c0 \<noteq> []"
    and "runone srv (new_client (if CHR '':'' \<in> set s0 then s0 else s0 @ '':1666''))
           [''client'', ''-o'', shellquote u (fst (split1 CHR ''/'' c0))] False None h = (Inr d, h')"
    and "map_of d ''code'' \<noteq> Some (S ''error'')" "find_root u d root_keys = None"
  shows "p4client_init u srv path h =
    (Inl (P4BadClient ''the p4 client root must exist\<newline>''), h')"
proof -
  from assms(1) have "startswith path ''p4:''"
    by (auto simp: startswith_def dest: arg_cong [where f = "take 3"])
  with assms show ?thesis
    by (simp add: p4client_init_def Let_def)
qed

text \<open>
  Claim C9 at a failing input.  The path \<^verbatim>\<open>p4://perforce:1666\<close> has the scheme
  and names no client.  The tuple assignment from \<^verbatim>\<open>path[5:].split('/', 1)\<close>
  raises a value error, which is neither \<^verbatim>\<open>p4notclient\<close> nor \<^verbatim>\<open>p4badclient\<close>:
  \<^verbatim>\<open>pull\<close> and \<^verbatim>\<open>push\<close> neither fall back to the original command nor abort
  with the message of an invalid client.
\<close>

theorem path_without_client:
  "p4client_init u srv ''p4://perforce:1666'' h = (Inl ValueError, h) \<and>
   common_client u srv ''p4://perforce:1666'' h = (Inl ValueError, h) \<and>
   pullcommon u srv r (ops\<lparr>mq := False\<rparr>) ''p4://perforce:1666'' h = (Inl ValueError, h) \<and>
   push u srv r dq (ops\<lparr>mq := False\<rparr>) ''p4://perforce:1666'' h = (Inl ValueError, h)"
proof -
  have i: "p4client_init u srv ''p4://perforce:1666'' h = (Inl ValueError, h)"
    by (rule no_client_part) (simp_all add: startswith_def)
  then have c: "common_client u srv ''p4://perforce:1666'' h = (Inl ValueError, h)"
    by (simp add: common_client_def)
  then show ?thesis using i
    by (simp add: pullcommon_def pushcommon_def push_def)
qed

subsection \<open>Resolving the author\<close>

lemma runone_calls: "snd (runone srv cl cmd abort form h) = h @ [the_call cl cmd [] None form]"
  by (simp add: runone_def run_def Let_def split: prod.splits list.splits option.splits)

lemma getuser_regex:
  assumes "cached cl user (Some cn) = None" "clientuser u = Some cu" "cu \<noteq> []" "CHR '' '' \<in> set cu"
  shows "getuser u srv cl user (Some cn) h =
    (let vf = re_subn u (fst (split1 CHR '' '' cu))
                (case snd (split1 CHR '' '' cu) of Some cur \<Rightarrow> cur | None \<Rightarrow> []) cn
     in if snd vf \<noteq> 0
        then (Inr (capwords u (fst vf)),
              cl\<lparr>usercache := (usercache cl)((user, Some cn) \<mapsto> capwords u (fst vf))\<rparr>, h)
        else (Inr user, cl, h))"
  using assms by (simp add: getuser_def Let_def split: prod.splits)

lemma getuser_script:
  assumes "cached cl user (Some cn) = None" "clientuser u = Some cu" "cu \<noteq> []" "CHR '' '' \<notin> set cu"
    "root cl = Some rt"
  shows "getuser u srv cl user (Some cn) h =
    (case script u cu cn user of
       Some r \<Rightarrow> if r \<noteq> [] then (Inr r, cl\<lparr>usercache := (usercache cl)((user, Some cn) \<mapsto> r)\<rparr>, h)
                 else (Inr user, cl, h)
     | None \<Rightarrow> (Inr user, cl, h))"
  using assms by (simp add: getuser_def)

lemma getuser_server:
  assumes "cached cl user c = None" "clientuser u = None \<or> clientuser u = Some []"
  shows "getuser u srv cl user c h = server_user u srv cl user h"
  using assms by (auto simp: getuser_def)

lemma server_user_calls:
  "snd (snd (server_user u srv cl user h)) = h @ [the_call cl [''user'', ''-o'', shellquote u user] [] None None]"
proof -
  obtain r h' where r: "runone srv cl [''user'', ''-o'', shellquote u user] False None h = (r, h')"
    by (cases "runone srv cl [''user'', ''-o'', shellquote u user] False None h")
  with runone_calls [of srv cl "[''user'', ''-o'', shellquote u user]" False None h]
  have h': "h' = h @ [the_call cl [''user'', ''-o'', shellquote u user] [] None None]" by simp
  show ?thesis
    by (simp add: server_user_def r h' split: sum.splits option.splits)
qed

text \<open>
  Claim C7, as the code has it.  A user that is in the cache is returned from it, and
  nothing else is done.  When the user is not in the cache, exactly one
  mechanism is tried, the one that the setting \<^verbatim>\<open>clientuser\<close> selects.  With a space
  in the setting it is the regular expression, applied to the client name, and the
  server is not asked.  With a setting without a space it is the script, and the server
  is not asked.  Only when the setting is absent or empty the server is asked, with one
  \<^verbatim>\<open>user -o\<close>.  Where the selected mechanism gives nothing (no substitution made, an
  empty last line, an answer that lacks the update time, the name or the address), the
  result is the user name itself.
\<close>

theorem getuser_by_clientuser:
  "(\<forall>r. cached cl user (Some cn) = Some r \<longrightarrow>
      getuser u srv cl user (Some cn) h = (Inr r, cl, h)) \<and>
   (cached cl user (Some cn) = None \<longrightarrow>
     (\<forall>cu. clientuser u = Some cu \<and> cu \<noteq> [] \<and> CHR '' '' \<in> set cu \<longrightarrow>
        getuser u srv cl user (Some cn) h =
          (let vf = re_subn u (fst (split1 CHR '' '' cu))
                      (case snd (split1 CHR '' '' cu) of Some cur \<Rightarrow> cur | None \<Rightarrow> []) cn
           in if snd vf \<noteq> 0
              then (Inr (capwords u (fst vf)),
                    cl\<lparr>usercache := (usercache cl)((user, Some cn) \<mapsto> capwords u (fst vf))\<rparr>, h)
              else (Inr user, cl, h))) \<and>
     (\<forall>cu rt. clientuser u = Some cu \<and> cu \<noteq> [] \<and> CHR '' '' \<notin> set cu \<and> root cl = Some rt \<longrightarrow>
        getuser u srv cl user (Some cn) h =
          (case script u cu cn user of
             Some r \<Rightarrow>
               if r \<noteq> []
               then (Inr r, cl\<lparr>usercache := (usercache cl)((user, Some cn) \<mapsto> r)\<rparr>, h)
               else (Inr user, cl, h)
           | None \<Rightarrow> (Inr user, cl, h))) \<and>
     (clientuser u = None \<or> clientuser u = Some [] \<longrightarrow>
        getuser u srv cl user (Some cn) h = server_user u srv cl user h \<and>
        snd (snd (getuser u srv cl user (Some cn) h)) =
          h @ [the_call cl [''user'', ''-o'', shellquote u user] [] None None] \<and>
        fst (getuser u srv cl user (Some cn) h) =
          (case fst (runone srv cl [''user'', ''-o'', shellquote u user] False None h) of
             Inl e \<Rightarrow> Inl e
           | Inr d \<Rightarrow>
               (case (map_of d ''Update'', map_of d ''FullName'', map_of d ''Email'') of
                  (Some upd, Some full, Some email) \<Rightarrow>
                    Inr (str_val full @ '' <'' @ str_val email @ ''>'')
                | _ \<Rightarrow> Inr user))))"
proof (intro conjI allI impI)
  fix r
  assume "cached cl user (Some cn) = Some r"
  then show "getuser u srv cl user (Some cn) h = (Inr r, cl, h)"
    by (simp add: getuser_def)
next
  fix cu
  assume miss: "cached cl user (Some cn) = None"
  assume "clientuser u = Some cu \<and> cu \<noteq> [] \<and> CHR '' '' \<in> set cu"
  then show "getuser u srv cl user (Some cn) h =
          (let vf = re_subn u (fst (split1 CHR '' '' cu))
                      (case snd (split1 CHR '' '' cu) of Some cur \<Rightarrow> cur | None \<Rightarrow> []) cn
           in if snd vf \<noteq> 0
              then (Inr (capwords u (fst vf)),
                    cl\<lparr>usercache := (usercache cl)((user, Some cn) \<mapsto> capwords u (fst vf))\<rparr>, h)
              else (Inr user, cl, h))"
    using getuser_regex [OF miss] by blast
next
  fix cu rt
  assume miss: "cached cl user (Some cn) = None"
  assume "clientuser u = Some cu \<and> cu \<noteq> [] \<and> CHR '' '' \<notin> set cu \<and> root cl = Some rt"
  then show "getuser u srv cl user (Some cn) h =
          (case script u cu cn user of
             Some r \<Rightarrow>
               if r \<noteq> []
               then (Inr r, cl\<lparr>usercache := (usercache cl)((user, Some cn) \<mapsto> r)\<rparr>, h)
               else (Inr user, cl, h)
           | None \<Rightarrow> (Inr user, cl, h))"
    using getuser_script [OF miss] by blast
next
  assume miss: "cached cl user (Some cn) = None"
  assume c: "clientuser u = None \<or> clientuser u = Some []"
  show g: "getuser u srv cl user (Some cn) h = server_user u srv cl user h"
    using miss c by (rule getuser_server)
  show "snd (snd (getuser u srv cl user (Some cn) h)) =
      h @ [the_call cl [''user'', ''-o'', shellquote u user] [] None None]"
    unfolding g by (rule server_user_calls)
  obtain r h' where r: "runone srv cl [''user'', ''-o'', shellquote u user] False None h = (r, h')"
    by (cases "runone srv cl [''user'', ''-o'', shellquote u user] False None h")
  show "fst (getuser u srv cl user (Some cn) h) =
          (case fst (runone srv cl [''user'', ''-o'', shellquote u user] False None h) of
             Inl e \<Rightarrow> Inl e
           | Inr d \<Rightarrow>
               (case (map_of d ''Update'', map_of d ''FullName'', map_of d ''Email'') of
                  (Some upd, Some full, Some email) \<Rightarrow>
                    Inr (str_val full @ '' <'' @ str_val email @ ''>'')
                | _ \<Rightarrow> Inr user))"
    unfolding g by (simp add: server_user_def r split: sum.splits option.splits)
qed

theorem getuser_by_clientuser_witness:
  "cached (new_client ''perforce:1666'') ''build'' (Some ''ws-jane'') = None \<and>
   getuser (example_ui\<lparr>clientuser := Some ''ws-jane jane.roe'',
        re_subn := (\<lambda>pat repl s. (''jane.roe'', 1)), capwords := (\<lambda>s. ''Jane.roe'')\<rparr>)
      user_server (new_client ''perforce:1666'') ''build'' (Some ''ws-jane'') [] =
     (Inr ''Jane.roe'',
      (new_client ''perforce:1666'')\<lparr>usercache :=
         Map.empty((''build'', Some ''ws-jane'') \<mapsto> ''Jane.roe'')\<rparr>, []) \<and>
   fst (getuser example_ui user_server (new_client ''perforce:1666'') ''build''
      (Some ''ws-jane'') []) = Inr ''J. Doe <jd@example.com>'' \<and>
   cached ((new_client ''perforce:1666'')\<lparr>usercache :=
         Map.empty((''build'', None) \<mapsto> ''B. Bot <bb@example.com>'')\<rparr>)
      ''build'' (Some ''ws-jane'') = Some ''B. Bot <bb@example.com>'' \<and>
   getuser example_ui user_server
      ((new_client ''perforce:1666'')\<lparr>usercache :=
         Map.empty((''build'', None) \<mapsto> ''B. Bot <bb@example.com>'')\<rparr>)
      ''build'' (Some ''ws-jane'') [] =
     (Inr ''B. Bot <bb@example.com>'',
      (new_client ''perforce:1666'')\<lparr>usercache :=
         Map.empty((''build'', None) \<mapsto> ''B. Bot <bb@example.com>'')\<rparr>, [])"
proof -
  let ?cl = "new_client ''perforce:1666''"
  let ?clh = "(new_client ''perforce:1666'')\<lparr>usercache :=
         Map.empty((''build'', None) \<mapsto> ''B. Bot <bb@example.com>'')\<rparr>"
  let ?u = "example_ui\<lparr>clientuser := Some ''ws-jane jane.roe'',
        re_subn := (\<lambda>pat repl s. (''jane.roe'', 1)), capwords := (\<lambda>s. ''Jane.roe'')\<rparr>"
  have miss: "cached ?cl ''build'' (Some ''ws-jane'') = None"
    by (simp add: cached_def new_client_def)
  have hit: "cached ?clh ''build'' (Some ''ws-jane'') = Some ''B. Bot <bb@example.com>''"
    by (simp add: cached_def new_client_def)
  have cu: "clientuser ?u = Some ''ws-jane jane.roe'' \<and> ''ws-jane jane.roe'' \<noteq> [] \<and>
      CHR '' '' \<in> set ''ws-jane jane.roe''" by simp
  from getuser_by_clientuser [of ?cl "''build''" "''ws-jane''" ?u user_server "[]"] miss cu
  have "getuser ?u user_server ?cl ''build'' (Some ''ws-jane'') [] =
      (let vf = re_subn ?u (fst (split1 CHR '' '' ''ws-jane jane.roe''))
                  (case snd (split1 CHR '' '' ''ws-jane jane.roe'') of
                     Some cur \<Rightarrow> cur | None \<Rightarrow> []) ''ws-jane''
       in if snd vf \<noteq> 0
          then (Inr (capwords ?u (fst vf)),
                ?cl\<lparr>usercache := (usercache ?cl)((''build'', Some ''ws-jane'') \<mapsto>
                   capwords ?u (fst vf))\<rparr>, [])
          else (Inr ''build'', ?cl, []))"
    by blast
  then have r1: "getuser ?u user_server ?cl ''build'' (Some ''ws-jane'') [] =
     (Inr ''Jane.roe'',
      ?cl\<lparr>usercache := Map.empty((''build'', Some ''ws-jane'') \<mapsto> ''Jane.roe'')\<rparr>, [])"
    by (simp add: new_client_def)
  have no: "clientuser example_ui = None \<or> clientuser example_ui = Some []"
    by (simp add: example_ui_def)
  from getuser_by_clientuser [of ?cl "''build''" "''ws-jane''" example_ui user_server "[]"] miss no
  have "fst (getuser example_ui user_server ?cl ''build'' (Some ''ws-jane'') []) =
          (case fst (runone user_server ?cl
                       [''user'', ''-o'', shellquote example_ui ''build''] False None []) of
             Inl e \<Rightarrow> Inl e
           | Inr d \<Rightarrow>
               (case (map_of d ''Update'', map_of d ''FullName'', map_of d ''Email'') of
                  (Some upd, Some full, Some email) \<Rightarrow>
                    Inr (str_val full @ '' <'' @ str_val email @ ''>'')
                | _ \<Rightarrow> Inr ''build''))"
    by blast
  then have r2: "fst (getuser example_ui user_server ?cl ''build'' (Some ''ws-jane'') []) =
      Inr ''J. Doe <jd@example.com>''"
    by (simp add: runone_def run_def loaditer_def user_server_def str_val_def)
  from getuser_by_clientuser [of ?clh "''build''" "''ws-jane''" example_ui user_server "[]"] hit
  have r3: "getuser example_ui user_server ?clh ''build'' (Some ''ws-jane'') [] =
      (Inr ''B. Bot <bb@example.com>'', ?clh, [])"
    by blast
  from miss r1 r2 hit r3 show ?thesis by blast
qed

text \<open>
  Claim C7 as stated fails.  With a regular expression configured that maps the client
  \<^verbatim>\<open>ws-jane\<close> to a user, \<^verbatim>\<open>getuser\<close> returns the mapped name and makes no call
  to the server, although the server knows the user; the order of the specification
  gives the name from the server.
\<close>

theorem getuser_regex_not_after_server:
  "getuser (example_ui\<lparr>clientuser := Some ''ws-jane jane.roe'',
        re_subn := (\<lambda>pat repl s. (''jane.roe'', 1)), capwords := (\<lambda>s. ''Jane.roe'')\<rparr>)
      user_server (new_client ''perforce:1666'') ''build'' (Some ''ws-jane'') [] =
     (Inr ''Jane.roe'',
      (new_client ''perforce:1666'')\<lparr>usercache :=
         Map.empty((''build'', Some ''ws-jane'') \<mapsto> ''Jane.roe'')\<rparr>, []) \<and>
   first_nonempty_user (example_ui\<lparr>clientuser := Some ''ws-jane jane.roe'',
        re_subn := (\<lambda>pat repl s. (''jane.roe'', 1)), capwords := (\<lambda>s. ''Jane.roe'')\<rparr>)
      user_server (new_client ''perforce:1666'') ''build'' ''ws-jane'' [] =
     ''J. Doe <jd@example.com>''"
proof (rule conjI)
  show "getuser (example_ui\<lparr>clientuser := Some ''ws-jane jane.roe'',
        re_subn := (\<lambda>pat repl s. (''jane.roe'', 1)), capwords := (\<lambda>s. ''Jane.roe'')\<rparr>)
      user_server (new_client ''perforce:1666'') ''build'' (Some ''ws-jane'') [] =
     (Inr ''Jane.roe'',
      (new_client ''perforce:1666'')\<lparr>usercache :=
         Map.empty((''build'', Some ''ws-jane'') \<mapsto> ''Jane.roe'')\<rparr>, [])"
    by (simp add: getuser_def example_ui_def cached_def new_client_def split1_def)
  show "first_nonempty_user (example_ui\<lparr>clientuser := Some ''ws-jane jane.roe'',
        re_subn := (\<lambda>pat repl s. (''jane.roe'', 1)), capwords := (\<lambda>s. ''Jane.roe'')\<rparr>)
      user_server (new_client ''perforce:1666'') ''build'' ''ws-jane'' [] =
     ''J. Doe <jd@example.com>''"
    by (simp add: first_nonempty_user_def lookup_result_def runone_def run_def loaditer_def
        user_server_def str_val_def)
qed

subsection \<open>The cache of pending and submitted changelists\<close>

lemma set_fold_insert: "set (fold List.insert xs s) = set xs \<union> set s"
  by (induction xs arbitrary: s) auto

lemma yielded_all: "yielded abort ds = (ds', None) \<Longrightarrow> ds' = ds"
proof (induction ds arbitrary: ds')
  case Nil
  then show ?case by simp
next
  case (Cons d ds)
  obtain xs e where y: "yielded abort ds = (xs, e)" by (cases "yielded abort ds")
  from Cons.prems y have e: "e = None" and ds': "ds' = d # xs"
    by (auto split: option.splits p4val.splits if_splits)
  from Cons.IH [of xs] y e have "xs = ds" by simp
  with ds' show ?case by simp
qed

lemma run_all:
  "run srv cl cmd fs abort c form h = ((ds, None), h') \<Longrightarrow>
   h' = h @ [the_call cl cmd fs c form] \<and> ds = loaditer (srv (h @ [the_call cl cmd fs c form]))"
  by (auto simp: run_def Let_def dest: yielded_all)

text \<open>
  One dictionary: it is passed over when its number is \<open>p4id\<close>; otherwise its entry
  is appended to the list and its nodes are put into the set.  Nothing else changes.
\<close>

lemma helper_entry:
  assumes "helper r cl d p4id = Inr cl'" and "p4stat cl = Some s"
  shows "(if change_of d = Some p4id then cl' = cl
          else cl' = cl\<lparr>p4pending := p4pending cl @ [entry r d],
                         p4stat := Some (fold List.insert (fst (snd (snd (entry r d)))) s)\<rparr>)"
proof -
  from assms(1) obtain v c where v: "map_of d ''change'' = Some v" and c: "py_int v = Some c"
    by (auto simp: helper_def split: option.splits)
  show ?thesis
  proof (cases "c = p4id")
    case True
    with assms v c show ?thesis by (simp add: helper_def change_of_def)
  next
    case False
    with assms v c show ?thesis
      by (auto simp: helper_def Let_def change_of_def entry_def str_of_def getstr_def
          split: option.splits p4val.splits)
  qed
qed

lemma helpers_entries:
  assumes "helpers r cl ds p4id = (None, cl')" and "p4stat cl = Some s"
  shows "p4pending cl' =
           p4pending cl @ map (entry r) (filter (\<lambda>d. change_of d \<noteq> Some p4id) ds) \<and>
         (\<exists>s'. p4stat cl' = Some s' \<and>
            set s' = set s \<union>
              (\<Union>d\<in>set (filter (\<lambda>d. change_of d \<noteq> Some p4id) ds).
                 set (fst (snd (snd (entry r d)))))) \<and>
         server cl' = server cl \<and> client cl' = client cl \<and> root cl' = root cl \<and>
         partial cl' = partial cl"
  using assms
proof (induction ds arbitrary: cl s)
  case Nil
  then show ?case by simp
next
  case (Cons d ds)
  from Cons.prems(1) obtain cl1 where h: "helper r cl d p4id = Inr cl1"
    and rest: "helpers r cl1 ds p4id = (None, cl')"
    by (auto split: sum.splits)
  note e = helper_entry [OF h Cons.prems(2)]
  show ?case
  proof (cases "change_of d = Some p4id")
    case True
    with e have "cl1 = cl" by simp
    with Cons.IH [OF rest [unfolded this] Cons.prems(2)] True show ?thesis by simp
  next
    case False
    with e have cl1: "cl1 = cl\<lparr>p4pending := p4pending cl @ [entry r d],
        p4stat := Some (fold List.insert (fst (snd (snd (entry r d)))) s)\<rparr>" by simp
    then have s1: "p4stat cl1 = Some (fold List.insert (fst (snd (snd (entry r d)))) s)" by simp
    from Cons.IH [OF rest s1] obtain s' where
      p: "p4pending cl' =
            p4pending cl1 @ map (entry r) (filter (\<lambda>d. change_of d \<noteq> Some p4id) ds)"
      and st: "p4stat cl' = Some s'"
      and ss: "set s' = set (fold List.insert (fst (snd (snd (entry r d)))) s) \<union>
              (\<Union>d\<in>set (filter (\<lambda>d. change_of d \<noteq> Some p4id) ds).
                 set (fst (snd (snd (entry r d)))))"
      and f: "server cl' = server cl1" "client cl' = client cl1" "root cl' = root cl1"
        "partial cl' = partial cl1"
      by blast
    from p False have "p4pending cl' =
        p4pending cl @ map (entry r) (filter (\<lambda>d. change_of d \<noteq> Some p4id) (d # ds))"
      by (simp add: cl1)
    moreover from ss False have "set s' = set s \<union>
        (\<Union>d\<in>set (filter (\<lambda>d. change_of d \<noteq> Some p4id) (d # ds)).
           set (fst (snd (snd (entry r d)))))"
      by (auto simp: set_fold_insert)
    moreover from f have "server cl' = server cl" "client cl' = client cl" "root cl' = root cl"
      "partial cl' = partial cl"
      by (simp_all add: cl1)
    ultimately show ?thesis using st by blast
  qed
qed

lemma the_call_cache:
  "server cl' = server cl \<Longrightarrow> client cl' = client cl \<Longrightarrow> root cl' = root cl \<Longrightarrow>
   the_call cl' cmd fs c form = the_call cl cmd fs c form"
  by (simp add: the_call_def split: option.splits)

lemma set_sort_entries: "set (sort xs) = set xs"
  by simp

text \<open>
  Claim C4, as the code has it.  After \<^verbatim>\<open>_readp4stat\<close> has returned, with
  \<open>p4id\<close> the changelist number that \<^verbatim>\<open>find\<close> gave, two \<^verbatim>\<open>changes\<close>
  commands have been run, and the cache is made of the dictionaries that the server
  answered to them, those with the number \<open>p4id\<close> left out: the list holds the
  entries of the remaining dictionaries, sorted, and the membership set holds exactly
  the nodes of these entries, which are the nodes that their descriptions refer to.  So
  a node is in the set if and only if the description of a listed changelist other
  than \<open>p4id\<close> refers to it.
\<close>

theorem readp4stat_skips_base:
  assumes "fst (readp4stat u srv r cl h) = None"
    and "find_p4 r None False None False = Inr (p4rev, p4id)"
  shows "\<exists>cn c1 c2 ds.
     client cl = Some cn \<and>
     c1 = the_call cl [''changes'', ''-l'', ''-c'', shellquote u cn,
            shellquote u (str_opt (partial cl) @ ''...@'' @ str_int p4id @ '',#head'')]
            [] None None \<and>
     c2 = the_call cl [''changes'', ''-l'', ''-c'', shellquote u cn, ''-s'', ''pending'']
            [] None None \<and>
     snd (snd (readp4stat u srv r cl h)) = h @ [c1, c2] \<and>
     ds = filter (\<lambda>d. change_of d \<noteq> Some p4id)
            (loaditer (srv (h @ [c1])) @ loaditer (srv (h @ [c1, c2]))) \<and>
     p4pending (fst (snd (readp4stat u srv r cl h))) = sort (map (entry r) ds) \<and>
     (\<exists>s. p4stat (fst (snd (readp4stat u srv r cl h))) = Some s \<and>
          set s = (\<Union>d\<in>set ds. set (fst (parsenodes r (str_of d ''desc'')))))"
proof -
  let ?cl = "cl\<lparr>p4stat := Some [], p4pending := []\<rparr>"
  obtain e cl' h' where res: "readp4stat u srv r cl h = (e, cl', h')"
    by (metis prod.exhaust)
  with assms(1) have ok: "readp4stat u srv r cl h = (None, cl', h')" by simp
  from ok assms(2) obtain cn where cn: "client cl = Some cn"
    by (auto simp: readp4stat_def Let_def split: option.splits)
  let ?cmd1 = "[''changes'', ''-l'', ''-c'', shellquote u cn,
      shellquote u (str_opt (partial cl) @ ''...@'' @ str_int p4id @ '',#head'')]"
  let ?cmd2 = "[''changes'', ''-l'', ''-c'', shellquote u cn, ''-s'', ''pending'']"
  let ?c1 = "the_call cl ?cmd1 [] None None"
  let ?c2 = "the_call cl ?cmd2 [] None None"
  obtain ds1 e1 h1 where r1: "run srv ?cl ?cmd1 [] True None None h = ((ds1, e1), h1)"
    by (metis prod.exhaust)
  from ok assms(2) cn r1 obtain cl1 where c1: "helpers r ?cl ds1 p4id = (None, cl1)"
    and e1: "e1 = None"
    by (auto simp: readp4stat_def Let_def split: option.splits prod.splits)
  obtain ds2 e2 h2 where r2: "run srv cl1 ?cmd2 [] True None None h1 = ((ds2, e2), h2)"
    by (metis prod.exhaust)
  from ok assms(2) cn r1 c1 e1 r2 obtain cl2 where c2: "helpers r cl1 ds2 p4id = (None, cl2)"
    and e2: "e2 = None" and cl': "cl' = cl2\<lparr>p4pending := sort (p4pending cl2)\<rparr>"
    and h': "h' = h2"
    by (auto simp: readp4stat_def Let_def split: option.splits prod.splits)
  have call1: "the_call ?cl ?cmd1 [] None None = ?c1" by (rule the_call_cache) simp_all
  from run_all [OF r1 [unfolded e1]] have h1: "h1 = h @ [?c1]"
    and d1: "ds1 = loaditer (srv (h @ [?c1]))"
    unfolding call1 by simp_all
  have s0: "p4stat ?cl = Some []" by simp
  from helpers_entries [OF c1 s0] obtain s1 where
    p1: "p4pending cl1 = map (entry r) (filter (\<lambda>d. change_of d \<noteq> Some p4id) ds1)"
    and st1: "p4stat cl1 = Some s1"
    and ss1: "set s1 = (\<Union>d\<in>set (filter (\<lambda>d. change_of d \<noteq> Some p4id) ds1).
        set (fst (snd (snd (entry r d)))))"
    and f1: "server cl1 = server cl" "client cl1 = client cl" "root cl1 = root cl"
    by auto
  have call2: "the_call cl1 ?cmd2 [] None None = ?c2"
    using f1 by (rule the_call_cache)
  from run_all [OF r2 [unfolded e2]] have h2: "h2 = h @ [?c1, ?c2]"
    and d2: "ds2 = loaditer (srv (h @ [?c1, ?c2]))"
    unfolding call2 h1 by simp_all
  from helpers_entries [OF c2 st1] obtain s2 where
    p2: "p4pending cl2 =
      p4pending cl1 @ map (entry r) (filter (\<lambda>d. change_of d \<noteq> Some p4id) ds2)"
    and st2: "p4stat cl2 = Some s2"
    and ss2: "set s2 = set s1 \<union> (\<Union>d\<in>set (filter (\<lambda>d. change_of d \<noteq> Some p4id) ds2).
        set (fst (snd (snd (entry r d)))))"
    by auto
  let ?ds = "filter (\<lambda>d. change_of d \<noteq> Some p4id)
      (loaditer (srv (h @ [?c1])) @ loaditer (srv (h @ [?c1, ?c2])))"
  have pend: "p4pending cl' = sort (map (entry r) ?ds)"
    by (simp add: cl' p2 p1 d1 d2)
  have stat: "p4stat cl' = Some s2" by (simp add: cl' st2)
  have nodes: "set s2 = (\<Union>d\<in>set ?ds. set (fst (parsenodes r (str_of d ''desc''))))"
    unfolding ss2 ss1 d1 d2 by (auto simp: entry_def)
  have "client cl = Some cn \<and> ?c1 = ?c1 \<and> ?c2 = ?c2 \<and>
     snd (snd (readp4stat u srv r cl h)) = h @ [?c1, ?c2] \<and> ?ds = ?ds \<and>
     p4pending (fst (snd (readp4stat u srv r cl h))) = sort (map (entry r) ?ds) \<and>
     (\<exists>s. p4stat (fst (snd (readp4stat u srv r cl h))) = Some s \<and>
          set s = (\<Union>d\<in>set ?ds. set (fst (parsenodes r (str_of d ''desc'')))))"
    using cn pend stat nodes by (simp add: res h' h2)
  then show ?thesis by blast
qed

theorem readp4stat_skips_base_witness:
  "fst (readp4stat example_ui changes_server example_repo example_client []) = None \<and>
   find_p4 example_repo None False None False = Inr (''pppppppppppppppppppp'', 5) \<and>
   (\<exists>cn c1 c2 ds.
     client example_client = Some cn \<and>
     c1 = the_call example_client [''changes'', ''-l'', ''-c'', shellquote example_ui cn,
            shellquote example_ui
              (str_opt (partial example_client) @ ''...@'' @ str_int 5 @ '',#head'')]
            [] None None \<and>
     c2 = the_call example_client
            [''changes'', ''-l'', ''-c'', shellquote example_ui cn, ''-s'', ''pending'']
            [] None None \<and>
     snd (snd (readp4stat example_ui changes_server example_repo example_client [])) =
       [] @ [c1, c2] \<and>
     ds = filter (\<lambda>d. change_of d \<noteq> Some 5)
            (loaditer (changes_server ([] @ [c1])) @ loaditer (changes_server ([] @ [c1, c2]))) \<and>
     p4pending (fst (snd (readp4stat example_ui changes_server example_repo example_client []))) =
       sort (map (entry example_repo) ds) \<and>
     (\<exists>s. p4stat (fst (snd (readp4stat example_ui changes_server example_repo
                                example_client []))) = Some s \<and>
          set s = (\<Union>d\<in>set ds. set (fst (parsenodes example_repo (str_of d ''desc'')))))) \<and>
   p4pending (fst (snd (readp4stat example_ui changes_server example_repo example_client []))) =
     [(7, False, [''aaaaaaaaaaaaaaaaaaaa''],
       ''again\<newline>\<newline>{{mercurial 6161616161616161616161616161616161616161}}\<newline>'',
       ''ws-client'')]"
proof -
  have h1: "fst (readp4stat example_ui changes_server example_repo example_client []) = None"
    by code_simp
  have h2: "find_p4 example_repo None False None False = Inr (''pppppppppppppppppppp'', 5)"
    by code_simp
  have h3: "p4pending (fst (snd (readp4stat example_ui changes_server example_repo
      example_client []))) =
     [(7, False, [''aaaaaaaaaaaaaaaaaaaa''],
       ''again\<newline>\<newline>{{mercurial 6161616161616161616161616161616161616161}}\<newline>'',
       ''ws-client'')]"
    by code_simp
  from h1 h2 h3 readp4stat_skips_base [OF h1 h2] show ?thesis by blast
qed

text \<open>
  Claim C4 as stated fails.  The changeset that \<^verbatim>\<open>find\<close> returns was made from
  changelist 5, whose description refers to the first changeset of the repository.
  The pending changelist 7 refers to the same changeset.  The dictionary of changelist 5
  is skipped, but its node enters the membership set through changelist 7.
\<close>

theorem readp4stat_node_of_base:
  "find_p4 example_repo None False None False = Inr (''pppppppppppppppppppp'', 5) \<and>
   fst (parsenodes example_repo
     ''first\<newline>\<newline>{{mercurial 6161616161616161616161616161616161616161}}\<newline>'') =
     [''aaaaaaaaaaaaaaaaaaaa''] \<and>
   fst (readp4stat example_ui changes_server example_repo example_client []) = None \<and>
   p4stat (fst (snd (readp4stat example_ui changes_server example_repo example_client []))) =
     Some [''aaaaaaaaaaaaaaaaaaaa'']"
  by (intro conjI; code_simp)

subsection \<open>Changesets that are already in p4\<close>

lemma adds_refl: "adds ws h h"
  by (simp add: adds_def)

lemma adds_trans: "adds ws h h1 \<Longrightarrow> adds ws h1 h2 \<Longrightarrow> adds ws h h2"
  by (auto simp: adds_def)

lemma adds_mono: "adds ws h h' \<Longrightarrow> ws \<subseteq> ws' \<Longrightarrow> adds ws' h h'"
  by (auto simp: adds_def)

lemma run_adds: "run srv cl (w # cmd) fs abort c form h = (res, h') \<Longrightarrow> adds {w} h h'"
  by (auto simp: run_def Let_def adds_def the_call_def)

lemma runone_adds: "runone srv cl (w # cmd) abort form h = (res, h') \<Longrightarrow> adds {w} h h'"
proof -
  assume a: "runone srv cl (w # cmd) abort form h = (res, h')"
  obtain x hx where r: "run srv cl (w # cmd) [] abort None form h = (x, hx)" by (metis prod.exhaust)
  with a have "h' = hx"
    by (auto simp: runone_def split: prod.splits list.splits option.splits)
  with run_adds [OF r] show ?thesis by simp
qed

lemma runs_adds: "runs srv cl (w # cmd) fs abort c h = (res, h') \<Longrightarrow> adds {w} h h'"
proof -
  assume a: "runs srv cl (w # cmd) fs abort c h = (res, h')"
  obtain x hx where r: "run srv cl (w # cmd) fs abort c None h = (x, hx)" by (metis prod.exhaust)
  with a have "h' = hx" by (auto simp: runs_def split: prod.splits)
  with run_adds [OF r] show ?thesis by simp
qed

lemma p4client_init_adds: "p4client_init u srv path h = (res, h') \<Longrightarrow> adds {''client''} h h'"
proof -
  assume a: "p4client_init u srv path h = (res, h')"
  show ?thesis
  proof (cases "h' = h")
    case True
    then show ?thesis by (simp add: adds_refl)
  next
    case False
    with a obtain cl c x where
      "runone srv cl [''client'', ''-o'', shellquote u c] False None h = (x, h')"
      by (auto simp: p4client_init_def Let_def
          split: if_splits prod.splits option.splits sum.splits p4val.splits)
    then show ?thesis by (rule runone_adds)
  qed
qed


lemma helper_stat: "helper r cl d p4id = Inr cl' \<Longrightarrow> p4stat cl \<noteq> None \<Longrightarrow> p4stat cl' \<noteq> None"
  by (auto simp: helper_def Let_def split: option.splits if_splits)

lemma helpers_stat: "helpers r cl ds p4id = (e, cl') \<Longrightarrow> p4stat cl \<noteq> None \<Longrightarrow> p4stat cl' \<noteq> None"
proof (induction ds arbitrary: cl)
  case Nil
  then show ?case by simp
next
  case (Cons d ds)
  show ?case
  proof (cases "helper r cl d p4id")
    case (Inl x)
    with Cons.prems show ?thesis by simp
  next
    case (Inr cl1)
    with Cons.prems have "helpers r cl1 ds p4id = (e, cl')" by simp
    from Cons.IH [OF this helper_stat [OF Inr Cons.prems(2)]] show ?thesis .
  qed
qed

lemma readp4stat_result:
  assumes "readp4stat u srv r cl h = (e, cl', h')"
  shows "p4stat cl' \<noteq> None \<and> adds {''changes''} h h'"
proof -
  let ?cl = "cl\<lparr>p4stat := Some [], p4pending := []\<rparr>"
  have s0: "p4stat ?cl \<noteq> None" by simp
  show ?thesis
  proof (cases "find_p4 r None False None False")
    case (Inl x)
    with assms show ?thesis by (auto simp: readp4stat_def Let_def adds_refl)
  next
    case (Inr pr)
    obtain p4rev p4id where pr: "pr = (p4rev, p4id)" by (cases pr)
    show ?thesis
    proof (cases "client ?cl")
      case None
      with assms Inr pr show ?thesis by (auto simp: readp4stat_def Let_def adds_refl)
    next
      case (Some cn)
      obtain ds1 e1 h1 where r1: "run srv ?cl [''changes'', ''-l'', ''-c'', shellquote u cn,
          shellquote u (str_opt (partial ?cl) @ ''...@'' @ str_int p4id @ '',#head'')]
          [] True None None h = ((ds1, e1), h1)"
        by (metis prod.exhaust)
      obtain x1 cl1 where c1: "helpers r ?cl ds1 p4id = (x1, cl1)" by (metis prod.exhaust)
      note s1 = helpers_stat [OF c1 s0]
      note a1 = run_adds [OF r1]
      show ?thesis
      proof (cases "x1 = None \<and> e1 = None")
        case False
        with assms Inr pr Some r1 c1 have "cl' = cl1 \<and> h' = h1"
          by (auto simp: readp4stat_def Let_def split: option.splits)
        with s1 a1 show ?thesis by simp
      next
        case True
        obtain ds2 e2 h2 where r2: "run srv cl1
            [''changes'', ''-l'', ''-c'', shellquote u cn, ''-s'', ''pending'']
            [] True None None h1 = ((ds2, e2), h2)"
          by (metis prod.exhaust)
        obtain x2 cl2 where c2: "helpers r cl1 ds2 p4id = (x2, cl2)" by (metis prod.exhaust)
        note s2 = helpers_stat [OF c2 s1]
        note a2 = adds_trans [OF a1 run_adds [OF r2]]
        from assms Inr pr Some r1 c1 True r2 c2
        have "h' = h2 \<and> (cl' = cl2 \<or> cl' = cl2\<lparr>p4pending := sort (p4pending cl2)\<rparr>)"
          by (auto simp: readp4stat_def Let_def split: option.splits)
        with s2 a2 show ?thesis by auto
      qed
    qed
  qed
qed

lemma getpending_cached:
  "p4stat cl = Some s \<Longrightarrow> getpending u srv r cl n h = (Inr (n \<in> set s), cl, h)"
  by (simp add: getpending_def)

lemma getpending_result:
  assumes "getpending u srv r cl n h = (res, cl', h')"
  shows "adds {''changes''} h h'" and "p4stat cl' \<noteq> None"
proof -
  show "adds {''changes''} h h'"
  proof (cases "p4stat cl")
    case (Some s)
    with assms show ?thesis by (simp add: getpending_def adds_refl)
  next
    case None
    obtain x cl1 h1 where r: "readp4stat u srv r cl h = (x, cl1, h1)" by (metis prod.exhaust)
    with assms None have "h' = h1" by (auto simp: getpending_def split: option.splits)
    with readp4stat_result [OF r] show ?thesis by simp
  qed
  show "p4stat cl' \<noteq> None"
  proof (cases "p4stat cl")
    case (Some s)
    with assms show ?thesis by (auto simp: getpending_def)
  next
    case None
    obtain x cl1 h1 where r: "readp4stat u srv r cl h = (x, cl1, h1)" by (metis prod.exhaust)
    with assms None have "cl' = cl1" by (auto simp: getpending_def split: option.splits)
    with readp4stat_result [OF r] show ?thesis by simp
  qed
qed


lemma trim_pending_cached:
  "p4stat cl = Some s \<Longrightarrow>
   trim_pending u srv r cl nodes h =
     (Inr (dropWhile (\<lambda>n. n \<in> set s) nodes, takeWhile (\<lambda>n. n \<in> set s) nodes \<noteq> []), cl, h)"
  by (induction nodes) (simp_all add: getpending_cached)

lemma trim_pending_result:
  assumes "trim_pending u srv r cl nodes h = (res, cl', h')"
  shows "adds {''changes''} h h'"
    and "nodes \<noteq> [] \<Longrightarrow> p4stat cl' \<noteq> None"
    and "res = Inr (ns, t) \<Longrightarrow> set ns \<subseteq> set nodes"
proof -
  have "adds {''changes''} h h' \<and> (nodes \<noteq> [] \<longrightarrow> p4stat cl' \<noteq> None) \<and>
      (res = Inr (ns, t) \<longrightarrow> set ns \<subseteq> set nodes)"
  proof (cases nodes)
    case Nil
    with assms show ?thesis by (auto simp: adds_refl)
  next
    case (Cons n ns0)
    obtain x cl1 h1 where g: "getpending u srv r cl n h = (x, cl1, h1)" by (metis prod.exhaust)
    from getpending_result [OF g] obtain s where a1: "adds {''changes''} h h1" and s1: "p4stat cl1 = Some s"
      by auto
    show ?thesis
    proof (cases x)
      case (Inl e)
      with assms Cons g a1 s1 show ?thesis by auto
    next
      case (Inr b)
      show ?thesis
      proof (cases b)
        case False
        with assms Cons g Inr a1 s1 show ?thesis by auto
      next
        case True
        with assms Cons g Inr s1 have "res = Inr (dropWhile (\<lambda>n. n \<in> set s) ns0, True)"
          and "cl' = cl1" and "h' = h1"
          by (auto simp: trim_pending_cached [OF s1])
        with a1 s1 Cons show ?thesis by (auto dest: set_dropWhileD)
      qed
    qed
  qed
  then show "adds {''changes''} h h'"
    and "nodes \<noteq> [] \<Longrightarrow> p4stat cl' \<noteq> None"
    and "res = Inr (ns, t) \<Longrightarrow> set ns \<subseteq> set nodes"
    by blast+
qed

lemma trim_pushed_result:
  assumes "trim_pushed u srv r cl nodes h = (res, cl', h')"
  shows "adds {''changes''} h h'"
    and "res = Inr (ns, t) \<Longrightarrow> ns \<noteq> [] \<Longrightarrow> p4stat cl' \<noteq> None"
proof -
  obtain x1 cl1 h1 where t1: "trim_pending u srv r cl nodes h = (x1, cl1, h1)" by (metis prod.exhaust)
  note r1 = trim_pending_result [OF t1]
  have "adds {''changes''} h h' \<and> (res = Inr (ns, t) \<longrightarrow> ns \<noteq> [] \<longrightarrow> p4stat cl' \<noteq> None)"
  proof (cases x1)
    case (Inl e)
    with assms t1 r1(1) show ?thesis by (auto simp: trim_pushed_def)
  next
    case (Inr nt)
    obtain ns1 t1' where nt: "nt = (ns1, t1')" by (cases nt)
    obtain x2 cl2 h2 where t2: "trim_pending u srv r cl1 (rev ns1) h1 = (x2, cl2, h2)" by (metis prod.exhaust)
    note r2 = trim_pending_result [OF t2]
    from assms t1 Inr nt t2 have h': "h' = h2" and cl': "cl' = cl2"
      by (auto simp: trim_pushed_def split: sum.splits)
    have a: "adds {''changes''} h h'" unfolding h' using r1(1) r2(1) by (rule adds_trans)
    have "p4stat cl' \<noteq> None" if "res = Inr (ns, t)" "ns \<noteq> []"
    proof -
      from assms t1 Inr nt t2 that obtain ns2 t2' where x2: "x2 = Inr (ns2, t2')" and "ns = rev ns2"
        by (auto simp: trim_pushed_def split: sum.splits)
      with that r2(3) [OF x2] have "rev ns1 \<noteq> []" by auto
      from r2(2) [OF this] show ?thesis by (simp add: cl')
    qed
    with a show ?thesis by blast
  qed
  then show "adds {''changes''} h h'"
    and "res = Inr (ns, t) \<Longrightarrow> ns \<noteq> [] \<Longrightarrow> p4stat cl' \<noteq> None"
    by blast+
qed

lemma check_pushed_cached:
  "p4stat cl = Some s \<Longrightarrow>
   check_pushed u srv r cl ns h =
     (case List.find (\<lambda>n. n \<in> set s \<or> child_in_p4 r n) ns of
        Some n \<Rightarrow> (Some (Abort (''can not push, changeset '' @ short n @ '' is already in p4'')), cl, h)
      | None \<Rightarrow> (None, cl, h))"
  by (induction ns) (simp_all add: getpending_cached)


lemma common_client_adds: "common_client u srv path h = (res, h') \<Longrightarrow> adds {''client''} h h'"
proof -
  assume a: "common_client u srv path h = (res, h')"
  obtain x hx where i: "p4client_init u srv path h = (x, hx)" by (metis prod.exhaust)
  with a have "h' = hx"
    by (auto simp: common_client_def split: sum.splits error.splits)
  with p4client_init_adds [OF i] show ?thesis by simp
qed

text \<open>
  The two tests that the check of \<^verbatim>\<open>pushcommon\<close> makes.  In a push without
  \<^verbatim>\<open>--force\<close>, let \<open>ns\<close> be the nodes that remain after the nodes already
  pending were trimmed off at either end, and \<open>s\<close> the membership set of the cache.
  If one of the remaining nodes is in the set, or has a child (a direct one) with the
  key \<^verbatim>\<open>p4\<close>, then \<^verbatim>\<open>push\<close> raises the error for the first such node.  The
  calls made are those made up to the trimming: one \<^verbatim>\<open>client -o\<close> and the
  \<^verbatim>\<open>changes\<close> commands that fill the cache.  No \<^verbatim>\<open>change\<close> command is among
  them, so no changelist is created.
\<close>

theorem push_already_in_p4:
  assumes nf: "\<not> force ops" "\<not> mq ops"
    and cl: "common_client u srv dest h = (Inr (Proceed cl), h1)"
    and fnd: "find_p4 r None True None True = Inr (p4rev, p4id)"
    and rng: "push_range r ops p4rev = Inr (ctx1, ctx2)"
    and trim: "trim_pushed u srv r cl
        (drop (if p4id \<noteq> 0 then 1 else 0) (nodesbetween r [ctx1] [ctx2])) h1 = (Inr (ns, t), cl2, h2)"
    and known: "hd ns \<in> node ` set (changelog r)"
    and stat: "p4stat cl2 = Some s"
    and bad: "\<exists>n\<in>set ns. n \<in> set s \<or> child_in_p4 r n"
  shows "(\<exists>n\<in>set ns. (n \<in> set s \<or> child_in_p4 r n) \<and>
            fst (push u srv r dq ops dest h) =
              Inl (Abort (''can not push, changeset '' @ short n @ '' is already in p4''))) \<and>
         snd (push u srv r dq ops dest h) = h2 \<and>
         adds {''client'', ''changes''} h h2"
proof -
  from bad obtain n where n: "List.find (\<lambda>n. n \<in> set s \<or> child_in_p4 r n) ns = Some n"
    by (cases "List.find (\<lambda>n. n \<in> set s \<or> child_in_p4 r n) ns") (auto simp: find_None_iff)
  then have nbad: "n \<in> set ns" "n \<in> set s \<or> child_in_p4 r n"
    by (auto simp: find_Some_iff)
  let ?e = "Abort (''can not push, changeset '' @ short n @ '' is already in p4'')"
  have chk: "check_pushed u srv r cl2 ns h2 = (Some ?e, cl2, h2)"
    by (simp add: check_pushed_cached [OF stat] n)
  from known obtain c where "repo_node r (hd ns) = Some c"
    by (cases "repo_node r (hd ns)") (auto simp: repo_node_def find_None_iff)
  then obtain p where fp: "first_parent r (hd ns) = Inr p"
    by (simp add: first_parent_def)
  have np: "not_pushed u srv r cl
      (drop (if p4id \<noteq> 0 then 1 else 0) (nodesbetween r [ctx1] [ctx2])) ctx1 ctx2 h1 =
      (Inl ?e, cl2, h2)"
    by (simp add: not_pushed_def trim fp chk)
  have pc: "pushcommon False u srv r dq ops dest h = (Inl ?e, h2)"
    using nf by (simp add: pushcommon_def cl fnd rng np)
  then have p: "push u srv r dq ops dest h = (Inl ?e, h2)"
    by (simp add: push_def)
  have a1: "adds {''client'', ''changes''} h h1"
    using common_client_adds [OF cl] by (rule adds_mono) simp
  have a2: "adds {''client'', ''changes''} h1 h2"
    using trim_pushed_result(1) [OF trim] by (rule adds_mono) simp
  from nbad p adds_trans [OF a1 a2] show ?thesis by auto
qed

theorem push_already_in_p4_witness:
  "\<not> force (example_opts\<lparr>push_rev := Some (''cccccccccccccccccccc'', None)\<rparr>) \<and>
   child_in_p4 pushed_repo ''cccccccccccccccccccc'' \<and>
   fst (push example_ui quiet_server pushed_repo example_diff
          (example_opts\<lparr>push_rev := Some (''cccccccccccccccccccc'', None)\<rparr>)
          ''p4://perforce/ws-client'' []) =
     Inl (Abort (''can not push, changeset '' @ short ''cccccccccccccccccccc'' @
        '' is already in p4'')) \<and>
   adds {''client'', ''changes''} []
     (snd (push example_ui quiet_server pushed_repo example_diff
          (example_opts\<lparr>push_rev := Some (''cccccccccccccccccccc'', None)\<rparr>)
          ''p4://perforce/ws-client'' []))"
proof -
  let ?c = "''cccccccccccccccccccc''" and ?n = "''nnnnnnnnnnnnnnnnnnnn''"
  let ?ops = "example_opts\<lparr>push_rev := Some (?c, None)\<rparr>"
  let ?cl = "example_client\<lparr>clientspec := [(''Client'', S ''ws-client''), (''Root'', S ''/ws'')]\<rparr>"
  let ?h1 = "[\<lparr>call_server = Some ''perforce:1666'', call_client = None, call_root = None,
     call_cmd = [''client'', ''-o'', ''ws-client''], call_files = [], call_form = None\<rparr>]"
  let ?trim = "trim_pushed example_ui quiet_server pushed_repo ?cl
      (drop (if (5::int) \<noteq> 0 then 1 else 0) (nodesbetween pushed_repo [?n] [?c])) ?h1"
  have nf: "\<not> force ?ops" and nmq: "\<not> mq ?ops" by (simp_all add: example_opts_def)
  have cl: "common_client example_ui quiet_server ''p4://perforce/ws-client'' [] =
      (Inr (Proceed ?cl), ?h1)"
    by (simp add: common_client_def p4client_init_def startswith_def split1_def new_client_def
        runone_def run_def loaditer_def the_call_def given_def quiet_server_def example_ui_def
        posix_quote_def root_keys_def
        getstr_def example_client_def Let_def)
  have fnd: "find_p4 pushed_repo None True None True = Inr (''gggggggggggggggggggg'', 5)"
    by code_simp
  have rng: "push_range pushed_repo ?ops ''gggggggggggggggggggg'' = Inr (?n, ?c)"
    by code_simp
  have "fst ?trim = Inr ([?c], False)" by code_simp
  then have trim: "?trim = (Inr ([?c], False), fst (snd ?trim), snd (snd ?trim))"
    by (metis prod.collapse)
  have known: "hd [?c] \<in> node ` set (changelog pushed_repo)"
    by (simp add: pushed_repo_def)
  have stat: "p4stat (fst (snd ?trim)) = Some []" by code_simp
  have child: "child_in_p4 pushed_repo ?c"
    by (simp add: child_in_p4_def children_of_def pushed_repo_def)
  then have bad: "\<exists>n\<in>set [?c]. n \<in> set [] \<or> child_in_p4 pushed_repo n" by simp
  from push_already_in_p4 [OF nf nmq cl fnd rng trim known stat bad, of example_diff]
  have "fst (push example_ui quiet_server pushed_repo example_diff ?ops
          ''p4://perforce/ws-client'' []) =
      Inl (Abort (''can not push, changeset '' @ short ?c @ '' is already in p4''))"
    and "adds {''client'', ''changes''} []
      (snd (push example_ui quiet_server pushed_repo example_diff ?ops
          ''p4://perforce/ws-client'' []))"
    by simp_all
  with nf child show ?thesis by blast
qed

text \<open>
  A changeset that carries the key \<^verbatim>\<open>p4\<close> itself is not recognized either: the
  check reads the key of the children only.  In \<open>example_repo\<close> the changeset
  \<open>p\<close> was made from changelist 5, and the dictionary of this changelist is passed
  over when the cache is filled.  A push of \<open>p\<close> without \<^verbatim>\<open>--force\<close> does not
  raise: \<^verbatim>\<open>pushcommon\<close> returns \<open>p\<close> as the node to push.
\<close>

lemma push_marked_changeset:
  "map extra_p4 (filter (\<lambda>c. node c = ''pppppppppppppppppppp'') (changelog example_repo)) =
     [Some 5] \<and>
   map extra_p4 (children_of example_repo ''pppppppppppppppppppp'') = [None] \<and>
   \<not> force (example_opts\<lparr>push_rev := Some (''pppppppppppppppppppp'', None)\<rparr>) \<and>
   map_sum (\<lambda>e. e) (map_common ps_nodes)
     (fst (pushcommon False example_ui quiet_server example_repo example_diff
        (example_opts\<lparr>push_rev := Some (''pppppppppppppppppppp'', None)\<rparr>)
        ''p4://perforce/ws-client'' [])) =
     Inr (Proceed [''pppppppppppppppppppp''])"
  by (intro conjI; code_simp)

text \<open>
  Claim C6 fails in the code for descendants that are no children.  The claim has the
  push raise when a descendant of a remaining node carries the key \<^verbatim>\<open>p4\<close>, and
  the comment of the source has the loop check that the remaining nodes have not
  already been pushed.  In \<open>pushed_repo\<close> the changeset \<open>n\<close> went into changelist
  5 together with its child \<open>c\<close>; \<open>c\<close> has no key \<^verbatim>\<open>p4\<close>, and the child
  \<open>g\<close> of \<open>c\<close> is the changeset that \<^verbatim>\<open>pull\<close> made from changelist 5.  A push
  of \<open>n\<close> without \<^verbatim>\<open>--force\<close> does not raise: \<^verbatim>\<open>pushcommon\<close> returns
  \<open>n\<close> as the node to push.
\<close>

theorem push_descendant_in_p4:
  "map node (children_of pushed_repo ''nnnnnnnnnnnnnnnnnnnn'') = [''cccccccccccccccccccc''] \<and>
   map extra_p4 (children_of pushed_repo ''nnnnnnnnnnnnnnnnnnnn'') = [None] \<and>
   map node (children_of pushed_repo ''cccccccccccccccccccc'') = [''gggggggggggggggggggg''] \<and>
   map extra_p4 (children_of pushed_repo ''cccccccccccccccccccc'') = [Some 5] \<and>
   \<not> force (example_opts\<lparr>push_rev := Some (''nnnnnnnnnnnnnnnnnnnn'', None)\<rparr>) \<and>
   map_sum (\<lambda>e. e) (map_common ps_nodes)
     (fst (pushcommon False example_ui quiet_server pushed_repo example_diff
        (example_opts\<lparr>push_rev := Some (''nnnnnnnnnnnnnnnnnnnn'', None)\<rparr>)
        ''p4://perforce/ws-client'' [])) =
     Inr (Proceed [''nnnnnnnnnnnnnnnnnnnn''])"
  by (intro conjI; code_simp)

subsection \<open>Reverting the changelist of a failed push\<close>

lemma yielded_text:
  "\<forall>d\<in>set ds. \<forall>i. map_of d ''data'' \<noteq> Some (I i) \<Longrightarrow> yielded False ds = (ds, None)"
proof (induction ds)
  case Nil
  show ?case by simp
next
  case (Cons d ds)
  then have ih: "yielded False ds = (ds, None)" by simp
  from Cons.prems have "\<forall>i. map_of d ''data'' \<noteq> Some (I i)" by simp
  then show ?case
    by (cases "map_of d ''code''"; cases "map_of d ''data''")
       (auto simp: ih split: p4val.splits)
qed

lemma runs_text:
  assumes "text_server srv"
  shows "runs srv cl cmd fs False c h = (None, h @ [the_call cl cmd fs c None])"
proof -
  let ?h = "h @ [the_call cl cmd fs c None]"
  have "\<forall>d\<in>set (loaditer (srv ?h)). \<forall>i. map_of d ''data'' \<noteq> Some (I i)"
    using assms unfolding text_server_def loaditer_def by (meson set_takeWhileD)
  then have "yielded False (loaditer (srv ?h)) = (loaditer (srv ?h), None)"
    by (rule yielded_text)
  then show ?thesis by (simp add: runs_def run_def Let_def)
qed

text \<open>
  What the handler of \<^verbatim>\<open>push\<close> does when \<^verbatim>\<open>revert\<close> gets a client and a
  description of the changelist: it runs \<^verbatim>\<open>revert\<close> for the files of the
  changelist, \<^verbatim>\<open>fix -d\<close> for its jobs and \<^verbatim>\<open>change -d\<close>, and the error of the
  \<^verbatim>\<open>try\<close> block is raised again.  The client is made from the path of
  \<^verbatim>\<open>default-push\<close> (or of the repository), not from the destination of the push.
\<close>

lemma push_failure_reverts:
  assumes fail: "push_files u srv dq ops cl0 use ctx md st rm h = (Some e, h1)"
    and cli: "p4client_init u srv
        (if startswith (repo_path u) ''p4://'' then repo_path u else default_push u) h1 =
        (Inr cl, h2)"
    and num: "py_int (S use) = Some c"
    and dsc: "describe u srv cl (str_int c) h2 = (Inr d, cl3, h3)"
    and texts: "text_server srv"
  shows "push_try u srv dq ops cl0 use ctx md st rm h =
    (Some e,
     h3 @
     (if d_files d \<noteq> []
      then [the_call cl3 [''revert''] (map fst (d_files d)) (Some (d_client d)) None] else []) @
     (if d_jobs d \<noteq> []
      then [the_call cl3 [''fix'', ''-d'', ''-c'', str_int c] (map fst (d_jobs d))
              (Some (d_client d)) None] else []) @
     [the_call cl3 [''change'', ''-d'', str_int c] [] (Some (d_client d)) None])"
proof -
  have sub: "subrevcommon u srv [use] h1 = (Inr (cl, [c]), h2)"
    by (simp add: subrevcommon_def cli num)
  have one: "revert_change u srv cl c h2 =
    (None, cl3,
     h3 @
     (if d_files d \<noteq> []
      then [the_call cl3 [''revert''] (map fst (d_files d)) (Some (d_client d)) None] else []) @
     (if d_jobs d \<noteq> []
      then [the_call cl3 [''fix'', ''-d'', ''-c'', str_int c] (map fst (d_jobs d))
              (Some (d_client d)) None] else []) @
     [the_call cl3 [''change'', ''-d'', str_int c] [] (Some (d_client d)) None])"
    by (simp add: revert_change_def dsc runs_text [OF texts])
  have "revert u srv [use] h1 =
    (None,
     h3 @
     (if d_files d \<noteq> []
      then [the_call cl3 [''revert''] (map fst (d_files d)) (Some (d_client d)) None] else []) @
     (if d_jobs d \<noteq> []
      then [the_call cl3 [''fix'', ''-d'', ''-c'', str_int c] (map fst (d_jobs d))
              (Some (d_client d)) None] else []) @
     [the_call cl3 [''change'', ''-d'', str_int c] [] (Some (d_client d)) None])"
    by (simp add: revert_def sub one)
  then show ?thesis by (simp add: push_try_def fail)
qed

text \<open>
  When \<^verbatim>\<open>describe\<close> raises, \<^verbatim>\<open>revert\<close> warns and does nothing for the
  changelist.
\<close>

lemma revert_nothing:
  assumes "describe u srv cl (str_int c) h = (Inl e, cl', h')"
  shows "revert_change u srv cl c h = (None, cl', h')"
  using assms by (simp add: revert_change_def)

text \<open>
  When the client cannot be made, \<^verbatim>\<open>revert\<close> raises inside the handler: its
  error takes the place of the error of the \<^verbatim>\<open>try\<close> block, and no command is run.
\<close>

lemma push_failure_client:
  assumes fail: "push_files u srv dq ops cl0 use ctx md st rm h = (Some e, h1)"
    and cli: "p4client_init u srv
        (if startswith (repo_path u) ''p4://'' then repo_path u else default_push u) h1 =
        (Inl e', h2)"
  shows "push_try u srv dq ops cl0 use ctx md st rm h = (Some e', h2)"
  by (simp add: push_try_def fail revert_def subrevcommon_def cli)

text \<open>
  A push to \<^verbatim>\<open>p4://perforce/ws-client\<close>, which is also the path of
  \<^verbatim>\<open>default-push\<close>: the server refuses \<^verbatim>\<open>add\<close> after changelist 12 was
  created.  The handler describes the changelist, reverts its file, removes the fix of
  its job and deletes it, and the error of \<^verbatim>\<open>add\<close> is raised.
\<close>

lemma push_failure_reverted:
  "fst (push example_ui failing_server example_repo example_diff example_opts
          ''p4://perforce/ws-client'' []) =
     Inl (Abort ''p4: no permission for operation on file(s).'') \<and>
   map call_cmd (snd (push example_ui failing_server example_repo example_diff example_opts
          ''p4://perforce/ws-client'' [])) =
     [[''client'', ''-o'', ''ws-client''],
      [''changes'', ''-l'', ''-c'', ''ws-client'', [CHR 0x27] @ ''...@5,#head'' @ [CHR 0x27]],
      [''changes'', ''-l'', ''-c'', ''ws-client'', ''-s'', ''pending''],
      [''sync'', [CHR 0x27] @ ''...@5'' @ [CHR 0x27]],
      [''changes'', ''-s'', ''pending'', ''-c'', ''ws-client'', ''-l''],
      [''revert'', []],
      [''change'', ''-o'', []],
      [''change'', ''-i'', ''</tmp/hg-p4-tmp''],
      [''add'', ''-f'', ''-c'', ''12''],
      [''client'', ''-o'', ''ws-client''],
      [''describe'', ''-s'', ''12''],
      [''user'', ''-o'', ''jane''],
      [''revert''],
      [''fix'', ''-d'', ''-c'', ''12''],
      [''change'', ''-d'', ''12'']]"
  by (intro conjI; code_simp)


subsection \<open>Sorting out the copies from the adds\<close>

lemma rems_of_eq: "rems_of rem r = (if r \<in> fst ` set rem then Some True else None)"
proof -
  have "\<And>m. fold (\<lambda>f m. m(fst f \<mapsto> True)) rem m r = (if r \<in> fst ` set rem then Some True else m r)"
    by (induction rem) auto
  then show ?thesis by (simp add: rems_of_def)
qed

lemma sort_entry_other_dest: "fst e \<noteq> f \<Longrightarrow> to_dest f (sort_entry move copy cpy e st) = to_dest f st"
  by (cases e) (auto simp: sort_entry_def to_dest_def Let_def split: option.splits)

lemma sort_adds_other_dest: "\<forall>e\<in>set xs. fst e \<noteq> f \<Longrightarrow> to_dest f (sort_adds move copy cpy xs st) = to_dest f st"
  by (induction xs arbitrary: st) (simp_all add: sort_adds_def sort_entry_other_dest)

lemma sort_entry_other_source: "\<forall>c. cpy (fst e) \<noteq> Some (r, c) \<Longrightarrow> rems (sort_entry move copy cpy e st) r = rems st r"
  by (cases e) (auto simp: sort_entry_def Let_def split: option.splits)

lemma sort_adds_other_source: "\<forall>e\<in>set xs. \<forall>c. cpy (fst e) \<noteq> Some (r, c) \<Longrightarrow> rems (sort_adds move copy cpy xs st) r = rems st r"
  by (induction xs arbitrary: st) (simp_all add: sort_adds_def sort_entry_other_source)

lemma sort_entry_rems_mono: "rems st r \<noteq> Some True \<Longrightarrow> rems (sort_entry move copy cpy e st) r \<noteq> Some True"
  by (cases e) (auto simp: sort_entry_def Let_def split: option.splits)

lemma sort_adds_rems_mono: "rems st r \<noteq> Some True \<Longrightarrow> rems (sort_adds move copy cpy xs st) r \<noteq> Some True"
  by (induction xs arbitrary: st) (simp_all add: sort_adds_def sort_entry_rems_mono)

lemma sort_entry_consumes: "move \<Longrightarrow> cpy (fst e) = Some (r, c) \<Longrightarrow> rems (sort_entry move copy cpy e st) r \<noteq> Some True"
  by (cases e) (auto simp: sort_entry_def Let_def split: option.splits)

lemma sort_adds_consumes: "move \<Longrightarrow> e \<in> set xs \<Longrightarrow> cpy (fst e) = Some (r, c) \<Longrightarrow> rems (sort_adds move copy cpy xs st) r \<noteq> Some True"
proof (induction xs arbitrary: st)
  case Nil
  then show ?case by simp
next
  case (Cons x xs)
  show ?case
  proof (cases "e = x")
    case True
    with Cons.prems have "rems (sort_entry move copy cpy x st) r \<noteq> Some True"
      by (simp add: sort_entry_consumes)
    then have "rems (sort_adds move copy cpy xs (sort_entry move copy cpy x st)) r \<noteq> Some True"
      by (rule sort_adds_rems_mono)
    then show ?thesis by (simp add: sort_adds_def)
  next
    case False
    with Cons.prems have "e \<in> set xs" by simp
    from Cons.IH [OF Cons.prems(1) this Cons.prems(3)] show ?thesis by (simp add: sort_adds_def)
  qed
qed

lemma sort_adds_append: "sort_adds move copy cpy (xs @ ys) st = sort_adds move copy cpy ys (sort_adds move copy cpy xs st)"
  by (simp add: sort_adds_def)

lemma sort_adds_Cons: "sort_adds move copy cpy (x # xs) st = sort_adds move copy cpy xs (sort_entry move copy cpy x st)"
  by (simp add: sort_adds_def)

lemma to_dest_init: "to_dest f (sorting_init rem) = ([], [], [])"
  by (simp add: to_dest_def sorting_init_def)

text \<open>
  Claim C2, as the code has it.  Let \<^verbatim>\<open>f\<close> be an added file whose copy source
  \<^verbatim>\<open>r\<close> is known and is in the removed list, with move support enabled and the added
  names distinct.  Then \<^verbatim>\<open>r\<close> is not in the final remove list.  If no earlier entry
  of \<^verbatim>\<open>add\<close> has the source \<^verbatim>\<open>r\<close>, the loop emits exactly one move for
  \<^verbatim>\<open>f\<close>, the move from \<^verbatim>\<open>r\<close>, and no copy and no integrate for it.  If an
  earlier entry has already taken \<^verbatim>\<open>r\<close> for its move, \<^verbatim>\<open>f\<close> gets no move but
  exactly one copy from \<^verbatim>\<open>r\<close> when copy support is enabled, and exactly one
  integrate otherwise.
\<close>

theorem sort_copies_move:
  assumes mv: "move"
    and dist: "distinct (map fst add)"
    and split: "add = pre @ (f, g) # post"
    and src: "cpy f = Some (r, chg)"
    and removed: "r \<in> fst ` set rem"
  shows "r \<notin> fst ` set (snd (sort_copies move copy cpy add rem)) \<and>
    to_dest f (fst (sort_copies move copy cpy add rem)) =
      (if \<forall>e\<in>set pre. \<forall>c. cpy (fst e) \<noteq> Some (r, c) then ([(r, f, g)], [], [])
       else if copy then ([], [(r, f)], [])
       else ([], [], [(r, f)]))"
proof -
  define st0 where "st0 = sorting_init rem"
  define st1 where "st1 = sort_adds move copy cpy pre st0"
  define st2 where "st2 = sort_entry move copy cpy (f, g) st1"
  define st3 where "st3 = sort_adds move copy cpy post st2"
  have fin: "sort_copies move copy cpy add rem = (st3, filter (\<lambda>r. rems st3 (fst r) = Some True) rem)"
    by (simp add: sort_copies_def split sort_adds_append sort_adds_Cons st0_def st1_def st2_def st3_def Let_def)
  from dist split have pre_f: "\<forall>e\<in>set pre. fst e \<noteq> f" and post_f: "\<forall>e\<in>set post. fst e \<noteq> f"
    by auto
  have d1: "to_dest f st1 = ([], [], [])"
    unfolding st1_def st0_def using sort_adds_other_dest [OF pre_f] to_dest_init by simp
  have d3: "to_dest f st3 = to_dest f st2"
    unfolding st3_def using sort_adds_other_dest [OF post_f] by simp
  have "(f, g) \<in> set add" using split by simp
  with mv src have "rems (sort_adds move copy cpy add st0) r \<noteq> Some True"
    using sort_adds_consumes [of move "(f, g)" add cpy r chg copy st0] by simp
  then have "rems st3 r \<noteq> Some True"
    by (simp add: split sort_adds_append sort_adds_Cons st1_def st2_def st3_def)
  then have gone: "r \<notin> fst ` set (snd (sort_copies move copy cpy add rem))"
    by (auto simp: fin)
  have d2: "to_dest f st2 =
      (if \<forall>e\<in>set pre. \<forall>c. cpy (fst e) \<noteq> Some (r, c) then ([(r, f, g)], [], [])
       else if copy then ([], [(r, f)], [])
       else ([], [], [(r, f)]))"
  proof (cases "\<forall>e\<in>set pre. \<forall>c. cpy (fst e) \<noteq> Some (r, c)")
    case True
    then have "rems st1 r = rems st0 r"
      unfolding st1_def by (rule sort_adds_other_source)
    with removed have "rems st1 r = Some True"
      by (simp add: st0_def sorting_init_def rems_of_eq)
    with True mv src d1 show ?thesis
      by (simp add: st2_def sort_entry_def to_dest_def Let_def)
  next
    case False
    then obtain e c where "e \<in> set pre" "cpy (fst e) = Some (r, c)" by blast
    with mv have "rems st1 r \<noteq> Some True"
      unfolding st1_def by (rule sort_adds_consumes)
    with False src d1 show ?thesis
      by (simp add: st2_def sort_entry_def to_dest_def Let_def)
  qed
  from gone d2 d3 show ?thesis by (simp add: fin)
qed

theorem sort_copies_move_witness:
  "distinct (map fst [(''a'', ''''), (''b'', ''x''), (''c'', '''')]) \<and>
   map_of [(''b'', (''old'', False)), (''c'', (''old'', True))] ''b'' = Some (''old'', False) \<and>
   ''old'' \<in> fst ` set [(''old'', '''')] \<and>
   ''old'' \<notin> fst ` set (snd (sort_copies True False
      (map_of [(''b'', (''old'', False)), (''c'', (''old'', True))])
      [(''a'', ''''), (''b'', ''x''), (''c'', '''')] [(''old'', '''')])) \<and>
   to_dest ''b'' (fst (sort_copies True False
      (map_of [(''b'', (''old'', False)), (''c'', (''old'', True))])
      [(''a'', ''''), (''b'', ''x''), (''c'', '''')] [(''old'', '''')])) =
     ([(''old'', ''b'', ''x'')], [], [])"
proof -
  let ?add = "[(''a'', ''''), (''b'', ''x''), (''c'', '''')]"
  let ?cpy = "map_of [(''b'', (''old'', False)), (''c'', (''old'', True))]"
  have h1: "distinct (map fst ?add)" by simp
  have h2: "?add = [(''a'', '''')] @ (''b'', ''x'') # [(''c'', '''')]" by simp
  have h3: "?cpy ''b'' = Some (''old'', False)" by simp
  have h4: "''old'' \<in> fst ` set [(''old'', '''')]" by simp
  have h5: "\<forall>e\<in>set [(''a'', '''')]. \<forall>c. ?cpy (fst e) \<noteq> Some (''old'', c)" by simp
  note c = sort_copies_move [where move = True and add = ?add and pre = "[(''a'', '''')]"
      and f = "''b''" and g = "''x''" and post = "[(''c'', '''')]" and cpy = ?cpy
      and r = "''old''" and chg = False and rem = "[(''old'', '''')]" and copy = False,
      OF TrueI h1 h2 h3 h4, unfolded if_P [OF h5]]
  from h1 h3 h4 c show ?thesis by blast
qed

text \<open>
  Claim C2 as stated fails: \<^verbatim>\<open>old\<close> was renamed to \<^verbatim>\<open>b\<close> and also copied to
  \<^verbatim>\<open>c\<close>.  Both added files have the removed file \<^verbatim>\<open>old\<close> as their source and
  move support is enabled, but \<^verbatim>\<open>c\<close> gets a copy and no move.
\<close>

theorem sort_copies_second_is_copy:
  "map_of [(''b'', (''old'', False)), (''c'', (''old'', False))] ''c'' = Some (''old'', False) \<and>
   ''old'' \<in> fst ` set [(''old'', '''')] \<and>
   to_dest ''c'' (fst (sort_copies True True
      (map_of [(''b'', (''old'', False)), (''c'', (''old'', False))])
      [(''b'', ''''), (''c'', '''')] [(''old'', '''')])) =
     ([], [(''old'', ''c'')], [])"
  by code_simp

text \<open>
  The rest of the loop: the second list of modified files holds exactly the added files
  whose copy is flagged as changed, and the final remove list only loses entries.
\<close>

lemma sort_entry_mod2:
  "mod2 (sort_entry move copy cpy e st) =
     mod2 st @ (if \<exists>r. cpy (fst e) = Some (r, True) then [e] else [])"
  by (cases e) (auto simp: sort_entry_def Let_def split: option.splits)

lemma sort_adds_mod2:
  "mod2 (sort_adds move copy cpy xs st) =
     mod2 st @ filter (\<lambda>e. \<exists>r. cpy (fst e) = Some (r, True)) xs"
  by (induction xs arbitrary: st) (simp_all add: sort_adds_Cons sort_entry_mod2, simp add: sort_adds_def)

lemma sort_copies_rem_subset:
  "set (snd (sort_copies move copy cpy add rem)) \<subseteq> set rem"
  by (auto simp: sort_copies_def Let_def)

text \<open>
  Claim C3 at a failing input.  The base changeset has the executable file \<^verbatim>\<open>src\<close>;
  the pushed changeset copies it to \<^verbatim>\<open>dst\<close> with the same data and without the
  executable flag.  \<^verbatim>\<open>pushcommon\<close> compares the flags of \<^verbatim>\<open>dst\<close> with the flags
  that \<^verbatim>\<open>dst\<close> itself has in the base changeset, where it does not exist, so the copy
  counts as unchanged: the loop emits the copy and schedules no modification of
  \<^verbatim>\<open>dst\<close>, although its flags differ from those of its source.
\<close>

theorem copy_without_flag_not_modified:
  "mark_copies (map_of [(''src'', (''x'', ''data''))])
      (map_of [(''src'', (''x'', ''data'')), (''dst'', ('''', ''data''))])
      [(''dst'', ''src'')] = Inr [(''dst'', ''src'', False)] \<and>
   ctx_flags (map_of [(''src'', (''x'', ''data'')), (''dst'', ('''', ''data''))]) ''dst'' \<noteq>
     ctx_flags (map_of [(''src'', (''x'', ''data''))]) ''src'' \<and>
   to_dest ''dst'' (fst (sort_copies True True (map_of [(''dst'', ''src'', False)])
      [(''dst'', '''')] [])) = ([], [(''src'', ''dst'')], []) \<and>
   mod2 (fst (sort_copies True True (map_of [(''dst'', ''src'', False)])
      [(''dst'', '''')] [])) = []"
  by code_simp

end
